(* ===== verification/Prelude.thy ===== *)
theory Prelude
  imports Main "HOL-Library.Code_Target_Nat"
begin

text \<open>
  The vocabulary shared by every component of the development.

  \<^item> Go strings and byte slices are lists of bytes; a byte is HOL's 8-bit \<open>char\<close>, so
    \<open>len(s)\<close> is \<open>length s\<close>. The functions of Go's \<open>strings\<close> package that the program calls
    are defined on them.
  \<^item> A Go map is an association list read with \<open>map_of\<close>. The position of an entry is the
    order in which \<open>range\<close> visits it; Go leaves that order open, and a lemma about every
    association list is a lemma about every order. \<open>put\<close> and \<open>del\<close> are \<open>m[k] = v\<close> and
    \<open>delete(m, k)\<close>, \<open>wfm\<close> says that no key is stored twice.
  \<^item> Machine integers are \<open>int\<close> with the 64-bit wrap-around written out.
  \<^item> \<open>reach\<close> is the set of states a step relation reaches, and the locale
    \<open>invariant_system\<close> is the interface through which a component obtains that its
    invariant holds in all of them.
\<close>

named_theorems go_simps \<open>evaluation rules of the modelled Go library\<close>
named_theorems gomap_simps \<open>reading a Go map after an update\<close>

section \<open>Strings\<close>

text \<open>
  \<open>unicode\<close> holds what \<open>strings.ToLower\<close> and \<open>strings.ToUpper\<close> do on a string with a byte
  outside ASCII (the Unicode case tables). On ASCII strings they are defined outright.
\<close>

record unicode =
  lowerMap :: "string \<Rightarrow> string"
  upperMap :: "string \<Rightarrow> string"

definition byteval :: "char \<Rightarrow> nat" where
  "byteval c = of_char c"

definition ascii :: "string \<Rightarrow> bool" where
  "ascii s \<longleftrightarrow> list_all (\<lambda>c. byteval c < 128) s"

definition lowerByte :: "char \<Rightarrow> char" where
  "lowerByte c = (if 65 \<le> byteval c \<and> byteval c \<le> 90 then char_of (byteval c + 32) else c)"

definition upperByte :: "char \<Rightarrow> char" where
  "upperByte c = (if 97 \<le> byteval c \<and> byteval c \<le> 122 then char_of (byteval c - 32) else c)"

definition ToLower :: "unicode \<Rightarrow> string \<Rightarrow> string" where
  "ToLower U s = (if ascii s then map lowerByte s else lowerMap U s)"

definition ToUpper :: "unicode \<Rightarrow> string \<Rightarrow> string" where
  "ToUpper U s = (if ascii s then map upperByte s else upperMap U s)"

definition HasPrefix :: "string \<Rightarrow> string \<Rightarrow> bool" where
  "HasPrefix s p \<longleftrightarrow> length p \<le> length s \<and> take (length p) s = p"

definition HasSuffix :: "string \<Rightarrow> string \<Rightarrow> bool" where
  "HasSuffix s t \<longleftrightarrow> length t \<le> length s \<and> drop (length s - length t) s = t"

definition CutSuffix :: "string \<Rightarrow> string \<Rightarrow> string \<times> bool" where
  "CutSuffix s t = (if HasSuffix s t then (take (length s - length t) s, True) else (s, False))"

definition TrimSuffix :: "string \<Rightarrow> string \<Rightarrow> string" where
  "TrimSuffix s t = fst (CutSuffix s t)"

text \<open>\<open>strings.Cut(s, sep)\<close> for a one-byte separator: before, after, found.\<close>

definition Cut :: "string \<Rightarrow> char \<Rightarrow> string \<times> string \<times> bool" where
  "Cut s sep =
     (if sep \<in> set s
      then (takeWhile (\<lambda>c. c \<noteq> sep) s, drop 1 (dropWhile (\<lambda>c. c \<noteq> sep) s), True)
      else (s, [], False))"

text \<open>\<open>strings.Split(s, sep)\<close> for a one-byte separator: never the empty list.\<close>

fun Split :: "string \<Rightarrow> char \<Rightarrow> string list" where
  "Split [] sep = [[]]"
| "Split (c # s) sep =
     (if c = sep then [] # Split s sep
      else case Split s sep of [] \<Rightarrow> [[c]] | p # ps \<Rightarrow> (c # p) # ps)"

text \<open>
  \<open>strings.TrimSpace\<close>: the encodings of the code points with the Unicode property
  White Space, removed from both ends.
\<close>

definition spaceSeqs :: "string list" where
  "spaceSeqs =
     [[CHR 0x09], [CHR 0x0A], [CHR 0x0B], [CHR 0x0C], [CHR 0x0D], [CHR 0x20],
      [CHR 0xC2, CHR 0x85], [CHR 0xC2, CHR 0xA0], [CHR 0xE1, CHR 0x9A, CHR 0x80]]
     @ map (\<lambda>b. [CHR 0xE2, CHR 0x80, b])
         [CHR 0x80, CHR 0x81, CHR 0x82, CHR 0x83, CHR 0x84, CHR 0x85, CHR 0x86, CHR 0x87,
          CHR 0x88, CHR 0x89, CHR 0x8A, CHR 0xA8, CHR 0xA9, CHR 0xAF]
     @ [[CHR 0xE2, CHR 0x81, CHR 0x9F], [CHR 0xE3, CHR 0x80, CHR 0x80]]"

function trimWith :: "string list \<Rightarrow> string \<Rightarrow> string" where
  "trimWith qs s =
     (case find (HasPrefix s) qs of
        None \<Rightarrow> s
      | Some q \<Rightarrow> if q = [] then s else trimWith qs (drop (length q) s))"
  by pat_completeness auto
termination
proof (relation "measure (\<lambda>(qs, s). length s)")
  show "wf (measure (\<lambda>(qs :: string list, s :: string). length s))" by simp
next
  fix qs :: "string list" and s q :: string
  assume "find (HasPrefix s) qs = Some q" and "q \<noteq> []"
  then have "length q \<le> length s" and "0 < length q"
    by (auto simp: find_Some_iff HasPrefix_def)
  then have "length s - length q < length s"
    by linarith
  then show "((qs, drop (length q) s), qs, s) \<in> measure (\<lambda>(qs, s). length s)"
    by simp
qed

declare trimWith.simps [simp del]

definition TrimSpace :: "string \<Rightarrow> string" where
  "TrimSpace s = rev (trimWith (map rev spaceSeqs) (rev (trimWith spaceSeqs s)))"

lemma byteval_less [simp]: "byteval c < 256"
  by (simp add: byteval_def)

lemma byteval_inject [simp]: "byteval c = byteval d \<longleftrightarrow> c = d"
  by (simp add: byteval_def)

lemma byteval_char_of [simp]: "byteval (char_of n) = n mod 256"
  by (simp add: byteval_def)

lemma lowerByte_idem [simp]: "lowerByte (lowerByte c) = lowerByte c"
  by (simp add: lowerByte_def)

lemma byteval_lowerByte:
  "byteval (lowerByte c) = (if 65 \<le> byteval c \<and> byteval c \<le> 90 then byteval c + 32 else byteval c)"
  by (simp add: lowerByte_def)

lemma byteval_upperByte:
  "byteval (upperByte c) = (if 97 \<le> byteval c \<and> byteval c \<le> 122 then byteval c - 32 else byteval c)"
  by (auto simp: upperByte_def intro!: mod_less)

lemma upper_lowerByte: "upperByte (lowerByte c) = upperByte c"
  by (rule byteval_inject [THEN iffD1]) (auto simp: byteval_upperByte byteval_lowerByte)

lemma lowerByte_dot_iff: "CHR ''.'' = lowerByte c \<longleftrightarrow> CHR ''.'' = c"
proof -
  have "byteval CHR ''.'' = byteval (lowerByte c) \<longleftrightarrow> byteval CHR ''.'' = byteval c"
    unfolding byteval_lowerByte by (simp add: byteval_def)
  then show ?thesis by simp
qed

lemma ascii_lower [simp]: "ascii (map lowerByte s) \<longleftrightarrow> ascii s"
  by (auto simp: ascii_def list_all_iff byteval_lowerByte split: if_splits)

lemma ascii_append [simp]: "ascii (s @ t) \<longleftrightarrow> ascii s \<and> ascii t"
  by (simp add: ascii_def)

lemma ToLower_ascii: "ascii s \<Longrightarrow> ToLower U s = map lowerByte s"
  by (simp add: ToLower_def)

lemma ToLower_idem: "ascii s \<Longrightarrow> ToLower U (ToLower U s) = ToLower U s"
  by (simp add: ToLower_def o_def)

lemma HasSuffix_iff: "HasSuffix s t \<longleftrightarrow> (\<exists>p. s = p @ t)"
proof
  assume "HasSuffix s t"
  then have "s = take (length s - length t) s @ t"
    by (metis HasSuffix_def append_take_drop_id)
  then show "\<exists>p. s = p @ t" ..
qed (auto simp: HasSuffix_def)

lemma HasSuffix_append [simp]: "HasSuffix (p @ t) t"
  by (auto simp: HasSuffix_iff)

lemma CutSuffix_append [simp]: "CutSuffix (p @ t) t = (p, True)"
  by (simp add: CutSuffix_def)

lemma CutSuffix_True: "CutSuffix s t = (p, True) \<longleftrightarrow> s = p @ t"
  by (auto simp: CutSuffix_def HasSuffix_iff)

lemma CutSuffix_snd: "snd (CutSuffix s t) \<longleftrightarrow> HasSuffix s t"
  by (simp add: CutSuffix_def)

lemma Cut_found: "sep \<notin> set p \<Longrightarrow> Cut (p @ sep # q) sep = (p, q, True)"
  by (induction p) (auto simp: Cut_def)

lemma Cut_True:
  assumes "Cut s sep = (p, q, True)"
  shows "s = p @ sep # q" and "sep \<notin> set p"
proof -
  have mem: "sep \<in> set s" and p: "p = takeWhile (\<lambda>c. c \<noteq> sep) s"
    and q: "q = drop 1 (dropWhile (\<lambda>c. c \<noteq> sep) s)"
    using assms by (auto simp: Cut_def split: if_splits)
  from mem have ne: "dropWhile (\<lambda>c. c \<noteq> sep) s \<noteq> []"
    by (simp add: dropWhile_eq_Nil_conv)
  then have "hd (dropWhile (\<lambda>c. c \<noteq> sep) s) = sep"
    using hd_dropWhile [OF ne] by simp
  with ne q have "dropWhile (\<lambda>c. c \<noteq> sep) s = sep # q"
    by (cases "dropWhile (\<lambda>c. c \<noteq> sep) s") auto
  then show "s = p @ sep # q"
    using takeWhile_dropWhile_id [of "\<lambda>c. c \<noteq> sep" s] p by simp
  show "sep \<notin> set p"
    using p by (auto dest: set_takeWhileD)
qed

lemma Split_nonempty [simp]: "Split s sep \<noteq> []"
  by (induction s) (auto split: list.splits)

lemma Split_no_sep: "p \<in> set (Split s sep) \<Longrightarrow> sep \<notin> set p"
  by (induction s arbitrary: p) (auto split: list.splits if_splits)

lemma Split_single: "sep \<notin> set s \<Longrightarrow> Split s sep = [s]"
  by (induction s) auto

lemma Split_append: "sep \<notin> set p \<Longrightarrow> Split (p @ sep # s) sep = p # Split s sep"
  by (induction p) auto

section \<open>64-bit integers\<close>

definition MaxInt64 :: int where
  "MaxInt64 = 9223372036854775807"

definition MinInt64 :: int where
  "MinInt64 = - 9223372036854775808"

definition int64 :: "int \<Rightarrow> bool" where
  "int64 x \<longleftrightarrow> MinInt64 \<le> x \<and> x \<le> MaxInt64"

text \<open>The value an \<open>int64\<close> operation leaves when its exact result is \<open>x\<close>.\<close>

definition wrap64 :: "int \<Rightarrow> int" where
  "wrap64 x = (x - MinInt64) mod 2 ^ 64 + MinInt64"

lemma wrap64_id: "int64 x \<Longrightarrow> wrap64 x = x"
  by (simp add: wrap64_def int64_def MinInt64_def MaxInt64_def)

lemma int64_wrap64 [simp]: "int64 (wrap64 x)"
proof -
  have "0 \<le> (x - MinInt64) mod 2 ^ 64" and "(x - MinInt64) mod 2 ^ 64 < 2 ^ 64"
    by simp_all
  then show ?thesis by (simp add: wrap64_def int64_def MinInt64_def MaxInt64_def)
qed

lemma wrap64_diff_nonneg: "0 \<le> a \<Longrightarrow> 0 \<le> b \<Longrightarrow> int64 a \<Longrightarrow> int64 b \<Longrightarrow> wrap64 (a - b) = a - b"
  by (rule wrap64_id) (simp add: int64_def MinInt64_def MaxInt64_def)

section \<open>Decimal numbers\<close>

definition digit :: "nat \<Rightarrow> char" where
  "digit n = char_of (48 + n)"

definition isDigit :: "char \<Rightarrow> bool" where
  "isDigit c \<longleftrightarrow> 48 \<le> byteval c \<and> byteval c \<le> 57"

definition digitVal :: "char \<Rightarrow> nat" where
  "digitVal c = byteval c - 48"

fun showNat :: "nat \<Rightarrow> string" where
  "showNat n = (if n < 10 then [digit n] else showNat (n div 10) @ [digit (n mod 10)])"

declare showNat.simps [simp del]

definition showInt :: "int \<Rightarrow> string" where
  "showInt i = (if i < 0 then CHR ''-'' # showNat (nat (- i)) else showNat (nat i))"

definition digitsVal :: "string \<Rightarrow> nat" where
  "digitsVal s = foldl (\<lambda>n c. 10 * n + digitVal c) 0 s"

text \<open>\<open>strconv.ParseUint(s, 10, bits)\<close> and \<open>strconv.ParseInt(s, 10, 64)\<close>.\<close>

definition ParseUint :: "string \<Rightarrow> nat \<Rightarrow> nat option" where
  "ParseUint s bits =
     (if s \<noteq> [] \<and> list_all isDigit s \<and> digitsVal s < 2 ^ bits then Some (digitsVal s) else None)"

definition ParseInt :: "string \<Rightarrow> int option" where
  "ParseInt s =
     (let neg = (s \<noteq> [] \<and> hd s = CHR ''-'');
          body = (if s \<noteq> [] \<and> (hd s = CHR ''-'' \<or> hd s = CHR ''+'') then tl s else s);
          n = int (digitsVal body)
      in if body = [] \<or> \<not> list_all isDigit body then None
         else if neg then (if n \<le> 9223372036854775808 then Some (- n) else None)
         else if n \<le> 9223372036854775807 then Some n else None)"

lemma byteval_digit: "n < 10 \<Longrightarrow> byteval (digit n) = 48 + n"
  by (simp add: digit_def)

lemma isDigit_digit [simp]: "n < 10 \<Longrightarrow> isDigit (digit n)"
  by (simp add: isDigit_def byteval_digit)

lemma digitVal_digit [simp]: "n < 10 \<Longrightarrow> digitVal (digit n) = n"
  by (simp add: digitVal_def byteval_digit)

lemma showNat_digits: "list_all isDigit (showNat n)"
  by (induction n rule: showNat.induct) (subst showNat.simps, simp)

lemma showNat_nonempty [simp]: "showNat n \<noteq> []"
  by (subst showNat.simps) simp

lemma digitsVal_showNat [simp]: "digitsVal (showNat n) = n"
proof (induction n rule: showNat.induct)
  case (1 n)
  then show ?case
    by (subst showNat.simps) (auto simp: digitsVal_def)
qed

lemma isDigit_not_sign: "isDigit c \<Longrightarrow> c \<noteq> CHR ''-'' \<and> c \<noteq> CHR ''+'' \<and> c \<noteq> CHR ''='' \<and> c \<noteq> CHR 0x0A \<and> c \<noteq> CHR '':''"
  by (auto simp: isDigit_def byteval_def)

lemma hd_showNat: "isDigit (hd (showNat n))"
  using showNat_digits [of n] by (cases "showNat n") simp_all

lemma ParseInt_showInt: "int64 i \<Longrightarrow> ParseInt (showInt i) = Some i"
  using isDigit_not_sign [OF hd_showNat, of "nat i"] showNat_digits [of "nat i"] showNat_digits [of "nat (- i)"]
  by (auto simp: ParseInt_def showInt_def Let_def int64_def MinInt64_def MaxInt64_def)

section \<open>Maps\<close>

type_synonym ('k, 'v) gomap = "('k \<times> 'v) list"

definition del :: "('k, 'v) gomap \<Rightarrow> 'k \<Rightarrow> ('k, 'v) gomap" where
  "del m k = filter (\<lambda>e. fst e \<noteq> k) m"

definition put :: "('k, 'v) gomap \<Rightarrow> 'k \<Rightarrow> 'v \<Rightarrow> ('k, 'v) gomap" where
  "put m k v = (k, v) # del m k"

definition wfm :: "('k, 'v) gomap \<Rightarrow> bool" where
  "wfm m \<longleftrightarrow> distinct (map fst m)"

text \<open>Deleting, inside a \<open>range\<close> loop, every entry that fails a test.\<close>

definition keep :: "('k \<Rightarrow> 'v \<Rightarrow> bool) \<Rightarrow> ('k, 'v) gomap \<Rightarrow> ('k, 'v) gomap" where
  "keep P m = filter (\<lambda>(k, v). P k v) m"

lemma map_of_del [simp, gomap_simps]: "map_of (del m k) = (map_of m)(k := None)"
  by (rule ext) (induction m, auto simp: del_def)

lemma map_of_put [simp, gomap_simps]: "map_of (put m k v) = (map_of m)(k \<mapsto> v)"
  by (simp add: put_def)

lemma wfm_Nil [simp]: "wfm []"
  by (simp add: wfm_def)

lemma fst_set_del: "set (map fst (del m k)) = set (map fst m) - {k}"
  by (auto simp: del_def)

lemma wfm_del [simp]: "wfm m \<Longrightarrow> wfm (del m k)"
  by (induction m) (auto simp: wfm_def del_def)

lemma wfm_put [simp]: "wfm m \<Longrightarrow> wfm (put m k v)"
  using wfm_del [of m k] fst_set_del [of m k] by (auto simp: wfm_def put_def)

lemma wfm_keep [simp]: "wfm m \<Longrightarrow> wfm (keep P m)"
  by (induction m) (auto simp: wfm_def keep_def)

lemma wfm_map_of: "wfm m \<Longrightarrow> (k, v) \<in> set m \<longleftrightarrow> map_of m k = Some v"
  by (simp add: wfm_def)

lemma map_of_keep [gomap_simps]:
  "wfm m \<Longrightarrow> map_of (keep P m) k = (case map_of m k of None \<Rightarrow> None | Some v \<Rightarrow> if P k v then Some v else None)"
  by (induction m) (auto simp: wfm_def keep_def map_of_eq_None_iff rev_image_eqI split: option.splits)

lemma list_all_wfm: "wfm m \<Longrightarrow> list_all (\<lambda>(k, v). P k v) m \<longleftrightarrow> (\<forall>k v. map_of m k = Some v \<longrightarrow> P k v)"
  by (auto simp: list_all_iff wfm_map_of)

lemma wfm_foldl_put: "wfm m \<Longrightarrow> wfm (foldl (\<lambda>m (k, v). put m (f k) (g v)) m xs)"
  by (induction xs arbitrary: m) auto

lemma map_of_foldl_put_other:
  "x \<notin> f ` fst ` set xs \<Longrightarrow> map_of (foldl (\<lambda>m (k, v). put m (f k) (g v)) m xs) x = map_of m x"
  by (induction xs arbitrary: m) auto

text \<open>Copying a map entry by entry, as a \<open>range\<close> loop does, with the keys renamed injectively.\<close>

lemma map_of_foldl_put:
  assumes "wfm xs" and "inj_on f (fst ` set xs)" and "k \<in> fst ` set xs"
  shows "map_of (foldl (\<lambda>m (k, v). put m (f k) (g v)) m xs) (f k) = map_option g (map_of xs k)"
  using assms
proof (induction xs arbitrary: m)
  case (Cons e xs)
  obtain k0 v0 where e: "e = (k0, v0)" by (cases e)
  from Cons.prems have k0: "k0 \<notin> fst ` set xs" and wf: "wfm xs" and inj: "inj_on f (fst ` set xs)"
    by (auto simp: wfm_def e)
  show ?case
  proof (cases "k = k0")
    case True
    have "f k0 \<notin> f ` fst ` set xs"
      using Cons.prems(2) k0 by (auto simp: e inj_on_def)
    then show ?thesis using True by (simp add: e map_of_foldl_put_other)
  next
    case False
    with Cons.prems(3) have "k \<in> fst ` set xs" by (simp add: e)
    with False show ?thesis by (simp add: e Cons.IH [OF wf inj])
  qed
qed simp

lemma map_of_foldl_put_id:
  assumes "wfm xs"
  shows "map_of (foldl (\<lambda>m (k, v). put m k (g v)) [] xs) k = map_option g (map_of xs k)"
proof (cases "k \<in> fst ` set xs")
  case True
  with assms show ?thesis using map_of_foldl_put [of xs "\<lambda>k. k" k g "[]"] by simp
next
  case False
  then have "map_of xs k = None" by (simp add: map_of_eq_None_iff)
  with False show ?thesis using map_of_foldl_put_other [of k "\<lambda>k. k" xs g "[]"] by simp
qed

section \<open>Reachable states\<close>

inductive reach :: "('s \<Rightarrow> bool) \<Rightarrow> ('s \<Rightarrow> 's \<Rightarrow> bool) \<Rightarrow> 's \<Rightarrow> bool"
  for start :: "'s \<Rightarrow> bool" and step :: "'s \<Rightarrow> 's \<Rightarrow> bool" where
  reach_start: "start s \<Longrightarrow> reach start step s"
| reach_step: "reach start step s \<Longrightarrow> step s t \<Longrightarrow> reach start step t"

text \<open>A system whose steps are steps of another one, or leave the state as it is, reaches no more.\<close>

lemma reach_simulation:
  assumes "reach start step s" and "\<And>s. start s \<Longrightarrow> start' s" and "\<And>s t. step s t \<Longrightarrow> t = s \<or> step' s t"
  shows "reach start' step' s"
  using assms(1) by (induction rule: reach.induct) (use assms(2,3) in \<open>auto intro: reach_start reach_step\<close>)

locale invariant_system =
  fixes start :: "'s \<Rightarrow> bool"
    and step :: "'s \<Rightarrow> 's \<Rightarrow> bool"
    and inv :: "'s \<Rightarrow> bool"
  assumes start_inv: "start s \<Longrightarrow> inv s"
    and step_inv: "inv s \<Longrightarrow> step s t \<Longrightarrow> inv t"
begin

lemma reach_inv: "reach start step s \<Longrightarrow> inv s"
  by (induction rule: reach.induct) (auto intro: start_inv step_inv)

end

end
