(* ===== verification/Address.thy ===== *)
theory Address
  imports Prelude "HOL-Library.Word"
begin

text \<open>
  \<open>internal/ip.go\<close>: the WireGuard address of a key, the DNS label that encodes an address and
  a port, and the extraction of that label from a host name.

  The hash is a parameter (\<open>sha256\<close>). Base32 is defined on bits: Go's standard encoding with
  its padding switched off, a quantum of five bytes to eight letters. The decoder keeps what
  Go's decoder does with a last quantum of 1, 3 or 6 letters: it yields no byte and no error.
\<close>

section \<open>Base32 without padding\<close>

definition alphabet :: string where
  "alphabet = ''ABCDEFGHIJKLMNOPQRSTUVWXYZ234567''"

definition val5 :: "bool \<Rightarrow> bool \<Rightarrow> bool \<Rightarrow> bool \<Rightarrow> bool \<Rightarrow> nat" where
  "val5 a b c d e = 16 * of_bool a + 8 * of_bool b + 4 * of_bool c + 2 * of_bool d + of_bool e"

definition bits5 :: "nat \<Rightarrow> bool list" where
  "bits5 n = [odd (n div 16), odd (n div 8), odd (n div 4), odd (n div 2), odd n]"

fun bits8 :: "char \<Rightarrow> bool list" where
  "bits8 (Char b0 b1 b2 b3 b4 b5 b6 b7) = [b7, b6, b5, b4, b3, b2, b1, b0]"

fun byte8 :: "bool list \<Rightarrow> char" where
  "byte8 [b7, b6, b5, b4, b3, b2, b1, b0] = Char b0 b1 b2 b3 b4 b5 b6 b7"
| "byte8 _ = CHR 0x00"

text \<open>The 5-bit groups of a bit string, the last one filled up with zeros.\<close>

fun digits :: "bool list \<Rightarrow> nat list" where
  "digits (a # b # c # d # e # r) = val5 a b c d e # digits r"
| "digits [a, b, c, d] = [val5 a b c d False]"
| "digits [a, b, c] = [val5 a b c False False]"
| "digits [a, b] = [val5 a b False False False]"
| "digits [a] = [val5 a False False False False]"
| "digits [] = []"

definition base32Encode :: "string \<Rightarrow> string" where
  "base32Encode src = map (\<lambda>n. alphabet ! n) (digits (concat (map bits8 src)))"

definition decodeChar :: "char \<Rightarrow> nat option" where
  "decodeChar c =
     (if 65 \<le> byteval c \<and> byteval c \<le> 90 then Some (byteval c - 65)
      else if 50 \<le> byteval c \<and> byteval c \<le> 55 then Some (byteval c - 24)
      else None)"

text \<open>The number of bytes a quantum of \<open>n\<close> letters yields.\<close>

definition quantumBytes :: "nat \<Rightarrow> nat" where
  "quantumBytes n = (if n = 8 then 5 else if n = 7 then 4 else if n = 5 then 3
                     else if n = 4 then 2 else if n = 2 then 1 else 0)"

fun bytesOf :: "nat \<Rightarrow> bool list \<Rightarrow> string" where
  "bytesOf 0 bs = []"
| "bytesOf (Suc n) bs = byte8 (take 8 bs) # bytesOf n (drop 8 bs)"

definition decodeQuantum :: "nat list \<Rightarrow> string" where
  "decodeQuantum ds = bytesOf (quantumBytes (length ds)) (concat (map bits5 ds))"

fun decodeQuanta :: "nat list \<Rightarrow> string" where
  "decodeQuanta (a # b # c # d # e # f # g # h # r) =
     decodeQuantum [a, b, c, d, e, f, g, h] @ decodeQuanta r"
| "decodeQuanta ds = decodeQuantum ds"

definition base32Decode :: "string \<Rightarrow> string option" where
  "base32Decode s =
     map_option decodeQuanta
       (those (map decodeChar (filter (\<lambda>c. c \<noteq> CHR 0x0A \<and> c \<noteq> CHR 0x0D) s)))"

section \<open>Addresses\<close>

type_synonym wgKey = string

text \<open>\<open>netip.Addr\<close>: the zero value, or the 4 or 16 bytes of an address.\<close>

datatype netipAddr = ZeroAddr | IPv4 string | IPv6 string

record AddrPort =
  Addr :: netipAddr
  Port :: "16 word"

definition AddrFromSlice :: "string \<Rightarrow> netipAddr \<times> bool" where
  "AddrFromSlice s =
     (if length s = 4 then (IPv4 s, True)
      else if length s = 16 then (IPv6 s, True) else (ZeroAddr, False))"

definition ipv6Subnet :: string where
  "ipv6Subnet = [CHR 0xFD, CHR 0xB0, CHR 0x01, CHR 0xAD, CHR 0x4D, CHR 0x05, CHR 0x81, CHR 0x42]"

definition GetIPForKey :: "(string \<Rightarrow> string) \<Rightarrow> wgKey \<Rightarrow> netipAddr" where
  "GetIPForKey sha256 pub =
     (let (ip, ok) = AddrFromSlice (ipv6Subnet @ take 8 (sha256 pub))
      in if ok then ip else ZeroAddr)"

definition AppendUint16 :: "string \<Rightarrow> 16 word \<Rightarrow> string" where
  "AppendUint16 bs p = bs @ [char_of (unat p mod 256), char_of (unat p div 256)]"

definition Uint16 :: "string \<Rightarrow> 16 word" where
  "Uint16 bs = word_of_nat (byteval (bs ! 0) + 256 * byteval (bs ! 1))"

definition GetEncodedIPPort :: "unicode \<Rightarrow> AddrPort \<Rightarrow> string" where
  "GetEncodedIPPort U a =
     (case Addr a of
        IPv6 bs \<Rightarrow> ToLower U (base32Encode (AppendUint16 (drop 8 bs) (Port a)))
      | _ \<Rightarrow> [])"

definition LookupEncodedIPPort :: "unicode \<Rightarrow> string \<Rightarrow> AddrPort option" where
  "LookupEncodedIPPort U sni =
     (case base32Decode (ToUpper U sni) of
        None \<Rightarrow> None
      | Some decoded \<Rightarrow>
          if length decoded > 10 \<or> length decoded = 0 then None
          else
            let padded = replicate (10 - length decoded) (CHR 0x00) @ decoded;
                (ip, ok) = AddrFromSlice (ipv6Subnet @ take 8 padded)
            in if \<not> ok then None
               else Some \<lparr>Addr = ip, Port = Uint16 (drop 8 padded)\<rparr>)"

definition ExtractEncodedLabel :: "unicode \<Rightarrow> string \<Rightarrow> string \<Rightarrow> string \<times> bool" where
  "ExtractEncodedLabel U host apiDomain =
     (let host = ToLower U (TrimSuffix host ''.'');
          (label, matched) = CutSuffix host (''.'' @ ToLower U apiDomain)
      in if \<not> matched \<or> label = [] \<or> CHR ''.'' \<in> set label then ([], False)
         else (label, True))"

section \<open>The codec\<close>

lemma bits5_val5 [simp]: "bits5 (val5 a b c d e) = [a, b, c, d, e]"
  by (cases a; cases b; cases c; cases d; cases e) (simp_all add: bits5_def val5_def)

lemma val5_less [simp]: "val5 a b c d e < 32"
  by (cases a; cases b; cases c; cases d; cases e) (simp_all add: val5_def)

lemma length_alphabet [simp]: "length alphabet = 32"
  by (simp add: alphabet_def)

lemma alphabet_sweep: "\<forall>n<32. decodeChar (alphabet ! n) = Some n \<and> upperByte (alphabet ! n) = alphabet ! n
    \<and> byteval (alphabet ! n) < 128 \<and> alphabet ! n \<noteq> CHR 0x0A \<and> alphabet ! n \<noteq> CHR 0x0D \<and> alphabet ! n \<noteq> CHR ''.''"
proof (intro allI impI)
  fix n :: nat assume n: "n < 32"
  have "map decodeChar alphabet = map Some [0..<32]" by code_simp
  from arg_cong [OF this, of "\<lambda>xs. xs ! n"] have "decodeChar (alphabet ! n) = Some n" using n by simp
  moreover have "list_all (\<lambda>c. upperByte c = c \<and> byteval c < 128 \<and> c \<noteq> CHR 0x0A \<and> c \<noteq> CHR 0x0D \<and> c \<noteq> CHR ''.'') alphabet"
    by code_simp
  ultimately show "decodeChar (alphabet ! n) = Some n \<and> upperByte (alphabet ! n) = alphabet ! n
    \<and> byteval (alphabet ! n) < 128 \<and> alphabet ! n \<noteq> CHR 0x0A \<and> alphabet ! n \<noteq> CHR 0x0D \<and> alphabet ! n \<noteq> CHR ''.''"
    using n by (simp add: list_all_length)
qed

lemma digits_less: "n \<in> set (digits bs) \<Longrightarrow> n < 32"
  by (induction bs rule: digits.induct) auto

lemma those_decode: "\<forall>n\<in>set ds. n < 32 \<Longrightarrow> those (map (\<lambda>n. decodeChar (alphabet ! n)) ds) = Some ds"
  by (induction ds) (simp_all add: alphabet_sweep)

lemma letter_facts:
  assumes "c \<in> set (base32Encode src)"
  shows "upperByte c = c" and "byteval c < 128" and "c \<noteq> CHR 0x0A" and "c \<noteq> CHR 0x0D"
    and "c \<noteq> CHR ''.''"
  using assms alphabet_sweep by (auto simp: base32Encode_def dest!: digits_less)

lemma base32Decode_encode:
  "base32Decode (base32Encode src) = Some (decodeQuanta (digits (concat (map bits8 src))))"
proof -
  have "filter (\<lambda>c. c \<noteq> CHR 0x0A \<and> c \<noteq> CHR 0x0D) (base32Encode src) = base32Encode src"
    using letter_facts(3,4) by (simp add: filter_id_conv)
  moreover have "those (map decodeChar (base32Encode src)) = Some (digits (concat (map bits8 src)))"
    using those_decode [of "digits (concat (map bits8 src))"] digits_less
    by (simp add: base32Encode_def o_def)
  ultimately show ?thesis by (simp add: base32Decode_def)
qed

lemma bits8_exhaust: "\<exists>b7 b6 b5 b4 b3 b2 b1 b0. bits8 c = [b7, b6, b5, b4, b3, b2, b1, b0] \<and> c = Char b0 b1 b2 b3 b4 b5 b6 b7"
  by (cases c) auto

lemmas quantum_simps = decodeQuantum_def quantumBytes_def eval_nat_numeral

lemma decodeQuanta_five:
  "decodeQuanta (digits (bits8 a @ bits8 b @ bits8 c @ bits8 d @ bits8 e @ r)) = [a, b, c, d, e] @ decodeQuanta (digits r)"
  by (cases a; cases b; cases c; cases d; cases e) (simp add: quantum_simps)

lemma decodeQuanta_short:
  "decodeQuanta (digits (bits8 a)) = [a]"
  "decodeQuanta (digits (bits8 a @ bits8 b)) = [a, b]"
  "decodeQuanta (digits (bits8 a @ bits8 b @ bits8 c)) = [a, b, c]"
  "decodeQuanta (digits (bits8 a @ bits8 b @ bits8 c @ bits8 d)) = [a, b, c, d]"
  by (cases a; cases b; cases c; cases d; simp add: quantum_simps)+

text \<open>Induction on byte strings in steps of one quantum.\<close>

lemma quantum_induct [case_names zero one two three four five]:
  assumes "P []" and "\<And>a. P [a]" and "\<And>a b. P [a, b]" and "\<And>a b c. P [a, b, c]"
    and "\<And>a b c d. P [a, b, c, d]" and "\<And>a b c d e r. P r \<Longrightarrow> P (a # b # c # d # e # r)"
  shows "P (src :: 'a list)"
proof (induction src rule: length_induct)
  case (1 src)
  consider "src = []" | a where "src = [a]" | a b where "src = [a, b]" | a b c where "src = [a, b, c]"
    | a b c d where "src = [a, b, c, d]" | a b c d e r where "src = a # b # c # d # e # r"
    by (metis list.exhaust)
  then show ?case using assms 1 by cases auto
qed

lemma decodeQuanta_digits: "decodeQuanta (digits (concat (map bits8 src))) = src"
  by (induction src rule: quantum_induct)
    (simp_all add: decodeQuanta_five decodeQuanta_short decodeQuantum_def quantumBytes_def)

theorem base32_roundtrip: "base32Decode (base32Encode src) = Some src"
  by (simp add: base32Decode_encode decodeQuanta_digits)

section \<open>Encoded addresses\<close>

text \<open>The addresses the tunnel hands out: IPv6 addresses of the WireGuard subnet.\<close>

definition inSubnet :: "netipAddr \<Rightarrow> bool" where
  "inSubnet ip \<longleftrightarrow> (case ip of IPv6 bs \<Rightarrow> length bs = 16 \<and> take 8 bs = ipv6Subnet | _ \<Rightarrow> False)"

definition wgAddr :: "AddrPort \<Rightarrow> bool" where
  "wgAddr a \<longleftrightarrow> inSubnet (Addr a)"

lemma length_ipv6Subnet [simp]: "length ipv6Subnet = 8"
  by (simp add: ipv6Subnet_def)

lemma inSubnet_iff: "inSubnet ip \<longleftrightarrow> (\<exists>h. length h = 8 \<and> ip = IPv6 (ipv6Subnet @ h))"
proof
  assume "inSubnet ip"
  then obtain bs where bs: "ip = IPv6 bs" "length bs = 16" "take 8 bs = ipv6Subnet"
    by (auto simp: inSubnet_def split: netipAddr.splits)
  then have "bs = ipv6Subnet @ drop 8 bs" by (metis append_take_drop_id)
  with bs show "\<exists>h. length h = 8 \<and> ip = IPv6 (ipv6Subnet @ h)"
    by (intro exI [of _ "drop 8 bs"]) simp
qed (auto simp: inSubnet_def)

lemma Uint16_AppendUint16 [simp]: "length bs = 8 \<Longrightarrow> Uint16 (drop 8 (AppendUint16 bs p)) = p"
proof -
  have "unat p < 2 ^ LENGTH(16)" by (rule unsigned_less)
  then have "unat p div 256 < 256" by (simp add: less_mult_imp_div_less)
  then have "unat p mod 256 + 256 * (unat p div 256 mod 256) = unat p" by simp
  then show "length bs = 8 \<Longrightarrow> Uint16 (drop 8 (AppendUint16 bs p)) = p"
    by (simp add: Uint16_def AppendUint16_def)
qed

lemma length_AppendUint16 [simp]: "length (AppendUint16 bs p) = length bs + 2"
  by (simp add: AppendUint16_def)

lemma take_AppendUint16 [simp]: "length bs = n \<Longrightarrow> take n (AppendUint16 bs p) = bs"
  by (simp add: AppendUint16_def)

lemma ascii_base32 [simp]: "ascii (base32Encode src)"
  using letter_facts(2) by (auto simp: ascii_def list_all_iff)

lemma ToUpper_base32: "ToUpper U (map lowerByte (base32Encode src)) = base32Encode src"
proof -
  have "map (\<lambda>c. upperByte (lowerByte c)) (base32Encode src) = base32Encode src"
    using letter_facts(1) by (intro map_idI) (simp add: upper_lowerByte)
  then show ?thesis by (simp add: ToUpper_def o_def)
qed

lemma GetEncodedIPPort_wgAddr:
  "Addr a = IPv6 (ipv6Subnet @ h) \<Longrightarrow>
   GetEncodedIPPort U a = map lowerByte (base32Encode (AppendUint16 h (Port a)))"
  by (simp add: GetEncodedIPPort_def ToLower_def)

lemma Lookup_GetEncoded:
  assumes "wgAddr a"
  shows "LookupEncodedIPPort U (GetEncodedIPPort U a) = Some a"
proof -
  from assms obtain h where h: "length h = 8" "Addr a = IPv6 (ipv6Subnet @ h)"
    by (auto simp: wgAddr_def inSubnet_iff)
  have "base32Decode (ToUpper U (GetEncodedIPPort U a)) = Some (AppendUint16 h (Port a))"
    by (simp add: GetEncodedIPPort_wgAddr [OF h(2)] ToUpper_base32 base32_roundtrip)
  then show ?thesis
    using h by (simp add: LookupEncodedIPPort_def AddrFromSlice_def)
qed

lemma base32_lower_no_dot: "CHR ''.'' \<notin> set (map lowerByte (base32Encode src))"
  by (auto simp: lowerByte_dot_iff dest: letter_facts(5))

lemma Lookup_inSubnet: "LookupEncodedIPPort U sni = Some a \<Longrightarrow> wgAddr a"
  by (auto simp: LookupEncodedIPPort_def AddrFromSlice_def wgAddr_def inSubnet_def
      split: option.splits if_splits)

section \<open>The contract of a label codec\<close>

text \<open>
  What the dispatcher and the certificate policy rely on: decoding undoes encoding, and an
  encoded value is one lower-case ASCII label, so that it survives the case folding and the
  split at the first dot.
\<close>

locale label_codec =
  fixes encode :: "'a \<Rightarrow> string" and decode :: "string \<Rightarrow> 'a option" and valid :: "'a \<Rightarrow> bool"
  assumes decode_encode: "valid a \<Longrightarrow> decode (encode a) = Some a"
    and encode_nonempty: "valid a \<Longrightarrow> encode a \<noteq> []"
    and encode_no_dot: "valid a \<Longrightarrow> CHR ''.'' \<notin> set (encode a)"
    and decode_valid: "decode s = Some a \<Longrightarrow> valid a"
begin

lemma encode_inject: "valid a \<Longrightarrow> valid b \<Longrightarrow> encode a = encode b \<longleftrightarrow> a = b"
  by (metis decode_encode option.inject)

lemma extract_encode:
  assumes "valid a" and "ToLower U (TrimSuffix host ''.'') = encode a @ ''.'' @ ToLower U api"
  shows "ExtractEncodedLabel U host api = (encode a, True)"
  using assms encode_nonempty [OF assms(1)] encode_no_dot [OF assms(1)]
    CutSuffix_append [of "encode a" "''.'' @ ToLower U api"]
  by (simp add: ExtractEncodedLabel_def)

end

interpretation wg_label: label_codec "GetEncodedIPPort U" "LookupEncodedIPPort U" wgAddr for U
proof
  fix a :: AddrPort
  assume a: "wgAddr a"
  then obtain h where h: "length h = 8" "Addr a = IPv6 (ipv6Subnet @ h)"
    by (auto simp: wgAddr_def inSubnet_iff)
  show "LookupEncodedIPPort U (GetEncodedIPPort U a) = Some a"
    using a by (rule Lookup_GetEncoded)
  then show "GetEncodedIPPort U a \<noteq> []"
    by (auto simp: LookupEncodedIPPort_def base32Decode_def ToUpper_def ascii_def
        decodeQuantum_def quantumBytes_def)
  show "CHR ''.'' \<notin> set (GetEncodedIPPort U a)"
    using base32_lower_no_dot by (simp add: GetEncodedIPPort_wgAddr [OF h(2)])
qed (rule Lookup_inSubnet)

end
