(* ===== verification/GoTime.thy ===== *)
theory GoTime
  imports Prelude
begin

text \<open>
  Go's \<open>time\<close> package as far as the access controller uses it.

  A \<open>time.Time\<close> is the number of nanoseconds since January 1, year 1, 00:00:00 UTC, so the zero
  value is \<open>0\<close> and \<open>t.IsZero()\<close> is \<open>t = 0\<close>; a \<open>time.Duration\<close> is a number of nanoseconds.
  \<open>Sub\<close> saturates at the bounds of \<open>int64\<close> as Go's does. A location is its lookup function:
  from a Unix time to the offset in force and the interval in which it is.
  Calendar dates are computed by counting years and months down from a 400-year cycle.
\<close>

type_synonym time = int
type_synonym duration = int

abbreviation (input) second :: duration where "second \<equiv> 1000000000"
abbreviation (input) minute :: duration where "minute \<equiv> 60000000000"
abbreviation (input) hour :: duration where "hour \<equiv> 3600000000000"

definition IsZero :: "time \<Rightarrow> bool" where
  "IsZero t \<longleftrightarrow> t = 0"

definition Sub :: "time \<Rightarrow> time \<Rightarrow> duration" where
  "Sub t u = max MinInt64 (min MaxInt64 (t - u))"

definition Before :: "time \<Rightarrow> time \<Rightarrow> bool" where
  "Before t u \<longleftrightarrow> t < u"

text \<open>Seconds from year 1 to the Unix epoch, and the two conversions.\<close>

definition unixToInternal :: int where
  "unixToInternal = 62135596800"

definition Unix :: "int \<Rightarrow> int \<Rightarrow> time" where
  "Unix sec nsec = (sec + unixToInternal) * second + nsec"

definition unixSec :: "time \<Rightarrow> int" where
  "unixSec t = t div second - unixToInternal"

definition Nanosecond :: "time \<Rightarrow> int" where
  "Nanosecond t = t mod second"

section \<open>The calendar\<close>

definition isLeap :: "int \<Rightarrow> bool" where
  "isLeap y \<longleftrightarrow> y mod 4 = 0 \<and> (y mod 100 \<noteq> 0 \<or> y mod 400 = 0)"

definition ylen :: "int \<Rightarrow> nat" where
  "ylen y = (if isLeap y then 366 else 365)"

definition daysIn :: "int \<Rightarrow> nat \<Rightarrow> nat" where
  "daysIn y m = (if m = 2 then (if isLeap y then 29 else 28)
                 else if m = 4 \<or> m = 6 \<or> m = 9 \<or> m = 11 then 30 else 31)"

function yearOf :: "int \<Rightarrow> nat \<Rightarrow> int \<times> nat" where
  "yearOf y r = (if r < ylen y then (y, r) else yearOf (y + 1) (r - ylen y))"
  by pat_completeness auto
termination
  by (relation "measure snd") (auto simp: ylen_def split: if_splits)

function monthOf :: "int \<Rightarrow> nat \<Rightarrow> nat \<Rightarrow> nat \<times> nat" where
  "monthOf y m r = (if 12 \<le> m \<or> r < daysIn y m then (m, r) else monthOf y (m + 1) (r - daysIn y m))"
  by pat_completeness auto
termination
  by (relation "measure (\<lambda>(y, m, r). 12 - m)") auto

declare yearOf.simps [simp del] monthOf.simps [simp del]

text \<open>The year, month and day of a day number (day 0 is January 1, year 1).\<close>

definition civil :: "int \<Rightarrow> int \<times> nat \<times> nat" where
  "civil n =
     (let (y, r) = yearOf (1 + 400 * (n div 146097)) (nat (n mod 146097));
          (m, d) = monthOf y 1 r
      in (y, m, d + 1))"

definition daysBeforeYear :: "int \<Rightarrow> int" where
  "daysBeforeYear y = 365 * (y - 1) + (y - 1) div 4 - (y - 1) div 100 + (y - 1) div 400"

definition daysBeforeMonth :: "int \<Rightarrow> nat \<Rightarrow> nat" where
  "daysBeforeMonth y m = sum_list (map (daysIn y) [1..<m])"

definition dayNumber :: "int \<Rightarrow> nat \<Rightarrow> int \<Rightarrow> int" where
  "dayNumber y m d = daysBeforeYear y + int (daysBeforeMonth y m) + d - 1"

lemma div_pred:
  assumes "0 < k"
  shows "(y :: int) div k = (y - 1) div k + (if y mod k = 0 then 1 else 0)"
proof (cases "y mod k = 0")
  case True
  have "(y - 1) div k = y div k - 1"
  proof (rule int_div_pos_eq)
    show "y - 1 = k * (y div k - 1) + (k - 1)"
      using True mult_div_mod_eq [of k y] by (simp add: algebra_simps)
  qed (use assms in auto)
  with True show ?thesis by simp
next
  case False
  have "(y - 1) div k = y div k"
  proof (rule int_div_pos_eq)
    show "y - 1 = k * (y div k) + (y mod k - 1)"
      using mult_div_mod_eq [of k y] by (simp add: algebra_simps)
    show "0 \<le> y mod k - 1" "y mod k - 1 < k"
      using False assms pos_mod_sign [of k y] pos_mod_bound [of k y] by linarith+
  qed
  with False show ?thesis by simp
qed

lemma leap_days:
  fixes a b c y :: int
  assumes "q \<Longrightarrow> p" and "r \<Longrightarrow> q"
  shows "365 * y + (a + (if p then 1 else 0)) - (b + (if q then 1 else 0)) + (c + (if r then 1 else 0))
       = 365 * (y - 1) + a - b + c + int (if p \<and> (\<not> q \<or> r) then 366 else 365)"
  using assms by (cases p; cases q; cases r) auto

lemma daysBeforeYear_Suc: "daysBeforeYear (y + 1) = daysBeforeYear y + int (ylen y)"
proof -
  have "y mod 100 = 0 \<Longrightarrow> y mod 4 = 0" and "y mod 400 = 0 \<Longrightarrow> y mod 100 = 0"
    using dvd_trans [of 4 100 y] dvd_trans [of 100 400 y]
    by (simp_all only: mod_eq_0_iff_dvd) simp_all
  note leap = leap_days [OF this]
  have d: "y div 4 = (y - 1) div 4 + (if y mod 4 = 0 then 1 else 0)"
    "y div 100 = (y - 1) div 100 + (if y mod 100 = 0 then 1 else 0)"
    "y div 400 = (y - 1) div 400 + (if y mod 400 = 0 then 1 else 0)"
    by (rule div_pred, simp)+
  have "daysBeforeYear (y + 1) = 365 * y + y div 4 - y div 100 + y div 400"
    by (simp only: daysBeforeYear_def add_diff_cancel_right')
  also have "\<dots> = 365 * (y - 1) + (y - 1) div 4 - (y - 1) div 100 + (y - 1) div 400 + int (ylen y)"
    by (simp only: d leap ylen_def isLeap_def)
  finally show ?thesis
    by (simp only: daysBeforeYear_def)
qed

lemma yearOf_spec:
  "yearOf y r = (y', r') \<Longrightarrow> r' < ylen y' \<and> y \<le> y' \<and> daysBeforeYear y' + int r' = daysBeforeYear y + int r"
proof (induction y r rule: yearOf.induct)
  case (1 y r)
  show ?case
  proof (cases "r < ylen y")
    case True
    with 1 show ?thesis by (simp add: yearOf.simps [of y r])
  next
    case False
    with "1.prems" have "yearOf (y + 1) (r - ylen y) = (y', r')"
      by (simp add: yearOf.simps [of y r])
    from "1.IH" [OF False this] False show ?thesis
      by (auto simp: daysBeforeYear_Suc)
  qed
qed

lemma daysBeforeMonth_Suc: "1 \<le> m \<Longrightarrow> daysBeforeMonth y (m + 1) = daysBeforeMonth y m + daysIn y m"
  by (simp add: daysBeforeMonth_def)

lemma monthOf_spec:
  assumes "monthOf y m r = (m', r')" and "1 \<le> m" and "m \<le> 12"
    and "daysBeforeMonth y m + r < ylen y"
  shows "1 \<le> m' \<and> m' \<le> 12 \<and> r' < daysIn y m' \<and> daysBeforeMonth y m' + r' = daysBeforeMonth y m + r"
  using assms
proof (induction y m r rule: monthOf.induct)
  case (1 y m r)
  show ?case
  proof (cases "12 \<le> m \<or> r < daysIn y m")
    case True
    then have "m' = m" "r' = r" using "1.prems" by (auto simp: monthOf.simps [of y m r])
    moreover have "r < daysIn y m"
    proof (cases "r < daysIn y m")
      case False
      with True "1.prems" have "m = 12" by simp
      moreover have "daysBeforeMonth y 12 + 31 = ylen y"
        by (simp add: daysBeforeMonth_def daysIn_def ylen_def upt_rec)
      ultimately show ?thesis using "1.prems" by (simp add: daysIn_def)
    qed simp
    ultimately show ?thesis using "1.prems" by simp
  next
    case False
    then have "monthOf y (m + 1) (r - daysIn y m) = (m', r')"
      using "1.prems" by (simp add: monthOf.simps [of y m r])
    moreover have "daysBeforeMonth y (m + 1) + (r - daysIn y m) = daysBeforeMonth y m + r"
      using False "1.prems" by (simp add: daysBeforeMonth_Suc del: One_nat_def)
    ultimately show ?thesis using "1.IH" [OF False] False "1.prems" by simp
  qed
qed

text \<open>A computed date is a date of the calendar, and its day number is the one given.\<close>

lemma civil_spec:
  assumes "civil n = (y, m, d)"
  shows "1 \<le> m" and "m \<le> 12" and "1 \<le> d" and "d \<le> daysIn y m" and "dayNumber y m (int d) = n"
proof -
  obtain r where yr: "yearOf (1 + 400 * (n div 146097)) (nat (n mod 146097)) = (y, r)"
    and md: "monthOf y 1 r = (m, d - 1)" and d: "1 \<le> d"
    using assms by (auto simp: civil_def Let_def split: prod.splits)
  have base: "daysBeforeYear (1 + 400 * k) = 146097 * k" for k
    by (simp add: daysBeforeYear_def)
  from yearOf_spec [OF yr] have r: "r < ylen y" and n: "daysBeforeYear y + int r = n"
    by (auto simp: base)
  have z: "daysBeforeMonth y 1 = 0" by (simp add: daysBeforeMonth_def)
  from monthOf_spec [OF md] r z
  have *: "1 \<le> m \<and> m \<le> 12 \<and> d - 1 < daysIn y m \<and> daysBeforeMonth y m + (d - 1) = r"
    by simp
  then show "1 \<le> m" "m \<le> 12" "1 \<le> d" "d \<le> daysIn y m" using d by auto
  show "dayNumber y m (int d) = n"
    using * d n by (auto simp: dayNumber_def)
qed

section \<open>Locations, dates and their text form\<close>

type_synonym location = "int \<Rightarrow> int \<times> int \<times> int"

definition fixedZone :: "int \<Rightarrow> location" where
  "fixedZone off = (\<lambda>_. (off, MinInt64, MaxInt64))"

definition localSec :: "location \<Rightarrow> time \<Rightarrow> int" where
  "localSec loc t = t div second + fst (loc (unixSec t))"

definition localDay :: "location \<Rightarrow> time \<Rightarrow> int" where
  "localDay loc t = localSec loc t div 86400"

definition Date :: "location \<Rightarrow> int \<Rightarrow> nat \<Rightarrow> int \<Rightarrow> int \<Rightarrow> int \<Rightarrow> time" where
  "Date loc y m d sec nsec =
     (let unix = dayNumber y m d * 86400 + sec - unixToInternal;
          (offset, start, stop) = loc unix;
          utc = unix - offset;
          offset' = (if utc < start \<or> stop \<le> utc then fst (loc utc) else offset)
      in Unix (if offset \<noteq> 0 then unix - offset' else unix) nsec)"

text \<open>\<open>t.AddDate(0, 0, days)\<close>: the same wall clock reading, \<open>days\<close> days on.\<close>

definition AddDays :: "location \<Rightarrow> time \<Rightarrow> int \<Rightarrow> time" where
  "AddDays loc t days =
     (let (y, m, d) = civil (localDay loc t)
      in Date loc y m (int d + days) (localSec loc t mod 86400) (Nanosecond t))"

definition pad2 :: "nat \<Rightarrow> string" where
  "pad2 n = [digit (n div 10 mod 10), digit (n mod 10)]"

definition pad4 :: "int \<Rightarrow> string" where
  "pad4 y = (if 0 \<le> y \<and> y \<le> 9999
             then pad2 (nat y div 100) @ pad2 (nat y mod 100)
             else if y < 0 \<and> - 9999 \<le> y then CHR ''-'' # pad2 (nat (- y) div 100) @ pad2 (nat (- y) mod 100)
             else showInt y)"

definition FormatDateOnly :: "location \<Rightarrow> time \<Rightarrow> string" where
  "FormatDateOnly loc t =
     (let (y, m, d) = civil (localDay loc t)
      in pad4 y @ ''-'' @ pad2 m @ ''-'' @ pad2 d)"

text \<open>\<open>time.Parse(time.DateOnly, s)\<close> succeeds.\<close>

fun ParseDateOnly :: "string \<Rightarrow> bool" where
  "ParseDateOnly [y1, y2, y3, y4, s1, m1, m2, s2, d1, d2] =
     (list_all isDigit [y1, y2, y3, y4, m1, m2, d1, d2] \<and> s1 = CHR ''-'' \<and> s2 = CHR ''-''
      \<and> (let y = int (digitsVal [y1, y2, y3, y4]); m = digitsVal [m1, m2]; d = digitsVal [d1, d2]
         in 1 \<le> m \<and> m \<le> 12 \<and> 1 \<le> d \<and> d \<le> daysIn y m))"
| "ParseDateOnly _ = False"

text \<open>Times whose year has four digits, the range in which \<open>time.DateOnly\<close> is reversible.\<close>

definition fourDigitYear :: "location \<Rightarrow> time \<Rightarrow> bool" where
  "fourDigitYear loc t \<longleftrightarrow> (let y = fst (civil (localDay loc t)) in 0 \<le> y \<and> y \<le> 9999)"

lemma daysIn_le: "daysIn y m \<le> 31"
  by (simp add: daysIn_def)

lemma digitsVal_4: "digitsVal [a, b, c, d] = 100 * digitsVal [a, b] + digitsVal [c, d]"
  by (simp add: digitsVal_def)

text \<open>Two digits written by \<open>pad2\<close>, as they are read back.\<close>

lemma pad2_spec:
  assumes "n < 100"
  obtains a b where "pad2 n = [a, b]" and "isDigit a" and "isDigit b" and "digitsVal [a, b] = n"
proof
  have "n div 10 < 10" using assms by (simp add: less_mult_imp_div_less)
  then show "digitsVal [digit (n div 10 mod 10), digit (n mod 10)] = n"
    by (simp add: digitsVal_def)
qed (simp_all add: pad2_def)

lemma pad4_spec:
  assumes "0 \<le> y" and "y \<le> 9999"
  obtains a b c d where "pad4 y = [a, b, c, d]" and "list_all isDigit [a, b, c, d]"
    and "int (digitsVal [a, b, c, d]) = y"
proof -
  have "nat y div 100 < 100" using assms by (intro less_mult_imp_div_less) simp
  then obtain a b where ab: "pad2 (nat y div 100) = [a, b]" "isDigit a" "isDigit b"
      "digitsVal [a, b] = nat y div 100"
    by (rule pad2_spec)
  have "nat y mod 100 < 100" by simp
  then obtain c d where cd: "pad2 (nat y mod 100) = [c, d]" "isDigit c" "isDigit d"
      "digitsVal [c, d] = nat y mod 100"
    by (rule pad2_spec)
  have "100 * (nat y div 100) + nat y mod 100 = nat y" by (rule mult_div_mod_eq)
  then have "int (digitsVal [a, b, c, d]) = y"
    using assms by (simp only: digitsVal_4 ab cd int_nat_eq if_True)
  with ab cd assms show ?thesis
    by (intro that [of a b c d]) (simp_all add: pad4_def)
qed

text \<open>A formatted date is ten bytes that spell the civil date of the local day.\<close>

lemma FormatDateOnly_spec:
  assumes "fourDigitYear loc t"
  obtains y m d y1 y2 y3 y4 m1 m2 d1 d2 where
    "civil (localDay loc t) = (y, m, d)"
    and "FormatDateOnly loc t = [y1, y2, y3, y4, CHR ''-'', m1, m2, CHR ''-'', d1, d2]"
    and "list_all isDigit [y1, y2, y3, y4, m1, m2, d1, d2]"
    and "int (digitsVal [y1, y2, y3, y4]) = y" and "digitsVal [m1, m2] = m" and "digitsVal [d1, d2] = d"
proof -
  obtain y m d where c: "civil (localDay loc t) = (y, m, d)" by (metis prod_cases3)
  from assms c have y: "0 \<le> y" "y \<le> 9999" by (auto simp: fourDigitYear_def)
  have md: "m < 100" "d < 100"
    using civil_spec(2,4) [OF c] daysIn_le [of y m] by linarith+
  obtain y1 y2 y3 y4 where ys: "pad4 y = [y1, y2, y3, y4]" "list_all isDigit [y1, y2, y3, y4]"
      "int (digitsVal [y1, y2, y3, y4]) = y"
    using y by (rule pad4_spec)
  obtain m1 m2 where ms: "pad2 m = [m1, m2]" "isDigit m1" "isDigit m2" "digitsVal [m1, m2] = m"
    using md(1) by (rule pad2_spec)
  obtain d1 d2 where ds: "pad2 d = [d1, d2]" "isDigit d1" "isDigit d2" "digitsVal [d1, d2] = d"
    using md(2) by (rule pad2_spec)
  have "FormatDateOnly loc t = [y1, y2, y3, y4, CHR ''-'', m1, m2, CHR ''-'', d1, d2]"
    by (simp add: FormatDateOnly_def c ys(1) ms(1) ds(1))
  with c ys ms ds show ?thesis by (intro that [of y m d y1 y2 y3 y4 m1 m2 d1 d2]) simp_all
qed

lemma ParseDateOnly_Format: "fourDigitYear loc t \<Longrightarrow> ParseDateOnly (FormatDateOnly loc t)"
  by (erule FormatDateOnly_spec) (auto dest: civil_spec)

lemma FormatDateOnly_inject:
  assumes "fourDigitYear loc t" and "fourDigitYear loc' u"
  shows "FormatDateOnly loc t = FormatDateOnly loc' u \<longleftrightarrow> localDay loc t = localDay loc' u"
proof
  assume eq: "FormatDateOnly loc t = FormatDateOnly loc' u"
  from assms(1) show "localDay loc t = localDay loc' u"
  proof (rule FormatDateOnly_spec)
    fix y m d y1 y2 y3 y4 m1 m2 d1 d2
    assume t: "civil (localDay loc t) = (y, m, d)"
      "FormatDateOnly loc t = [y1, y2, y3, y4, CHR ''-'', m1, m2, CHR ''-'', d1, d2]"
      "int (digitsVal [y1, y2, y3, y4]) = y" "digitsVal [m1, m2] = m" "digitsVal [d1, d2] = d"
    from assms(2) have "civil (localDay loc' u) = (y, m, d)"
      by (rule FormatDateOnly_spec) (use eq t in auto)
    then show ?thesis using civil_spec(5) t(1) by metis
  qed
qed (simp add: FormatDateOnly_def)

end
