(* ===== verification/Auth.thy ===== *)
theory Auth
  imports Prelude
begin

text \<open>
  \<open>internal/auth.go\<close>: issued keys \<open>id.sig\<close>, where \<open>sig\<close> is the first 32 hex digits of the HMAC
  of the id under the server's secret. The HMAC is a parameter (a function of secret and
  message), the random source is the outcome of \<open>rand.Read\<close>, and the environment variable
  \<open>TUNWG_AUTH_SECRET\<close> is the argument \<open>secret\<close>. \<open>subtle.ConstantTimeCompare\<close> returns 1 on equal
  byte slices, so it is equality here.
\<close>

definition hexDigit :: "nat \<Rightarrow> char" where
  "hexDigit n = ''0123456789abcdef'' ! n"

definition hexEncode :: "string \<Rightarrow> string" where
  "hexEncode bs = concat (map (\<lambda>b. [hexDigit (byteval b div 16), hexDigit (byteval b mod 16)]) bs)"

definition authSigHexLen :: nat where
  "authSigHexLen = 32"

definition signAuthKeyID :: "(string \<Rightarrow> string \<Rightarrow> string) \<Rightarrow> string \<Rightarrow> string \<Rightarrow> string" where
  "signAuthKeyID hmac secret keyid = take authSigHexLen (hexEncode (hmac secret keyid))"

definition IssueAuthKey :: "(string \<Rightarrow> string \<Rightarrow> string) \<Rightarrow> string \<Rightarrow> string + string \<Rightarrow> string + string" where
  "IssueAuthKey hmac secret rand =
     (case rand of
        Inl err \<Rightarrow> Inl err
      | Inr b \<Rightarrow> let keyid = hexEncode b in Inr (keyid @ ''.'' @ signAuthKeyID hmac secret keyid))"

definition ValidateAuthKey :: "(string \<Rightarrow> string \<Rightarrow> string) \<Rightarrow> string \<Rightarrow> string \<Rightarrow> string \<times> bool" where
  "ValidateAuthKey hmac secret key =
     (if secret = [] then ([], False)
      else
        let (keyid, sig, found) = Cut key CHR ''.''
        in if \<not> found \<or> keyid = [] then ([], False)
           else if sig \<noteq> signAuthKeyID hmac secret keyid then ([], False)
           else (keyid, True))"

lemma hexDigit_sweep: "\<forall>n<16. hexDigit n \<noteq> CHR ''.'' \<and> hexDigit n \<noteq> CHR ''o'' \<and> hexDigit n \<noteq> CHR ''s''"
  by (simp add: hexDigit_def All_less_Suc numeral_eq_Suc)

lemma hexEncode_Nil [simp]: "hexEncode [] = []"
  by (simp add: hexEncode_def)

lemma hexEncode_Cons [simp]:
  "hexEncode (b # bs) = hexDigit (byteval b div 16) # hexDigit (byteval b mod 16) # hexEncode bs"
  by (simp add: hexEncode_def)

lemma length_hexEncode [simp]: "length (hexEncode bs) = 2 * length bs"
  by (induction bs) auto

lemma byteval_div16 [simp]: "byteval b div 16 < 16"
  by (rule less_mult_imp_div_less) simp

lemma hexEncode_chars: "c \<in> set (hexEncode bs) \<Longrightarrow> \<exists>n<16. c = hexDigit n"
  by (induction bs) (auto intro: exI [of _ "byteval _ div 16"] exI [of _ "byteval _ mod 16"])

lemma hexEncode_no_dot: "CHR ''.'' \<notin> set (hexEncode bs)"
  using hexEncode_chars hexDigit_sweep by metis

lemma Validate_iff:
  "ValidateAuthKey hmac secret key = (keyid, True) \<longleftrightarrow>
     secret \<noteq> [] \<and> keyid \<noteq> [] \<and> CHR ''.'' \<notin> set keyid \<and> key = keyid @ ''.'' @ signAuthKeyID hmac secret keyid"
proof
  assume v: "ValidateAuthKey hmac secret key = (keyid, True)"
  obtain i s f where c: "Cut key CHR ''.'' = (i, s, f)" by (metis prod_cases3)
  with v have "secret \<noteq> []" "f" "i \<noteq> []" "s = signAuthKeyID hmac secret i" "i = keyid"
    by (auto simp: ValidateAuthKey_def split: if_splits)
  with c Cut_True [of key "CHR ''.''" i s] show
    "secret \<noteq> [] \<and> keyid \<noteq> [] \<and> CHR ''.'' \<notin> set keyid \<and> key = keyid @ ''.'' @ signAuthKeyID hmac secret keyid"
    by simp
next
  assume "secret \<noteq> [] \<and> keyid \<noteq> [] \<and> CHR ''.'' \<notin> set keyid \<and> key = keyid @ ''.'' @ signAuthKeyID hmac secret keyid"
  then show "ValidateAuthKey hmac secret key = (keyid, True)"
    by (simp add: ValidateAuthKey_def Cut_found)
qed

lemma Validate_False: "snd (ValidateAuthKey hmac secret key) = False \<Longrightarrow> fst (ValidateAuthKey hmac secret key) = []"
  by (auto simp: ValidateAuthKey_def Let_def split: prod.splits if_splits)

section \<open>The contract of a signed-key scheme\<close>

text \<open>
  What the access controller relies on: a key is accepted exactly when it is the key the
  scheme makes for the id it carries. A key therefore has one id, and two ids never share a key.
\<close>

locale signed_keys =
  fixes make :: "string \<Rightarrow> string" and validate :: "string \<Rightarrow> string \<times> bool"
  assumes validate_iff: "validate key = (keyid, True) \<longleftrightarrow> keyid \<noteq> [] \<and> CHR ''.'' \<notin> set keyid \<and> key = make keyid"
begin

lemma accepted_make: "keyid \<noteq> [] \<Longrightarrow> CHR ''.'' \<notin> set keyid \<Longrightarrow> validate (make keyid) = (keyid, True)"
  by (simp add: validate_iff)

lemma make_inject:
  assumes "make i = make j" and "i \<noteq> []" "CHR ''.'' \<notin> set i" and "j \<noteq> []" "CHR ''.'' \<notin> set j"
  shows "i = j"
proof -
  have "(i, True) = validate (make i)" by (rule accepted_make [OF assms(2,3), symmetric])
  also have "\<dots> = (j, True)" unfolding assms(1) by (rule accepted_make [OF assms(4,5)])
  finally show ?thesis by simp
qed

end

text \<open>The scheme of the program, for a non-empty secret.\<close>

definition makeAuthKey :: "(string \<Rightarrow> string \<Rightarrow> string) \<Rightarrow> string \<Rightarrow> string \<Rightarrow> string" where
  "makeAuthKey hmac secret keyid = keyid @ ''.'' @ signAuthKeyID hmac secret keyid"

interpretation issued: signed_keys "makeAuthKey hmac (c # cs)" "ValidateAuthKey hmac (c # cs)" for hmac c cs
proof
  fix key keyid
  show "ValidateAuthKey hmac (c # cs) key = (keyid, True) \<longleftrightarrow>
      keyid \<noteq> [] \<and> CHR ''.'' \<notin> set keyid \<and> key = makeAuthKey hmac (c # cs) keyid"
    using Validate_iff [of hmac "c # cs" key keyid] unfolding makeAuthKey_def by blast
qed

lemma Issue_makes: "IssueAuthKey hmac secret (Inr b) = Inr (makeAuthKey hmac secret (hexEncode b))"
  by (simp add: IssueAuthKey_def makeAuthKey_def Let_def)

lemma Validate_Issue:
  assumes "secret \<noteq> []" and "IssueAuthKey hmac secret (Inr b) = Inr key" and "b \<noteq> []"
  shows "ValidateAuthKey hmac secret key = (hexEncode b, True)"
proof -
  obtain c cs where s: "secret = c # cs" using assms(1) by (cases secret) auto
  have "hexEncode b \<noteq> []" using assms(3) by (cases b) auto
  moreover have "CHR ''.'' \<notin> set (hexEncode b)" by (rule hexEncode_no_dot)
  ultimately show ?thesis
    using assms(2) issued.accepted_make [of "hexEncode b" hmac c cs] by (simp add: Issue_makes s)
qed

end
