(* ===== verification/AccessState.thy ===== *)
theory AccessState
  imports Address GoTime Auth
begin

text \<open>
  The data of \<open>tunwg/access_controller.go\<close> (records of peers, quotas, the disk state and the
  controller) and its pure helpers: quota owners, the daily roll-over of a quota, saturating
  usage, the local midnight at which a block ends, and the validity of records that \<open>load\<close>
  demands of a state file.

  \<open>lib\<close> collects the code outside the repository these use: the text form of a WireGuard key
  and its parser (\<open>wgtypes.Key.String\<close>, \<open>wgtypes.ParseKey\<close>), SHA-256, and the local time zone.
\<close>

record lib =
  keyString :: "wgKey \<Rightarrow> string"
  ParseKey :: "string \<Rightarrow> wgKey option"
  sha256 :: "string \<Rightarrow> string"
  Local :: location

definition accessStateVersion :: int where "accessStateVersion = 2"
definition peerStateRetention :: duration where "peerStateRetention = 48 * hour"
definition restoreEndpointMaxAge :: duration where "restoreEndpointMaxAge = 15 * minute"
definition stalePeerMaxIdle :: duration where "stalePeerMaxIdle = 30 * minute"
definition maxActivePeersPerIssuedKey :: nat where "maxActivePeersPerIssuedKey = 3"
definition defaultIssueLimitPerIPPerDay :: int where "defaultIssueLimitPerIPPerDay = 20"

text \<open>
  Errors. The first six are the sentinels of the package, with what they wrap; the others are
  the \<open>fmt.Errorf\<close> values that wrap no sentinel. \<open>panicNilRuntime\<close> is the nil dereference of a
  missing runtime entry.
\<close>

datatype accessError =
    errAccessUnauthorized
  | errRevocationsUnavailable string
  | errPeerBlocked
  | errPeerLimitReached
  | issueRateLimitError duration
  | errAccessStateUnavailable string
  | errIssueKey string
  | errLoadState string
  | errInvalidState string
  | errNoQuotaOwner wgKey
  | errAddPeer string "string option"
  | errSnapshot string
  | panicNilRuntime

record accessPeerState =
  KeyID :: string
  AuthGeneration :: string
  CreatedAt :: time
  LastSeen :: time
  Endpoint :: string
  EndpointSeenAt :: time

record accessQuotaState =
  UsageDate :: string
  UsedBytes :: int
  BlockedUntil :: time
  QLastSeen :: time

text \<open>A nil Go map on disk is \<open>None\<close>.\<close>

record accessDiskState =
  Version :: int
  Peers :: "(string, accessPeerState) gomap option"
  Quotas :: "(string, accessQuotaState) gomap option"
  IssueWindow :: time
  IssueCounts :: "(string, int) gomap option"

record peerRuntime =
  lastRx :: int
  lastTx :: int
  addedAt :: time

text \<open>The mutable fields of \<open>accessController\<close>; \<open>failures\<close> is the channel of capacity one.\<close>

record accessController =
  peers :: "(wgKey, accessPeerState) gomap"
  quotas :: "(string, accessQuotaState) gomap"
  runtime :: "(wgKey, peerRuntime) gomap"
  issueWindow :: time
  issueCounts :: "(string, int) gomap"
  stateErr :: "accessError option"
  failures :: "accessError list"

record peerCredential =
  keyID :: string
  authGen :: string

text \<open>\<open>wgtypes.Peer\<close> as \<open>Snapshot\<close> returns it; the endpoint is already in its text form.\<close>

record wgPeer =
  PublicKey :: wgKey
  PEndpoint :: "string option"
  LastHandshakeTime :: time
  ReceiveBytes :: int
  TransmitBytes :: int

definition newAccessController :: accessController where
  "newAccessController =
     \<lparr>peers = [], quotas = [], runtime = [], issueWindow = 0, issueCounts = [],
      stateErr = None, failures = []\<rparr>"

definition authGeneration :: "lib \<Rightarrow> string \<Rightarrow> string" where
  "authGeneration L secret = (if secret = [] then [] else hexEncode (take 16 (sha256 L secret)))"

definition quotaOwner :: "lib \<Rightarrow> wgKey \<Rightarrow> string \<Rightarrow> string \<Rightarrow> string" where
  "quotaOwner L peer kid generation =
     (if kid = ''open'' then ''peer:'' @ keyString L peer
      else ''key:'' @ generation @ '':'' @ kid)"

abbreviation recordOwner :: "lib \<Rightarrow> wgKey \<Rightarrow> accessPeerState \<Rightarrow> string" where
  "recordOwner L peer r \<equiv> quotaOwner L peer (KeyID r) (AuthGeneration r)"

definition normalizeQuotaState :: "lib \<Rightarrow> accessQuotaState \<Rightarrow> time \<Rightarrow> accessQuotaState" where
  "normalizeQuotaState L q now =
     (if UsageDate q \<noteq> FormatDateOnly (Local L) now
      then q\<lparr>UsageDate := FormatDateOnly (Local L) now, UsedBytes := 0, BlockedUntil := 0\<rparr>
      else if \<not> IsZero (BlockedUntil q) \<and> \<not> Before now (BlockedUntil q)
      then q\<lparr>BlockedUntil := 0\<rparr>
      else q)"

text \<open>The quota an operation works with: the stored one or a fresh one, rolled over to today.\<close>

definition fetchQuota :: "lib \<Rightarrow> (string, accessQuotaState) gomap \<Rightarrow> string \<Rightarrow> time \<Rightarrow> accessQuotaState" where
  "fetchQuota L qs owner now =
     normalizeQuotaState L
       (case map_of qs owner of
          None \<Rightarrow> \<lparr>UsageDate = FormatDateOnly (Local L) now, UsedBytes = 0, BlockedUntil = 0, QLastSeen = now\<rparr>
        | Some q \<Rightarrow> q) now"

definition addUsage :: "int \<Rightarrow> int \<Rightarrow> int" where
  "addUsage current delta =
     (if delta \<le> 0 then current
      else if current > wrap64 (MaxInt64 - delta) then MaxInt64
      else wrap64 (current + delta))"

definition nextLocalMidnight :: "lib \<Rightarrow> time \<Rightarrow> time" where
  "nextLocalMidnight L now =
     (let (y, m, d) = civil (localDay (Local L) now)
      in AddDays (Local L) (Date (Local L) y m (int d) 0 0) 1)"

section \<open>Valid records\<close>

text \<open>What \<open>load\<close> demands of a stored peer record, quota and issue count.\<close>

definition validPeer :: "accessPeerState \<Rightarrow> bool" where
  "validPeer r \<longleftrightarrow> KeyID r \<noteq> [] \<and> (KeyID r = ''open'' \<longleftrightarrow> AuthGeneration r = [])
     \<and> CreatedAt r \<noteq> 0 \<and> LastSeen r \<noteq> 0 \<and> (Endpoint r \<noteq> [] \<longrightarrow> EndpointSeenAt r \<noteq> 0)"

definition validQuota :: "accessQuotaState \<Rightarrow> bool" where
  "validQuota q \<longleftrightarrow> 0 \<le> UsedBytes q \<and> UsedBytes q \<le> MaxInt64 \<and> ParseDateOnly (UsageDate q) \<and> QLastSeen q \<noteq> 0"

text \<open>
  The invariant of the controller: no key is stored twice, every record is valid, and every
  peer's quota owner has a quota.
\<close>

definition wfMaps :: "accessController \<Rightarrow> bool" where
  "wfMaps c \<longleftrightarrow> wfm (peers c) \<and> wfm (quotas c) \<and> wfm (runtime c) \<and> wfm (issueCounts c)"

definition wfPeers :: "lib \<Rightarrow> accessController \<Rightarrow> bool" where
  "wfPeers L c \<longleftrightarrow>
     list_all (\<lambda>(k, r). validPeer r \<and> map_of (quotas c) (recordOwner L k r) \<noteq> None) (peers c)"

definition wfQuotas :: "accessController \<Rightarrow> bool" where
  "wfQuotas c \<longleftrightarrow> list_all (\<lambda>(owner, q). owner \<noteq> [] \<and> validQuota q) (quotas c)"

definition wfCounts :: "accessController \<Rightarrow> bool" where
  "wfCounts c \<longleftrightarrow> list_all (\<lambda>(ip, n). 0 \<le> n) (issueCounts c)"

definition wfRuntime :: "accessController \<Rightarrow> bool" where
  "wfRuntime c \<longleftrightarrow> list_all (\<lambda>(k, rt). 0 \<le> lastRx rt \<and> lastRx rt \<le> MaxInt64 \<and> 0 \<le> lastTx rt \<and> lastTx rt \<le> MaxInt64) (runtime c)"

definition wfc :: "lib \<Rightarrow> accessController \<Rightarrow> bool" where
  "wfc L c \<longleftrightarrow> wfMaps c \<and> wfPeers L c \<and> wfQuotas c \<and> wfCounts c \<and> wfRuntime c"

section \<open>Lemmas on the helpers\<close>

lemma quotaOwner_nonempty [simp]: "quotaOwner L peer kid g \<noteq> []"
  by (simp add: quotaOwner_def)

lemma normalize_same_date:
  "UsageDate q = FormatDateOnly (Local L) now \<Longrightarrow> UsedBytes (normalizeQuotaState L q now) = UsedBytes q"
  by (simp add: normalizeQuotaState_def)

lemma normalize_fields [simp]:
  "UsageDate (normalizeQuotaState L q now) = FormatDateOnly (Local L) now"
  "QLastSeen (normalizeQuotaState L q now) = QLastSeen q"
  by (simp_all add: normalizeQuotaState_def)

lemma normalize_UsedBytes:
  "UsedBytes (normalizeQuotaState L q now) = (if UsageDate q = FormatDateOnly (Local L) now then UsedBytes q else 0)"
  by (simp add: normalizeQuotaState_def)

lemma normalize_idem [simp]:
  "normalizeQuotaState L (normalizeQuotaState L q now) now = normalizeQuotaState L q now"
  by (simp add: normalizeQuotaState_def IsZero_def)

lemma validQuota_normalize:
  "validQuota q \<Longrightarrow> fourDigitYear (Local L) now \<Longrightarrow> validQuota (normalizeQuotaState L q now)"
  by (simp add: validQuota_def normalize_UsedBytes ParseDateOnly_Format MaxInt64_def)

text \<open>Saturating addition: no wrap-around is ever taken.\<close>

lemma addUsage_eq:
  assumes "0 \<le> u" "u \<le> MaxInt64" "0 \<le> d" "d \<le> MaxInt64"
  shows "addUsage u d = min MaxInt64 (u + d)"
proof -
  have "wrap64 (MaxInt64 - d) = MaxInt64 - d"
    using assms by (intro wrap64_id) (simp add: int64_def MinInt64_def)
  moreover have "u + d \<le> MaxInt64 \<Longrightarrow> wrap64 (u + d) = u + d"
    using assms by (intro wrap64_id) (simp add: int64_def MinInt64_def)
  ultimately show ?thesis using assms by (auto simp: addUsage_def)
qed

lemma addUsage_range:
  assumes "0 \<le> u" "u \<le> MaxInt64" "0 \<le> d" "d \<le> MaxInt64"
  shows "0 \<le> addUsage u d" and "addUsage u d \<le> MaxInt64" and "u \<le> addUsage u d"
  using assms by (auto simp: addUsage_eq)

section \<open>The contract of a usage counter\<close>

text \<open>
  What the accounting loop relies on: a bounded counter whose additions behave like addition
  up to the bound. Adding a list of amounts in any order then gives the bounded total.
\<close>

locale usage_counter =
  fixes add :: "int \<Rightarrow> int \<Rightarrow> int" and bound :: int
  assumes bound_nonneg: "0 \<le> bound"
    and add_eq: "0 \<le> u \<Longrightarrow> u \<le> bound \<Longrightarrow> 0 \<le> d \<Longrightarrow> d \<le> bound \<Longrightarrow> add u d = min bound (u + d)"
begin

lemma fold_add:
  assumes "0 \<le> u" "u \<le> bound" and "\<forall>d\<in>set ds. 0 \<le> d \<and> d \<le> bound"
  shows "foldl add u ds = min bound (u + sum_list ds)"
  using assms
proof (induction ds arbitrary: u)
  case (Cons d ds)
  then have "0 \<le> sum_list ds" by (intro sum_list_nonneg) auto
  moreover have "foldl add (add u d) ds = min bound (add u d + sum_list ds)"
    using Cons.prems bound_nonneg by (intro Cons.IH) (auto simp: add_eq)
  ultimately show ?case using Cons.prems by (auto simp: add_eq)
qed simp

end

interpretation usage: usage_counter addUsage MaxInt64
  by unfold_locales (simp_all add: addUsage_eq MaxInt64_def)

end
