(* ===== verification/AccessController.thy ===== *)
theory AccessController
  imports AccessState
begin

text \<open>
  The operations of \<open>tunwg/access_controller.go\<close>.

  \<open>deps\<close> is the set of interfaces and function fields an \<open>accessController\<close> is built from: the
  state store, the peer device, the revocation source, the clock, the configuration and the key
  functions, each a function of the world \<open>'w\<close> outside the controller. An operation takes the
  controller and the world and returns its result with both of them.

  Every operation holds the controller's mutex from the point the source takes it, so it is one
  step. What \<open>issueAuthKey\<close>, \<open>restorePeers\<close> and \<open>reconcile\<close> read before they take the mutex is a
  value of its own (\<open>restoreRead\<close>, \<open>reconcileRead\<close>, the secret and the key of \<open>issueAuthKey\<close>), so
  that other operations can come in between; the function named like the source's method
  composes the two parts without an interleaving. Log lines are left out.
\<close>

record 'w deps =
  LoadState :: "'w \<Rightarrow> string + accessDiskState \<times> bool"
  SaveState :: "accessDiskState \<Rightarrow> 'w \<Rightarrow> string option \<times> 'w"
  AddPeer :: "wgKey \<Rightarrow> string \<Rightarrow> 'w \<Rightarrow> string option \<times> 'w"
  RemovePeer :: "wgKey \<Rightarrow> 'w \<Rightarrow> string option \<times> 'w"
  Snapshot :: "'w \<Rightarrow> string + wgPeer list"
  LoadRevocations :: "'w \<Rightarrow> string + (string \<Rightarrow> bool)"
  nowTime :: "'w \<Rightarrow> time"
  authSecret :: "'w \<Rightarrow> string"
  legacyKey :: "'w \<Rightarrow> string"
  validateKey :: "'w \<Rightarrow> string \<Rightarrow> string \<times> bool"
  issueKey :: "'w \<Rightarrow> (string + string) \<times> 'w"
  quotaBytes :: "'w \<Rightarrow> int"

section \<open>Persisting\<close>

definition diskStateLocked :: "lib \<Rightarrow> accessController \<Rightarrow> accessDiskState" where
  "diskStateLocked L c =
     \<lparr>Version = accessStateVersion,
      Peers = Some (foldl (\<lambda>m (k, r). put m (keyString L k) r) [] (peers c)),
      Quotas = Some (foldl (\<lambda>m (owner, q). put m owner q) [] (quotas c)),
      IssueWindow = issueWindow c,
      IssueCounts = Some (foldl (\<lambda>m (ip, n). put m ip n) [] (issueCounts c))\<rparr>"

definition persistLocked ::
  "lib \<Rightarrow> 'w deps \<Rightarrow> accessController \<Rightarrow> 'w \<Rightarrow> accessError option \<times> accessController \<times> 'w" where
  "persistLocked L D c w =
     (case stateErr c of
        Some e \<Rightarrow> (Some e, c, w)
      | None \<Rightarrow>
          (case SaveState D (diskStateLocked L c) w of
             (None, w') \<Rightarrow> (None, c, w')
           | (Some err, w') \<Rightarrow>
               let e = errAccessStateUnavailable err
               in (Some e,
                   c\<lparr>stateErr := Some e, failures := (if failures c = [] then [e] else failures c)\<rparr>,
                   w')))"

definition restoreRecordLocked :: "accessController \<Rightarrow> wgKey \<Rightarrow> accessPeerState option \<Rightarrow> accessController" where
  "restoreRecordLocked c peer old =
     (case old of None \<Rightarrow> c\<lparr>peers := del (peers c) peer\<rparr>
      | Some r \<Rightarrow> c\<lparr>peers := put (peers c) peer r\<rparr>)"

definition restoreQuotaLocked :: "accessController \<Rightarrow> string \<Rightarrow> accessQuotaState option \<Rightarrow> accessController" where
  "restoreQuotaLocked c owner old =
     (case old of None \<Rightarrow> c\<lparr>quotas := del (quotas c) owner\<rparr>
      | Some q \<Rightarrow> c\<lparr>quotas := put (quotas c) owner q\<rparr>)"

section \<open>Loading\<close>

fun loadQuotas ::
  "lib \<Rightarrow> time \<Rightarrow> (string \<times> accessQuotaState) list \<Rightarrow> accessController \<Rightarrow> accessError option \<times> accessController" where
  "loadQuotas L now [] c = (None, c)"
| "loadQuotas L now ((owner, q) # rest) c =
     (if owner = [] then (Some (errInvalidState ''access state contains an empty quota owner''), c)
      else if UsedBytes q < 0 then (Some (errInvalidState ''negative usage''), c)
      else if \<not> ParseDateOnly (UsageDate q) then (Some (errInvalidState ''invalid usage date''), c)
      else if IsZero (QLastSeen q) then (Some (errInvalidState ''missing last-seen timestamp''), c)
      else loadQuotas L now rest (c\<lparr>quotas := put (quotas c) owner (normalizeQuotaState L q now)\<rparr>))"

fun loadPeers ::
  "lib \<Rightarrow> (string \<times> accessPeerState) list \<Rightarrow> accessController \<Rightarrow> accessError option \<times> accessController" where
  "loadPeers L [] c = (None, c)"
| "loadPeers L ((encoded, r) # rest) c =
     (case ParseKey L encoded of
        None \<Rightarrow> (Some (errInvalidState ''invalid peer key''), c)
      | Some key \<Rightarrow>
          if KeyID r = [] then (Some (errInvalidState ''missing key id''), c)
          else if KeyID r = ''open'' \<and> AuthGeneration r \<noteq> []
          then (Some (errInvalidState ''open peer has an auth generation''), c)
          else if KeyID r \<noteq> ''open'' \<and> AuthGeneration r = []
          then (Some (errInvalidState ''missing auth generation''), c)
          else if IsZero (CreatedAt r) \<or> IsZero (LastSeen r)
          then (Some (errInvalidState ''missing lifecycle timestamps''), c)
          else if Endpoint r \<noteq> [] \<and> IsZero (EndpointSeenAt r)
          then (Some (errInvalidState ''missing endpoint timestamp''), c)
          else if map_of (quotas c) (recordOwner L key r) = None
          then (Some (errNoQuotaOwner key), c)
          else loadPeers L rest (c\<lparr>peers := put (peers c) key r\<rparr>))"

fun loadCounts ::
  "(string \<times> int) list \<Rightarrow> accessController \<Rightarrow> accessError option \<times> accessController" where
  "loadCounts [] c = (None, c)"
| "loadCounts ((ip, n) # rest) c =
     (if n < 0 then (Some (errInvalidState ''negative issue count''), c)
      else if n > 0 then loadCounts rest (c\<lparr>issueCounts := put (issueCounts c) ip n\<rparr>)
      else loadCounts rest c)"

definition loadFound ::
  "lib \<Rightarrow> time \<Rightarrow> accessDiskState \<Rightarrow> accessController \<Rightarrow> accessError option \<times> accessController" where
  "loadFound L now state c =
     (if Version state \<noteq> accessStateVersion
      then (Some (errInvalidState ''unsupported access state version''), c)
      else
        case (Peers state, Quotas state, IssueCounts state) of
          (Some ps, Some qs, Some ics) \<Rightarrow>
            if IsZero (IssueWindow state)
            then (Some (errInvalidState ''access state is missing required fields''), c)
            else
              (case loadQuotas L now qs c of
                 (Some e, c1) \<Rightarrow> (Some e, c1)
               | (None, c1) \<Rightarrow>
                   (case loadPeers L ps c1 of
                      (Some e, c2) \<Rightarrow> (Some e, c2)
                    | (None, c2) \<Rightarrow> loadCounts ics (c2\<lparr>issueWindow := IssueWindow state\<rparr>)))
        | _ \<Rightarrow> (Some (errInvalidState ''access state is missing required fields''), c))"

definition rollIssueWindow :: "time \<Rightarrow> duration \<Rightarrow> accessController \<Rightarrow> accessController" where
  "rollIssueWindow now window c =
     (if IsZero (issueWindow c) \<or> Sub now (issueWindow c) \<ge> window \<or> Before now (issueWindow c)
      then c\<lparr>issueWindow := now, issueCounts := []\<rparr> else c)"

definition load ::
  "lib \<Rightarrow> 'w deps \<Rightarrow> accessController \<Rightarrow> 'w \<Rightarrow> accessError option \<times> accessController \<times> 'w" where
  "load L D c w =
     (case LoadState D w of
        Inl err \<Rightarrow> (Some (errLoadState err), c, w)
      | Inr (state, found) \<Rightarrow>
          let now = nowTime D w;
              c0 = c\<lparr>peers := [], quotas := [], runtime := [], issueCounts := [],
                     stateErr := None, failures := []\<rparr>;
              (err, c1) = (if found then loadFound L now state c0 else (None, c0))
          in case err of
               Some e \<Rightarrow> (Some e, c1, w)
             | None \<Rightarrow> persistLocked L D (rollIssueWindow now (24 * hour) c1) w)"

section \<open>Registering a peer\<close>

definition authorizeLocked ::
  "lib \<Rightarrow> 'w deps \<Rightarrow> 'w \<Rightarrow> string \<Rightarrow> peerCredential \<times> accessError option" where
  "authorizeLocked L D w reqKey =
     (let secret = authSecret D w; none = \<lparr>keyID = [], authGen = []\<rparr>
      in if secret \<noteq> [] then
           let (kid, valid) = validateKey D w reqKey
           in if \<not> valid then (none, Some errAccessUnauthorized)
              else
                let credential = \<lparr>keyID = kid, authGen = authGeneration L secret\<rparr>
                in case LoadRevocations D w of
                     Inl err \<Rightarrow> (credential, Some (errRevocationsUnavailable err))
                   | Inr revoked \<Rightarrow>
                       if revoked kid then (credential, Some errAccessUnauthorized)
                       else (credential, None)
         else
           let legacy = legacyKey D w
           in if legacy \<noteq> [] then
                if reqKey \<noteq> legacy then (none, Some errAccessUnauthorized)
                else (\<lparr>keyID = ''shared'', authGen = authGeneration L legacy\<rparr>, None)
              else (\<lparr>keyID = ''open'', authGen = []\<rparr>, None))"

definition credentialMatchesCurrentModeLocked ::
  "lib \<Rightarrow> 'w deps \<Rightarrow> 'w \<Rightarrow> peerCredential \<Rightarrow> bool" where
  "credentialMatchesCurrentModeLocked L D w cr =
     (let secret = authSecret D w
      in if secret \<noteq> [] then
           keyID cr \<noteq> [] \<and> keyID cr \<noteq> ''open'' \<and> keyID cr \<noteq> ''shared'' \<and> authGen cr = authGeneration L secret
         else if legacyKey D w \<noteq> [] then
           keyID cr = ''shared'' \<and> authGen cr = authGeneration L (legacyKey D w)
         else keyID cr = ''open'' \<and> authGen cr = [])"

definition recordMatchesCurrentModeLocked ::
  "lib \<Rightarrow> 'w deps \<Rightarrow> 'w \<Rightarrow> accessPeerState \<Rightarrow> bool" where
  "recordMatchesCurrentModeLocked L D w r =
     (let secret = authSecret D w
      in if secret \<noteq> [] then
           KeyID r \<noteq> [] \<and> KeyID r \<noteq> ''open'' \<and> KeyID r \<noteq> ''shared'' \<and> AuthGeneration r = authGeneration L secret
         else if legacyKey D w \<noteq> [] then
           KeyID r = ''shared'' \<and> AuthGeneration r = authGeneration L (legacyKey D w)
         else True)"

definition touchRuntime :: "accessController \<Rightarrow> wgKey \<Rightarrow> time \<Rightarrow> accessController" where
  "touchRuntime c peer now =
     c\<lparr>runtime := put (runtime c) peer
         (case map_of (runtime c) peer of
            None \<Rightarrow> \<lparr>lastRx = 0, lastTx = 0, addedAt = now\<rparr>
          | Some rt \<Rightarrow> rt\<lparr>addedAt := now\<rparr>)\<rparr>"

text \<open>The peers of an owner, other than \<open>peer\<close>, that have a runtime entry.\<close>

definition activePeers :: "lib \<Rightarrow> accessController \<Rightarrow> wgKey \<Rightarrow> string \<Rightarrow> nat" where
  "activePeers L c peer owner =
     length (filter (\<lambda>(activePeer, _). activePeer \<noteq> peer \<and>
         (case map_of (peers c) activePeer of None \<Rightarrow> False | Some r \<Rightarrow> recordOwner L activePeer r = owner))
       (runtime c))"

definition admittedRecord :: "accessController \<Rightarrow> wgKey \<Rightarrow> peerCredential \<Rightarrow> time \<Rightarrow> accessPeerState" where
  "admittedRecord c peer credential now =
     (case map_of (peers c) peer of
        None \<Rightarrow> \<lparr>KeyID = [], AuthGeneration = [], CreatedAt = now, LastSeen = 0,
                 Endpoint = [], EndpointSeenAt = 0\<rparr>
      | Some r \<Rightarrow> r)
     \<lparr>KeyID := keyID credential, AuthGeneration := authGen credential, LastSeen := now\<rparr>"

definition storeAdmitted ::
  "accessController \<Rightarrow> wgKey \<Rightarrow> peerCredential \<Rightarrow> time \<Rightarrow> string \<Rightarrow> accessQuotaState \<Rightarrow> accessController" where
  "storeAdmitted c peer credential now owner quota =
     c\<lparr>peers := put (peers c) peer (admittedRecord c peer credential now),
       quotas := put (quotas c) owner (quota\<lparr>QLastSeen := now\<rparr>)\<rparr>"

text \<open>The part of \<open>registerPeer\<close> after the guards: store the record, persist, add the peer.\<close>

definition admitPeer ::
  "lib \<Rightarrow> 'w deps \<Rightarrow> accessController \<Rightarrow> 'w \<Rightarrow> wgKey \<Rightarrow> peerCredential \<Rightarrow> time \<Rightarrow> string \<Rightarrow> accessQuotaState
   \<Rightarrow> (peerCredential \<times> accessError option) \<times> accessController \<times> 'w" where
  "admitPeer L D c w peer credential now owner quota =
     (let oldQuota = map_of (quotas c) owner;
          old = map_of (peers c) peer;
          c1 = storeAdmitted c peer credential now owner quota
      in case persistLocked L D c1 w of
           (Some e, c2, w2) \<Rightarrow>
             ((credential, Some e), restoreQuotaLocked (restoreRecordLocked c2 peer old) owner oldQuota, w2)
         | (None, c2, w2) \<Rightarrow>
             (case AddPeer D peer [] w2 of
                (None, w3) \<Rightarrow> ((credential, None), touchRuntime c2 peer now, w3)
              | (Some err, w3) \<Rightarrow>
                  (case RemovePeer D peer w3 of
                     (Some cleanupErr, w4) \<Rightarrow>
                       ((credential, Some (errAddPeer err (Some cleanupErr))), touchRuntime c2 peer now, w4)
                   | (None, w4) \<Rightarrow>
                       let c3 = restoreQuotaLocked (restoreRecordLocked c2 peer old) owner oldQuota;
                           c4 = c3\<lparr>runtime := del (runtime c3) peer\<rparr>
                       in case persistLocked L D c4 w4 of
                            (Some e, c5, w5) \<Rightarrow> ((credential, Some e), c5, w5)
                          | (None, c5, w5) \<Rightarrow> ((credential, Some (errAddPeer err None)), c5, w5))))"

definition registerPeer ::
  "lib \<Rightarrow> 'w deps \<Rightarrow> accessController \<Rightarrow> 'w \<Rightarrow> wgKey \<Rightarrow> string
   \<Rightarrow> (peerCredential \<times> accessError option) \<times> accessController \<times> 'w" where
  "registerPeer L D c w peer reqKey =
     (let none = \<lparr>keyID = [], authGen = []\<rparr>
      in case stateErr c of
           Some e \<Rightarrow> ((none, Some e), c, w)
         | None \<Rightarrow>
             (case authorizeLocked L D w reqKey of
                (credential, Some e) \<Rightarrow> ((credential, Some e), c, w)
              | (credential, None) \<Rightarrow>
                  if \<not> credentialMatchesCurrentModeLocked L D w credential
                  then ((none, Some errAccessUnauthorized), c, w)
                  else
                    let now = nowTime D w;
                        limit = quotaBytes D w;
                        owner = quotaOwner L peer (keyID credential) (authGen credential);
                        quota = fetchQuota L (quotas c) owner now
                    in if Before now (BlockedUntil quota) \<or> (limit > 0 \<and> UsedBytes quota > limit)
                       then ((credential, Some errPeerBlocked), c, w)
                       else if keyID credential \<noteq> ''open'' \<and> keyID credential \<noteq> ''shared''
                            \<and> activePeers L c peer owner \<ge> maxActivePeersPerIssuedKey
                       then ((credential, Some errPeerLimitReached), c, w)
                       else admitPeer L D c w peer credential now owner quota))"

section \<open>Issuing a key\<close>

definition issueCount :: "accessController \<Rightarrow> string \<Rightarrow> int" where
  "issueCount c ip = (case map_of (issueCounts c) ip of None \<Rightarrow> 0 | Some n \<Rightarrow> n)"

definition issueAuthKeyLocked ::
  "lib \<Rightarrow> 'w deps \<Rightarrow> string \<Rightarrow> string \<Rightarrow> string \<Rightarrow> int \<Rightarrow> duration \<Rightarrow> accessController \<Rightarrow> 'w
   \<Rightarrow> (accessError + string) \<times> accessController \<times> 'w" where
  "issueAuthKeyLocked L D secret key ip maxPerIP window c w =
     (case stateErr c of
        Some e \<Rightarrow> (Inl e, c, w)
      | None \<Rightarrow>
          if authGeneration L (authSecret D w) \<noteq> authGeneration L secret
          then (Inl errAccessUnauthorized, c, w)
          else
            let now = nowTime D w;
                c1 = rollIssueWindow now window c;
                count = issueCount c1 ip
            in if count \<ge> maxPerIP then
                 let retryAfter = Sub (issueWindow c1 + window) now
                 in (Inl (issueRateLimitError (if retryAfter < second then second else retryAfter)), c1, w)
               else
                 (case persistLocked L D (c1\<lparr>issueCounts := put (issueCounts c1) ip (count + 1)\<rparr>) w of
                    (Some e, c2, w2) \<Rightarrow> (Inl e, c2\<lparr>issueCounts := put (issueCounts c2) ip count\<rparr>, w2)
                  | (None, c2, w2) \<Rightarrow> (Inr key, c2, w2)))"

definition issueAuthKey ::
  "lib \<Rightarrow> 'w deps \<Rightarrow> accessController \<Rightarrow> 'w \<Rightarrow> string \<Rightarrow> int \<Rightarrow> duration
   \<Rightarrow> (accessError + string) \<times> accessController \<times> 'w" where
  "issueAuthKey L D c w ip maxPerIP window =
     (let secret = authSecret D w
      in if secret = [] then (Inl errAccessUnauthorized, c, w)
         else case issueKey D w of
                (Inl err, w1) \<Rightarrow> (Inl (errIssueKey err), c, w1)
              | (Inr key, w1) \<Rightarrow> issueAuthKeyLocked L D secret key ip maxPerIP window c w1)"

section \<open>Restoring peers after a restart\<close>

text \<open>What \<open>restorePeers\<close> and \<open>reconcile\<close> read before they take the mutex.\<close>

definition readRevocations :: "'w deps \<Rightarrow> 'w \<Rightarrow> string + (string \<Rightarrow> bool)" where
  "readRevocations D w = (if authSecret D w \<noteq> [] then LoadRevocations D w else Inr (\<lambda>_. False))"

definition clearEndpoint :: "accessController \<Rightarrow> wgKey \<Rightarrow> accessPeerState \<Rightarrow> accessController" where
  "clearEndpoint c peer r = c\<lparr>peers := put (peers c) peer (r\<lparr>Endpoint := [], EndpointSeenAt := 0\<rparr>)\<rparr>"

text \<open>A record whose endpoint is recent enough to be restored.\<close>

definition restorable :: "time \<Rightarrow> accessPeerState \<Rightarrow> bool" where
  "restorable now r \<longleftrightarrow> \<not> (Endpoint r = [] \<or> IsZero (EndpointSeenAt r)
     \<or> Sub now (EndpointSeenAt r) \<ge> restoreEndpointMaxAge \<or> Before now (EndpointSeenAt r))"

definition restoreExceeded :: "time \<Rightarrow> int \<Rightarrow> accessQuotaState \<Rightarrow> bool" where
  "restoreExceeded now limit q \<longleftrightarrow> limit > 0 \<and> UsedBytes q > limit \<and> \<not> Before now (BlockedUntil q)"

definition restoreQuota :: "lib \<Rightarrow> time \<Rightarrow> int \<Rightarrow> accessQuotaState \<Rightarrow> accessQuotaState" where
  "restoreQuota L now limit q0 =
     (let q = normalizeQuotaState L q0 now
      in if restoreExceeded now limit q then q\<lparr>BlockedUntil := nextLocalMidnight L now\<rparr> else q)"

text \<open>One iteration: \<open>Inl\<close> is the early return; \<open>Inr\<close> says whether it set \<open>changed\<close>.\<close>

definition restoreOne ::
  "lib \<Rightarrow> 'w deps \<Rightarrow> time \<Rightarrow> int \<Rightarrow> string + (string \<Rightarrow> bool) \<Rightarrow> wgKey \<Rightarrow> accessPeerState
   \<Rightarrow> accessController \<Rightarrow> 'w \<Rightarrow> accessError + bool \<times> accessController \<times> 'w" where
  "restoreOne L D now limit revs peer r c w =
     (if \<not> restorable now r
      then if Endpoint r \<noteq> [] \<or> \<not> IsZero (EndpointSeenAt r)
           then Inr (True, clearEndpoint c peer r, w)
           else Inr (False, c, w)
      else
        let owner = recordOwner L peer r
        in case map_of (quotas c) owner of
             None \<Rightarrow> Inl (errNoQuotaOwner peer)
           | Some q0 \<Rightarrow>
               let quota = restoreQuota L now limit q0;
                   exceeded = restoreExceeded now limit (normalizeQuotaState L q0 now);
                   c1 = c\<lparr>quotas := put (quotas c) owner quota\<rparr>
               in if Before now (BlockedUntil quota) then Inr (exceeded, c1, w)
                  else if \<not> recordMatchesCurrentModeLocked L D w r
                  then Inr (True, clearEndpoint c1 peer r, w)
                  else
                    (case (if authSecret D w \<noteq> [] then revs else Inr (\<lambda>_. False)) of
                       Inl _ \<Rightarrow> Inr (exceeded, c1, w)
                     | Inr revoked \<Rightarrow>
                         if revoked (KeyID r) then Inr (True, clearEndpoint c1 peer r, w)
                         else
                           (case AddPeer D peer (Endpoint r) w of
                              (Some err, w1) \<Rightarrow> Inr (True, clearEndpoint c1 peer r, w1)
                            | (None, w1) \<Rightarrow>
                                Inr (exceeded,
                                     c1\<lparr>runtime := put (runtime c1) peer
                                          \<lparr>lastRx = 0, lastTx = 0, addedAt = now\<rparr>\<rparr>, w1))))"

fun restoreLoop ::
  "lib \<Rightarrow> 'w deps \<Rightarrow> time \<Rightarrow> int \<Rightarrow> string + (string \<Rightarrow> bool) \<Rightarrow> (wgKey \<times> accessPeerState) list
   \<Rightarrow> bool \<Rightarrow> accessController \<Rightarrow> 'w \<Rightarrow> accessError option \<times> bool \<times> accessController \<times> 'w" where
  "restoreLoop L D now limit revs [] changed c w = (None, changed, c, w)"
| "restoreLoop L D now limit revs ((peer, r) # rest) changed c w =
     (case restoreOne L D now limit revs peer r c w of
        Inl e \<Rightarrow> (Some e, changed, c, w)
      | Inr (ch, c1, w1) \<Rightarrow> restoreLoop L D now limit revs rest (changed \<or> ch) c1 w1)"

definition restorePeersLocked ::
  "lib \<Rightarrow> 'w deps \<Rightarrow> time \<Rightarrow> int \<Rightarrow> string + (string \<Rightarrow> bool) \<Rightarrow> accessController \<Rightarrow> 'w
   \<Rightarrow> accessError option \<times> accessController \<times> 'w" where
  "restorePeersLocked L D now limit revs c w =
     (case stateErr c of
        Some e \<Rightarrow> (Some e, c, w)
      | None \<Rightarrow>
          (case restoreLoop L D now limit revs (peers c) False c w of
             (Some e, changed, c1, w1) \<Rightarrow> (Some e, c1, w1)
           | (None, changed, c1, w1) \<Rightarrow>
               if changed then persistLocked L D c1 w1 else (None, c1, w1)))"

definition restorePeers ::
  "lib \<Rightarrow> 'w deps \<Rightarrow> accessController \<Rightarrow> 'w \<Rightarrow> accessError option \<times> accessController \<times> 'w" where
  "restorePeers L D c w =
     restorePeersLocked L D (nowTime D w) (quotaBytes D w) (readRevocations D w) c w"

section \<open>Reconciling with the device\<close>

record reconcileRead =
  rPeers :: "wgPeer list"
  rNow :: time
  rLimit :: int
  rSecretMode :: bool
  rRevoked :: "string + (string \<Rightarrow> bool)"

record peerRemoval =
  remKey :: wgKey
  reason :: string

text \<open>The increase of a byte counter since the last reading; a smaller reading means the device
  restarted the counter.\<close>

definition counterDelta :: "int \<Rightarrow> int \<Rightarrow> int" where
  "counterDelta reading seen = (let d = wrap64 (reading - seen) in if d < 0 then reading else d)"

definition observeEndpoint :: "time \<Rightarrow> wgPeer \<Rightarrow> time \<Rightarrow> accessPeerState \<Rightarrow> accessPeerState" where
  "observeEndpoint now p added r =
     (if \<not> IsZero (LastHandshakeTime p) \<and> Sub now (LastHandshakeTime p) < restoreEndpointMaxAge
         \<and> PEndpoint p \<noteq> None
      then r\<lparr>Endpoint := the (PEndpoint p), EndpointSeenAt := LastHandshakeTime p\<rparr>
      else if \<not> IsZero (LastHandshakeTime p) \<and> Sub now (LastHandshakeTime p) \<ge> restoreEndpointMaxAge
      then r\<lparr>Endpoint := [], EndpointSeenAt := 0\<rparr>
      else if IsZero (LastHandshakeTime p) \<and> Sub now added \<ge> restoreEndpointMaxAge
      then r\<lparr>Endpoint := [], EndpointSeenAt := 0\<rparr>
      else r)"

text \<open>The record and the runtime entry the first loop works on: the stored ones or fresh ones.\<close>

definition accountedRecord :: "accessController \<Rightarrow> wgPeer \<Rightarrow> time \<Rightarrow> accessPeerState" where
  "accountedRecord c p now =
     (case map_of (peers c) (PublicKey p) of
        None \<Rightarrow> \<lparr>KeyID = ''open'', AuthGeneration = [], CreatedAt = now, LastSeen = now,
                 Endpoint = [], EndpointSeenAt = 0\<rparr>
      | Some r \<Rightarrow> r)"

definition accountedRuntime :: "accessController \<Rightarrow> wgPeer \<Rightarrow> time \<Rightarrow> peerRuntime" where
  "accountedRuntime c p now =
     (case map_of (runtime c) (PublicKey p) of
        None \<Rightarrow> \<lparr>lastRx = 0, lastTx = 0, addedAt = now\<rparr> | Some rt \<Rightarrow> rt)"

text \<open>
  The first loop, for one device peer: \<open>Inl\<close> is the early return, \<open>Inr\<close> the controller after
  the iteration and whether the peer was found unauthorized.
\<close>

definition accountPeer ::
  "lib \<Rightarrow> 'w deps \<Rightarrow> reconcileRead \<Rightarrow> 'w \<Rightarrow> accessController \<Rightarrow> wgPeer
   \<Rightarrow> accessError + accessController \<times> bool" where
  "accountPeer L D rd w c p =
     (let pk = PublicKey p; now = rNow rd
      in if map_of (peers c) pk = None \<and> (rSecretMode rd \<or> legacyKey D w \<noteq> [])
         then Inr (c, True)
         else
           let r = accountedRecord c p now;
               owner = recordOwner L pk r
           in if map_of (quotas c) owner = None \<and> KeyID r \<noteq> ''open'' then Inl (errNoQuotaOwner pk)
              else
                let q = fetchQuota L (quotas c) owner now;
                    rt = accountedRuntime c p now;
                    drx = counterDelta (ReceiveBytes p) (lastRx rt);
                    dtx = counterDelta (TransmitBytes p) (lastTx rt)
                in Inr (c\<lparr>peers := put (peers c) pk (observeEndpoint now p (addedAt rt) (r\<lparr>LastSeen := now\<rparr>)),
                          quotas := put (quotas c) owner
                            (q\<lparr>UsedBytes := addUsage (addUsage (UsedBytes q) drx) dtx, QLastSeen := now\<rparr>),
                          runtime := put (runtime c) pk
                            (rt\<lparr>lastRx := ReceiveBytes p, lastTx := TransmitBytes p\<rparr>)\<rparr>, False))"

fun accountLoop ::
  "lib \<Rightarrow> 'w deps \<Rightarrow> reconcileRead \<Rightarrow> 'w \<Rightarrow> wgPeer list \<Rightarrow> accessController \<Rightarrow> wgKey list
   \<Rightarrow> accessError option \<times> accessController \<times> wgKey list" where
  "accountLoop L D rd w [] c unauthorized = (None, c, unauthorized)"
| "accountLoop L D rd w (p # ps) c unauthorized =
     (case accountPeer L D rd w c p of
        Inl e \<Rightarrow> (Some e, c, unauthorized)
      | Inr (c', un) \<Rightarrow>
          accountLoop L D rd w ps c' (if un then unauthorized @ [PublicKey p] else unauthorized))"

text \<open>The second loop: block the owners over the limit.\<close>

definition blockPeer :: "lib \<Rightarrow> reconcileRead \<Rightarrow> accessController \<Rightarrow> wgPeer \<Rightarrow> accessController" where
  "blockPeer L rd c p =
     (case map_of (peers c) (PublicKey p) of
        None \<Rightarrow> c
      | Some r \<Rightarrow>
          let owner = recordOwner L (PublicKey p) r
          in case map_of (quotas c) owner of
               None \<Rightarrow> c
             | Some q \<Rightarrow>
                 if UsedBytes q \<le> rLimit rd \<or> Before (rNow rd) (BlockedUntil q) then c
                 else c\<lparr>quotas := put (quotas c) owner (q\<lparr>BlockedUntil := nextLocalMidnight L (rNow rd)\<rparr>)\<rparr>)"

definition blockLoop :: "lib \<Rightarrow> reconcileRead \<Rightarrow> accessController \<Rightarrow> accessController" where
  "blockLoop L rd c = (if rLimit rd > 0 then foldl (blockPeer L rd) c (rPeers rd) else c)"

text \<open>The third loop: the reason to remove a peer, in the order of the source's \<open>switch\<close>.\<close>

definition removalReason ::
  "lib \<Rightarrow> 'w deps \<Rightarrow> reconcileRead \<Rightarrow> 'w \<Rightarrow> wgPeer \<Rightarrow> accessPeerState \<Rightarrow> accessQuotaState \<Rightarrow> peerRuntime option
   \<Rightarrow> accessError + string" where
  "removalReason L D rd w p r q rt =
     (if \<not> recordMatchesCurrentModeLocked L D w r then Inr ''unauthorized''
      else if rSecretMode rd \<and> (case rRevoked rd of Inl _ \<Rightarrow> True | Inr _ \<Rightarrow> False)
      then Inr ''revocation-unavailable''
      else if rSecretMode rd \<and> (case rRevoked rd of Inl _ \<Rightarrow> False | Inr revoked \<Rightarrow> revoked (KeyID r))
      then Inr ''revoked''
      else if Before (rNow rd) (BlockedUntil q) then Inr ''quota''
      else if IsZero (LastHandshakeTime p) then
        (case rt of
           None \<Rightarrow> Inl panicNilRuntime
         | Some t \<Rightarrow> if Sub (rNow rd) (addedAt t) \<ge> stalePeerMaxIdle then Inr ''stale'' else Inr [])
      else if Sub (rNow rd) (LastHandshakeTime p) \<ge> stalePeerMaxIdle then Inr ''stale''
      else Inr [])"

definition judgePeer ::
  "lib \<Rightarrow> 'w deps \<Rightarrow> reconcileRead \<Rightarrow> 'w \<Rightarrow> wgKey list \<Rightarrow> accessController \<Rightarrow> wgPeer
   \<Rightarrow> accessError + accessController \<times> peerRemoval list" where
  "judgePeer L D rd w unauthorized c p =
     (let pk = PublicKey p
      in if pk \<in> set unauthorized then Inr (c, [])
         else case map_of (peers c) pk of
                None \<Rightarrow> Inr (c, [])
              | Some r \<Rightarrow>
                  (case map_of (quotas c) (recordOwner L pk r) of
                     None \<Rightarrow> Inl (errNoQuotaOwner pk)
                   | Some q \<Rightarrow>
                       (case removalReason L D rd w p r q (map_of (runtime c) pk) of
                          Inl e \<Rightarrow> Inl e
                        | Inr why \<Rightarrow>
                            if why \<noteq> [] then Inr (clearEndpoint c pk r, [\<lparr>remKey = pk, reason = why\<rparr>])
                            else Inr (c, []))))"

fun judgeLoop ::
  "lib \<Rightarrow> 'w deps \<Rightarrow> reconcileRead \<Rightarrow> 'w \<Rightarrow> wgKey list \<Rightarrow> wgPeer list \<Rightarrow> accessController \<Rightarrow> peerRemoval list
   \<Rightarrow> accessError option \<times> accessController \<times> peerRemoval list" where
  "judgeLoop L D rd w unauthorized [] c removals = (None, c, removals)"
| "judgeLoop L D rd w unauthorized (p # ps) c removals =
     (case judgePeer L D rd w unauthorized c p of
        Inl e \<Rightarrow> (Some e, c, removals)
      | Inr (c', new) \<Rightarrow> judgeLoop L D rd w unauthorized ps c' (removals @ new))"

text \<open>The two pruning loops: peers that are not on the device and were not seen for 48 hours,
  then quotas that no peer refers to.\<close>

definition expiredPeer :: "reconcileRead \<Rightarrow> wgKey \<Rightarrow> accessPeerState \<Rightarrow> bool" where
  "expiredPeer rd k r \<longleftrightarrow> k \<notin> set (map PublicKey (rPeers rd)) \<and> Sub (rNow rd) (LastSeen r) \<ge> peerStateRetention"

definition prunePeers :: "reconcileRead \<Rightarrow> accessController \<Rightarrow> accessController" where
  "prunePeers rd c =
     c\<lparr>peers := keep (\<lambda>k r. \<not> expiredPeer rd k r) (peers c),
       runtime := keep (\<lambda>k rt. \<not> (case map_of (peers c) k of None \<Rightarrow> False | Some r \<Rightarrow> expiredPeer rd k r)) (runtime c)\<rparr>"

definition referencedOwners :: "lib \<Rightarrow> accessController \<Rightarrow> string list" where
  "referencedOwners L c = map (\<lambda>(k, r). recordOwner L k r) (peers c)"

definition pruneQuotas :: "lib \<Rightarrow> reconcileRead \<Rightarrow> accessController \<Rightarrow> accessController" where
  "pruneQuotas L rd c =
     c\<lparr>quotas := keep (\<lambda>owner q. \<not> (owner \<notin> set (referencedOwners L c)
         \<and> Sub (rNow rd) (QLastSeen q) \<ge> peerStateRetention \<and> \<not> Before (rNow rd) (BlockedUntil q))) (quotas c)\<rparr>"

fun removeLoop ::
  "'w deps \<Rightarrow> peerRemoval list \<Rightarrow> accessController \<Rightarrow> 'w \<Rightarrow> accessController \<times> 'w" where
  "removeLoop D [] c w = (c, w)"
| "removeLoop D (rm # rms) c w =
     (case RemovePeer D (remKey rm) w of
        (Some err, w') \<Rightarrow> removeLoop D rms c w'
      | (None, w') \<Rightarrow> removeLoop D rms (c\<lparr>runtime := del (runtime c) (remKey rm)\<rparr>) w')"

text \<open>The controller \<open>reconcile\<close> persists, and the removals it then carries out.\<close>

definition reconcilePlan ::
  "lib \<Rightarrow> 'w deps \<Rightarrow> reconcileRead \<Rightarrow> accessController \<Rightarrow> 'w
   \<Rightarrow> accessError option \<times> accessController \<times> peerRemoval list" where
  "reconcilePlan L D rd c w =
     (case accountLoop L D rd w (rPeers rd) c [] of
        (Some e, c1, _) \<Rightarrow> (Some e, c1, [])
      | (None, c1, unauthorized) \<Rightarrow>
          (case judgeLoop L D rd w unauthorized (rPeers rd) (blockLoop L rd c1)
                  (map (\<lambda>k. \<lparr>remKey = k, reason = ''unauthorized''\<rparr>) unauthorized) of
             (Some e, c2, _) \<Rightarrow> (Some e, c2, [])
           | (None, c2, removals) \<Rightarrow> (None, pruneQuotas L rd (prunePeers rd c2), removals)))"

definition reconcileLocked ::
  "lib \<Rightarrow> 'w deps \<Rightarrow> reconcileRead \<Rightarrow> accessController \<Rightarrow> 'w
   \<Rightarrow> accessError option \<times> accessController \<times> 'w" where
  "reconcileLocked L D rd c w =
     (case stateErr c of
        Some e \<Rightarrow> (Some e, c, w)
      | None \<Rightarrow>
          (case reconcilePlan L D rd c w of
             (Some e, c1, _) \<Rightarrow> (Some e, c1, w)
           | (None, c1, removals) \<Rightarrow>
               (case persistLocked L D c1 w of
                  (Some e, c2, w2) \<Rightarrow> (Some e, c2, w2)
                | (None, c2, w2) \<Rightarrow>
                    let (c3, w3) = removeLoop D removals c2 w2 in (None, c3, w3))))"

definition readForReconcile :: "'w deps \<Rightarrow> 'w \<Rightarrow> accessError + reconcileRead" where
  "readForReconcile D w =
     (case Snapshot D w of
        Inl err \<Rightarrow> Inl (errSnapshot err)
      | Inr ps \<Rightarrow>
          Inr \<lparr>rPeers = ps, rNow = nowTime D w, rLimit = quotaBytes D w,
               rSecretMode = (authSecret D w \<noteq> []), rRevoked = readRevocations D w\<rparr>)"

definition reconcile ::
  "lib \<Rightarrow> 'w deps \<Rightarrow> accessController \<Rightarrow> 'w \<Rightarrow> accessError option \<times> accessController \<times> 'w" where
  "reconcile L D c w =
     (case readForReconcile D w of
        Inl e \<Rightarrow> (Some e, c, w)
      | Inr rd \<Rightarrow> reconcileLocked L D rd c w)"

end
