(* ===== verification/AccessInvariant.thy ===== *)
theory AccessInvariant
  imports AccessController
begin

text \<open>
  Every operation of the access controller keeps the invariant \<open>wfc\<close>, on each of its exits. The
  hypotheses are about the outside: the clock shows a time after the zero time with a
  four-digit year, a hash is not empty, and the device reports counters in the range of
  \<open>int64\<close> and endpoints with a non-empty text form.
\<close>

definition okTime :: "lib \<Rightarrow> time \<Rightarrow> bool" where
  "okTime L t \<longleftrightarrow> t \<noteq> 0 \<and> fourDigitYear (Local L) t"

definition okHash :: "lib \<Rightarrow> bool" where
  "okHash L \<longleftrightarrow> (\<forall>s. sha256 L s \<noteq> [])"

definition okPeer :: "wgPeer \<Rightarrow> bool" where
  "okPeer p \<longleftrightarrow> 0 \<le> ReceiveBytes p \<and> ReceiveBytes p \<le> MaxInt64 \<and> 0 \<le> TransmitBytes p \<and> TransmitBytes p \<le> MaxInt64
     \<and> PEndpoint p \<noteq> Some []"

section \<open>The invariant, entry by entry\<close>

lemma wf_iff:
  "wfc L c \<longleftrightarrow> wfMaps c
     \<and> (\<forall>k r. map_of (peers c) k = Some r \<longrightarrow> validPeer r \<and> map_of (quotas c) (recordOwner L k r) \<noteq> None)
     \<and> (\<forall>owner q. map_of (quotas c) owner = Some q \<longrightarrow> owner \<noteq> [] \<and> validQuota q)
     \<and> (\<forall>ip n. map_of (issueCounts c) ip = Some n \<longrightarrow> 0 \<le> n)
     \<and> (\<forall>k rt. map_of (runtime c) k = Some rt \<longrightarrow>
           0 \<le> lastRx rt \<and> lastRx rt \<le> MaxInt64 \<and> 0 \<le> lastTx rt \<and> lastTx rt \<le> MaxInt64)"
proof (cases "wfMaps c")
  case True
  then show ?thesis
    by (simp add: wfc_def wfPeers_def wfQuotas_def wfCounts_def wfRuntime_def wfMaps_def list_all_wfm)
qed (simp add: wfc_def)

lemma wf_maps:
  assumes "wfc L c"
  shows "wfm (peers c)" "wfm (quotas c)" "wfm (runtime c)" "wfm (issueCounts c)"
  using assms by (simp_all add: wfc_def wfMaps_def)

lemma wf_peerD:
  assumes "wfc L c" and "map_of (peers c) k = Some r"
  shows "validPeer r" and "\<exists>q. map_of (quotas c) (recordOwner L k r) = Some q"
  using assms by (auto simp: wf_iff)

lemma wf_quotaD: "wfc L c \<Longrightarrow> map_of (quotas c) owner = Some q \<Longrightarrow> validQuota q"
  by (auto simp: wf_iff)

lemma wf_ownerD: "wfc L c \<Longrightarrow> map_of (quotas c) owner = Some q \<Longrightarrow> owner \<noteq> []"
  by (simp only: wf_iff) blast

lemma wf_runtimeD:
  "wfc L c \<Longrightarrow> map_of (runtime c) k = Some rt \<Longrightarrow>
   0 \<le> lastRx rt \<and> lastRx rt \<le> MaxInt64 \<and> 0 \<le> lastTx rt \<and> lastTx rt \<le> MaxInt64"
  by (auto simp: wf_iff)

text \<open>The invariant depends on the contents of the maps, not on the other fields.\<close>

lemma wf_cong:
  assumes "wfc L c" and "wfMaps c'"
    and "map_of (peers c') = map_of (peers c)" and "map_of (quotas c') = map_of (quotas c)"
    and "map_of (runtime c') = map_of (runtime c)" and "map_of (issueCounts c') = map_of (issueCounts c)"
  shows "wfc L c'"
  using assms by (simp add: wf_iff)

lemma wf_scalars [simp]:
  "wfc L (c\<lparr>stateErr := e\<rparr>) \<longleftrightarrow> wfc L c"
  "wfc L (c\<lparr>failures := f\<rparr>) \<longleftrightarrow> wfc L c"
  "wfc L (c\<lparr>issueWindow := t\<rparr>) \<longleftrightarrow> wfc L c"
  by (simp_all add: wf_iff wfMaps_def)

lemma wf_put_quota:
  "wfc L c \<Longrightarrow> validQuota q \<Longrightarrow> owner \<noteq> [] \<Longrightarrow> wfc L (c\<lparr>quotas := put (quotas c) owner q\<rparr>)"
  by (auto simp: wf_iff wfMaps_def)

lemma wf_put_peer:
  "wfc L c \<Longrightarrow> validPeer r \<Longrightarrow> map_of (quotas c) (recordOwner L k r) \<noteq> None \<Longrightarrow>
   wfc L (c\<lparr>peers := put (peers c) k r\<rparr>)"
  by (auto simp: wf_iff wfMaps_def)

lemma wf_put_runtime:
  "wfc L c \<Longrightarrow> 0 \<le> lastRx rt \<Longrightarrow> lastRx rt \<le> MaxInt64 \<Longrightarrow> 0 \<le> lastTx rt \<Longrightarrow> lastTx rt \<le> MaxInt64 \<Longrightarrow>
   wfc L (c\<lparr>runtime := put (runtime c) k rt\<rparr>)"
  by (auto simp: wf_iff wfMaps_def)

lemma wf_del_runtime: "wfc L c \<Longrightarrow> wfc L (c\<lparr>runtime := del (runtime c) k\<rparr>)"
  by (auto simp: wf_iff wfMaps_def)

lemma wf_put_count: "wfc L c \<Longrightarrow> 0 \<le> n \<Longrightarrow> wfc L (c\<lparr>issueCounts := put (issueCounts c) ip n\<rparr>)"
  by (auto simp: wf_iff wfMaps_def)

lemma wf_clear_counts: "wfc L c \<Longrightarrow> wfc L (c\<lparr>issueCounts := []\<rparr>)"
  by (auto simp: wf_iff wfMaps_def)

lemma wf_newAccessController: "wfc L newAccessController"
  by (simp add: wf_iff wfMaps_def newAccessController_def)

lemma wf_touchRuntime: "wfc L c \<Longrightarrow> wfc L (touchRuntime c k now)"
  unfolding touchRuntime_def
  by (rule wf_put_runtime) (auto dest: wf_runtimeD split: option.splits simp: MaxInt64_def)

lemma validPeer_clear: "validPeer r \<Longrightarrow> validPeer (r\<lparr>Endpoint := [], EndpointSeenAt := 0\<rparr>)"
  by (simp add: validPeer_def)

lemma clearEndpoint_simps [simp]:
  "peers (clearEndpoint c k r) = put (peers c) k (r\<lparr>Endpoint := [], EndpointSeenAt := 0\<rparr>)"
  "quotas (clearEndpoint c k r) = quotas c"
  "runtime (clearEndpoint c k r) = runtime c"
  "issueCounts (clearEndpoint c k r) = issueCounts c"
  "issueWindow (clearEndpoint c k r) = issueWindow c"
  "stateErr (clearEndpoint c k r) = stateErr c"
  by (simp_all add: clearEndpoint_def)

lemma wf_clearEndpoint:
  "wfc L c \<Longrightarrow> map_of (peers c) k = Some r \<Longrightarrow> wfc L (clearEndpoint c k r)"
  unfolding clearEndpoint_def
  by (rule wf_put_peer) (auto dest: wf_peerD simp: validPeer_clear)

lemma wf_rollIssueWindow: "wfc L c \<Longrightarrow> wfc L (rollIssueWindow now window c)"
  using wf_clear_counts [of L "c\<lparr>issueWindow := now\<rparr>"] by (simp add: rollIssueWindow_def)

section \<open>Persisting and rolling back\<close>

lemma persistLocked_wf:
  "persistLocked L D c w = (e, c', w') \<Longrightarrow> wfc L c \<Longrightarrow> wfc L c'"
  by (auto simp: persistLocked_def Let_def split: option.splits prod.splits)

lemma persistLocked_maps:
  assumes "persistLocked L D c w = (e, c', w')"
  shows "peers c' = peers c" and "quotas c' = quotas c" and "runtime c' = runtime c"
    and "issueCounts c' = issueCounts c" and "issueWindow c' = issueWindow c"
  using assms by (auto simp: persistLocked_def Let_def split: option.splits prod.splits)

lemma persistLocked_None:
  "persistLocked L D c w = (None, c', w') \<longleftrightarrow>
   stateErr c = None \<and> c' = c \<and> SaveState D (diskStateLocked L c) w = (None, w')"
  by (auto simp: persistLocked_def Let_def split: option.splits prod.splits)

lemma persistLocked_Some:
  "persistLocked L D c w = (Some e, c', w') \<Longrightarrow> stateErr c' = Some e"
  by (auto simp: persistLocked_def Let_def split: option.splits prod.splits)

text \<open>
  \<open>admitPeer\<close> undoes its two stores with \<open>restoreRecordLocked\<close> and \<open>restoreQuotaLocked\<close>: the maps
  have the contents they had.
\<close>

lemma rollback_maps:
  assumes "peers c2 = put (peers c) k r" and "quotas c2 = put (quotas c) owner q"
  defines "c3 \<equiv> restoreQuotaLocked (restoreRecordLocked c2 k (map_of (peers c) k)) owner (map_of (quotas c) owner)"
  shows "map_of (peers c3) = map_of (peers c)" and "map_of (quotas c3) = map_of (quotas c)"
    and "runtime c3 = runtime c2" and "issueCounts c3 = issueCounts c2" and "issueWindow c3 = issueWindow c2"
    and "stateErr c3 = stateErr c2" and "failures c3 = failures c2"
    and "wfm (peers c) \<Longrightarrow> wfm (peers c3)" and "wfm (quotas c) \<Longrightarrow> wfm (quotas c3)"
  using assms(1,2) unfolding c3_def
  by (auto simp: restoreQuotaLocked_def restoreRecordLocked_def fun_eq_iff split: option.splits)

lemma rollback_wf:
  assumes "wfc L c" and "peers c2 = put (peers c) k r" and "quotas c2 = put (quotas c) owner q"
    and "runtime c2 = runtime c" and "issueCounts c2 = issueCounts c"
  shows "wfc L (restoreQuotaLocked (restoreRecordLocked c2 k (map_of (peers c) k)) owner (map_of (quotas c) owner))"
  using assms(1)
  by (rule wf_cong) (use rollback_maps [OF assms(2,3)] assms(4,5) wf_maps [OF assms(1)] in \<open>simp_all add: wfMaps_def\<close>)

section \<open>Registering\<close>

lemma authGeneration_nonempty: "okHash L \<Longrightarrow> s \<noteq> [] \<Longrightarrow> authGeneration L s \<noteq> []"
  by (cases "sha256 L s") (auto simp: authGeneration_def okHash_def)

text \<open>A credential that passed the mode check names an owner the invariant allows.\<close>

lemma credentialMatches_valid:
  assumes "credentialMatchesCurrentModeLocked L D w cr" and "okHash L"
  shows "keyID cr \<noteq> []" and "keyID cr = ''open'' \<longleftrightarrow> authGen cr = []"
  using assms authGeneration_nonempty [OF assms(2)]
  by (auto simp: credentialMatchesCurrentModeLocked_def Let_def split: if_splits)

lemma storeAdmitted_wf:
  assumes wf: "wfc L c" and cr: "keyID cr \<noteq> []" "keyID cr = ''open'' \<longleftrightarrow> authGen cr = []"
    and q: "validQuota quota" and now: "now \<noteq> 0"
  shows "wfc L (storeAdmitted c peer cr now (quotaOwner L peer (keyID cr) (authGen cr)) quota)"
proof -
  define owner where "owner = quotaOwner L peer (keyID cr) (authGen cr)"
  define c0 where "c0 = c\<lparr>quotas := put (quotas c) owner (quota\<lparr>QLastSeen := now\<rparr>)\<rparr>"
  have r: "validPeer (admittedRecord c peer cr now)"
    using cr now wf_peerD(1) [OF wf] by (auto simp: admittedRecord_def validPeer_def split: option.splits)
  have "wfc L c0"
    unfolding c0_def using wf q now by (intro wf_put_quota) (simp_all add: validQuota_def owner_def)
  then have "wfc L (c0\<lparr>peers := put (peers c0) peer (admittedRecord c peer cr now)\<rparr>)"
    using r by (rule wf_put_peer) (simp add: c0_def owner_def admittedRecord_def)
  moreover have "c0\<lparr>peers := put (peers c0) peer (admittedRecord c peer cr now)\<rparr> = storeAdmitted c peer cr now owner quota"
    by (simp add: c0_def storeAdmitted_def)
  ultimately show ?thesis by (simp add: owner_def)
qed

text \<open>The exits of \<open>admitPeer\<close>: saved and added; not saved; not added and rolled back; not added and
  kept, because the device could not be cleaned up.\<close>

lemma admitPeer_cases:
  assumes "admitPeer L D c w peer cr now owner quota = (res, c', w')"
  defines "c1 \<equiv> storeAdmitted c peer cr now owner quota"
  obtains
    (added) w2 where "SaveState D (diskStateLocked L c1) w = (None, w2)" and "stateErr c = None"
      and "AddPeer D peer [] w2 = (None, w')" and "c' = touchRuntime c1 peer now" and "res = (cr, None)"
  | (unsaved) e c2 where "persistLocked L D c1 w = (Some e, c2, w')" and "res = (cr, Some e)"
      and "c' = restoreQuotaLocked (restoreRecordLocked c2 peer (map_of (peers c) peer)) owner (map_of (quotas c) owner)"
  | (dirty) w2 w3 err cleanup where "SaveState D (diskStateLocked L c1) w = (None, w2)" and "stateErr c = None"
      and "AddPeer D peer [] w2 = (Some err, w3)" and "RemovePeer D peer w3 = (Some cleanup, w')"
      and "c' = touchRuntime c1 peer now" and "res = (cr, Some (errAddPeer err (Some cleanup)))"
  | (cleaned) w2 w3 w4 err c3 e where "SaveState D (diskStateLocked L c1) w = (None, w2)" and "stateErr c = None"
      and "AddPeer D peer [] w2 = (Some err, w3)" and "RemovePeer D peer w3 = (None, w4)"
      and "c3 = restoreQuotaLocked (restoreRecordLocked c1 peer (map_of (peers c) peer)) owner (map_of (quotas c) owner)"
      and "persistLocked L D (c3\<lparr>runtime := del (runtime c3) peer\<rparr>) w4 = (e, c', w')"
      and "res = (cr, Some (case e of None \<Rightarrow> errAddPeer err None | Some e \<Rightarrow> e))"
proof -
  have se: "stateErr c1 = stateErr c" by (simp add: c1_def storeAdmitted_def)
  obtain e2 c2 w2 where p: "persistLocked L D c1 w = (e2, c2, w2)" by (metis prod_cases3)
  show thesis
  proof (cases e2)
    case (Some e)
    with assms(1) p show thesis
      unfolding admitPeer_def Let_def c1_def [symmetric] by (intro unsaved) auto
  next
    case None
    then have p': "stateErr c = None" "c2 = c1" "SaveState D (diskStateLocked L c1) w = (None, w2)"
      using p se by (auto simp: persistLocked_None)
    obtain a w3 where add: "AddPeer D peer [] w2 = (a, w3)" by (metis surj_pair)
    obtain b w4 where rem: "RemovePeer D peer w3 = (b, w4)" by (metis surj_pair)
    show thesis
    proof (cases a)
      case None
      with assms(1) p \<open>e2 = None\<close> add p' show thesis
        unfolding admitPeer_def Let_def c1_def [symmetric] by (intro added [of w2]) auto
    next
      case (Some err)
      show thesis
      proof (cases b)
        case None
        with assms(1) p \<open>e2 = None\<close> Some add rem p' show thesis
          unfolding admitPeer_def Let_def c1_def [symmetric]
          by (auto split: prod.splits option.splits intro: cleaned)
      next
        case (Some cleanup)
        with assms(1) p \<open>e2 = None\<close> \<open>a = Some err\<close> add rem p' show thesis
          unfolding admitPeer_def Let_def c1_def [symmetric] by (intro dirty [of w2 err w3 cleanup]) auto
      qed
    qed
  qed
qed

lemma admitPeer_wf:
  assumes "admitPeer L D c w peer cr now owner quota = (res, c', w')"
    and wf: "wfc L c" and "keyID cr \<noteq> []" "keyID cr = ''open'' \<longleftrightarrow> authGen cr = []"
    and owner: "owner = quotaOwner L peer (keyID cr) (authGen cr)"
    and "validQuota quota" and "now \<noteq> 0"
  shows "wfc L c'"
proof -
  have c1: "wfc L (storeAdmitted c peer cr now owner quota)"
    unfolding owner using assms by (intro storeAdmitted_wf)
  have rolled: "wfc L (restoreQuotaLocked (restoreRecordLocked c2 peer (map_of (peers c) peer)) owner (map_of (quotas c) owner))"
    if "peers c2 = peers (storeAdmitted c peer cr now owner quota)" "quotas c2 = quotas (storeAdmitted c peer cr now owner quota)"
      "runtime c2 = runtime c" "issueCounts c2 = issueCounts c" for c2
    using wf by (rule rollback_wf) (use that in \<open>simp_all add: storeAdmitted_def\<close>)
  from assms(1) show ?thesis
  proof (cases rule: admitPeer_cases)
    case added
    then show ?thesis using c1 by (simp add: wf_touchRuntime)
  next
    case (unsaved e c2)
    then show ?thesis
      using rolled [of c2] persistLocked_maps [OF unsaved(1)] by (simp add: storeAdmitted_def)
  next
    case dirty
    then show ?thesis using c1 by (simp add: wf_touchRuntime)
  next
    case (cleaned w2 w3 w4 err c3 e)
    have "wfc L c3" unfolding cleaned(5) by (rule rolled) (simp_all add: storeAdmitted_def)
    then show ?thesis using persistLocked_wf [OF cleaned(6)] by (simp add: wf_del_runtime)
  qed
qed

lemma fetchQuota_valid: "wfc L c \<Longrightarrow> okTime L now \<Longrightarrow> validQuota (fetchQuota L (quotas c) owner now)"
  unfolding fetchQuota_def
  by (rule validQuota_normalize)
    (auto simp: okTime_def validQuota_def ParseDateOnly_Format MaxInt64_def dest: wf_quotaD split: option.splits)

text \<open>\<open>registerPeer\<close> either refuses, and then nothing has changed, or it passed every guard.\<close>

lemma registerPeer_cases:
  assumes "registerPeer L D c w peer reqKey = (res, c', w')"
  obtains
    (refused) e where "snd res = Some e" and "c' = c" and "w' = w"
  | (admitted) cr owner quota where "stateErr c = None" and "authorizeLocked L D w reqKey = (cr, None)"
      and "credentialMatchesCurrentModeLocked L D w cr"
      and "owner = quotaOwner L peer (keyID cr) (authGen cr)"
      and "quota = fetchQuota L (quotas c) owner (nowTime D w)"
      and "\<not> Before (nowTime D w) (BlockedUntil quota)"
      and "quotaBytes D w > 0 \<Longrightarrow> UsedBytes quota \<le> quotaBytes D w"
      and "keyID cr \<noteq> ''open'' \<Longrightarrow> keyID cr \<noteq> ''shared'' \<Longrightarrow> activePeers L c peer owner < maxActivePeersPerIssuedKey"
      and "admitPeer L D c w peer cr (nowTime D w) owner quota = (res, c', w')"
proof (cases "stateErr c")
  case (Some e)
  with assms show thesis by (intro refused) (auto simp: registerPeer_def)
next
  case None
  obtain cr a where auth: "authorizeLocked L D w reqKey = (cr, a)" by (metis surj_pair)
  define owner where "owner = quotaOwner L peer (keyID cr) (authGen cr)"
  define quota where "quota = fetchQuota L (quotas c) owner (nowTime D w)"
  show thesis
  proof (cases "a = None \<and> credentialMatchesCurrentModeLocked L D w cr
      \<and> \<not> (Before (nowTime D w) (BlockedUntil quota) \<or> quotaBytes D w > 0 \<and> UsedBytes quota > quotaBytes D w)
      \<and> \<not> (keyID cr \<noteq> ''open'' \<and> keyID cr \<noteq> ''shared'' \<and> activePeers L c peer owner \<ge> maxActivePeersPerIssuedKey)")
    case True
    with assms None auth show thesis
      by (intro admitted [of cr owner quota])
        (auto simp: registerPeer_def Let_def owner_def [symmetric] quota_def [symmetric])
  next
    case False
    with assms None auth have "snd res \<noteq> None \<and> c' = c \<and> w' = w"
      by (auto simp: registerPeer_def Let_def owner_def [symmetric] quota_def [symmetric]
          split: option.splits if_splits) (metis snd_conv)
    then show thesis using refused by auto
  qed
qed

lemma registerPeer_wf:
  assumes "registerPeer L D c w peer reqKey = (res, c', w')"
    and "wfc L c" and "okTime L (nowTime D w)" and "okHash L"
  shows "wfc L c'"
  using assms(1)
proof (cases rule: registerPeer_cases)
  case (admitted cr owner quota)
  note cr = credentialMatches_valid [OF admitted(3) assms(4)]
  show ?thesis
    using admitted(9) assms(2) cr admitted(4)
  proof (rule admitPeer_wf)
    show "validQuota quota" using assms(2,3) by (simp add: admitted(5) fetchQuota_valid)
    show "nowTime D w \<noteq> 0" using assms(3) by (simp add: okTime_def)
  qed
qed (use assms(2) in simp)

section \<open>Issuing\<close>

lemma issueAuthKeyLocked_wf:
  assumes "issueAuthKeyLocked L D secret key ip maxPerIP window c w = (res, c', w')" and "wfc L c"
  shows "wfc L c'"
proof -
  define c1 where "c1 = rollIssueWindow (nowTime D w) window c"
  define count where "count = issueCount c1 ip"
  define c2 where "c2 = c1\<lparr>issueCounts := put (issueCounts c1) ip (count + 1)\<rparr>"
  have c1: "wfc L c1" using assms(2) by (simp add: c1_def wf_rollIssueWindow)
  then have n: "0 \<le> count" by (auto simp: count_def issueCount_def wf_iff split: option.splits)
  with c1 have c2: "wfc L c2" by (simp add: c2_def wf_put_count)
  obtain e c3 w3 where p: "persistLocked L D c2 w = (e, c3, w3)" by (metis prod_cases3)
  have c3: "wfc L c3" using persistLocked_wf [OF p c2] .
  show ?thesis
    using assms c1 c3 n wf_put_count [OF c3 n, of ip] p
    by (auto simp: issueAuthKeyLocked_def Let_def c1_def [symmetric] count_def [symmetric] c2_def [symmetric]
        split: option.splits if_splits)
qed

section \<open>Restoring\<close>

lemma quota_step_wf:
  assumes "wfc L c" and "okTime L now" and "map_of (quotas c) owner = Some q0"
  shows "wfc L (c\<lparr>quotas := put (quotas c) owner ((normalizeQuotaState L q0 now)\<lparr>BlockedUntil := t\<rparr>)\<rparr>)"
    and "wfc L (c\<lparr>quotas := put (quotas c) owner (normalizeQuotaState L q0 now)\<rparr>)"
proof -
  have "owner \<noteq> []" and "validQuota (normalizeQuotaState L q0 now)"
    using assms by (auto simp: wf_iff okTime_def intro: validQuota_normalize)
  then show "wfc L (c\<lparr>quotas := put (quotas c) owner ((normalizeQuotaState L q0 now)\<lparr>BlockedUntil := t\<rparr>)\<rparr>)"
    and "wfc L (c\<lparr>quotas := put (quotas c) owner (normalizeQuotaState L q0 now)\<rparr>)"
    using assms(1) by (auto intro!: wf_put_quota simp: validQuota_def)
qed

lemma wf_fresh_runtime: "wfc L c \<Longrightarrow> wfc L (c\<lparr>runtime := put (runtime c) k \<lparr>lastRx = 0, lastTx = 0, addedAt = now\<rparr>\<rparr>)"
  by (rule wf_put_runtime) (simp_all add: MaxInt64_def)

definition restoreStepOk :: "lib \<Rightarrow> accessController \<Rightarrow> wgKey \<Rightarrow> accessError + bool \<times> accessController \<times> 'w \<Rightarrow> bool" where
  "restoreStepOk L c peer res \<longleftrightarrow>
     (case res of Inl _ \<Rightarrow> False
      | Inr (ch, c1, w1) \<Rightarrow> wfc L c1 \<and> (\<forall>k. k \<noteq> peer \<longrightarrow> map_of (peers c1) k = map_of (peers c) k))"

lemma restoreOne_wf:
  assumes "wfc L c" and "map_of (peers c) peer = Some r" and "okTime L now"
  shows "restoreStepOk L c peer (restoreOne L D now limit revs peer r c w)"
proof (cases "restorable now r")
  case False
  with assms wf_clearEndpoint [OF assms(1,2)] show ?thesis
    by (simp add: restoreOne_def restoreStepOk_def)
next
  case True
  obtain q0 where q0: "map_of (quotas c) (recordOwner L peer r) = Some q0"
    using wf_peerD(2) [OF assms(1,2)] by blast
  define quota where "quota = restoreQuota L now limit q0"
  define c1 where "c1 = c\<lparr>quotas := put (quotas c) (recordOwner L peer r) quota\<rparr>"
  have c1: "wfc L c1"
    using quota_step_wf [OF assms(1,3) q0] by (simp add: c1_def quota_def restoreQuota_def Let_def)
  have p1: "peers c1 = peers c" by (simp add: c1_def)
  then have "wfc L (clearEndpoint c1 peer r)"
    using c1 assms(2) by (intro wf_clearEndpoint) simp_all
  then have ok: "restoreStepOk L c peer (Inr (x, c1, y))"
      "restoreStepOk L c peer (Inr (x, clearEndpoint c1 peer r, y))"
      "restoreStepOk L c peer (Inr (x, c1\<lparr>runtime := put (runtime c1) peer \<lparr>lastRx = 0, lastTx = 0, addedAt = now\<rparr>\<rparr>, y))"
      for x and y :: 'a
    using c1 p1 by (simp_all add: restoreStepOk_def wf_fresh_runtime)
  show ?thesis
    unfolding restoreOne_def Let_def q0 option.case quota_def [symmetric] c1_def [symmetric]
    using True by (simp add: ok split: sum.split prod.split option.split)
qed

lemma restoreLoop_wf:
  assumes "wfc L c" and "wfm es" and "\<forall>(k, r)\<in>set es. map_of (peers c) k = Some r" and "okTime L now"
    and "restoreLoop L D now limit revs es changed c w = (e, ch, c', w')"
  shows "wfc L c' \<and> e = None"
  using assms
proof (induction es arbitrary: changed c w)
  case (Cons en es)
  obtain k r where en: "en = (k, r)" by (cases en)
  have k: "map_of (peers c) k = Some r" using Cons.prems(3) by (simp add: en)
  obtain ch1 c1 w1 where one: "restoreOne L D now limit revs k r c w = Inr (ch1, c1, w1)" "wfc L c1"
      "\<And>k'. k' \<noteq> k \<Longrightarrow> map_of (peers c1) k' = map_of (peers c) k'"
    using restoreOne_wf [OF Cons.prems(1) k Cons.prems(4), of D limit revs w]
    by (auto simp: restoreStepOk_def split: sum.splits)
  have "map_of (peers c1) k' = Some r'" if m: "(k', r') \<in> set es" for k' r'
  proof -
    have "k' \<noteq> k" using m Cons.prems(2) by (force simp: wfm_def en)
    moreover have "map_of (peers c) k' = Some r'" using m Cons.prems(3) by auto
    ultimately show ?thesis using one(3) by simp
  qed
  then have "\<forall>(k', r')\<in>set es. map_of (peers c1) k' = Some r'" by auto
  moreover have "wfm es" using Cons.prems(2) by (simp add: wfm_def)
  ultimately show ?case
    using Cons.IH [OF one(2)] Cons.prems(4,5) one(1) by (simp add: en)
qed simp

lemma restorePeersLocked_wf:
  assumes "restorePeersLocked L D now limit revs c w = (e, c', w')" and "wfc L c" and "okTime L now"
  shows "wfc L c'" and "stateErr c = None \<Longrightarrow> e \<noteq> None \<Longrightarrow> stateErr c' = e"
proof -
  obtain e1 ch c1 w1 where lp: "restoreLoop L D now limit revs (peers c) False c w = (e1, ch, c1, w1)"
    by (metis prod_cases4)
  have "wfc L c1 \<and> e1 = None"
    using assms(2) wf_maps(1) [OF assms(2)] _ assms(3) lp
    by (rule restoreLoop_wf) (use wf_maps(1) [OF assms(2)] in \<open>auto simp: wfm_map_of\<close>)
  with lp assms show "wfc L c'" and "stateErr c = None \<Longrightarrow> e \<noteq> None \<Longrightarrow> stateErr c' = e"
    by (auto simp: restorePeersLocked_def split: option.splits if_splits dest: persistLocked_wf persistLocked_Some)
qed

section \<open>Reconciling\<close>

lemma observeEndpoint_simps [simp]:
  "KeyID (observeEndpoint now p added r) = KeyID r"
  "AuthGeneration (observeEndpoint now p added r) = AuthGeneration r"
  "CreatedAt (observeEndpoint now p added r) = CreatedAt r"
  "LastSeen (observeEndpoint now p added r) = LastSeen r"
  by (simp_all add: observeEndpoint_def)

lemma validPeer_observe: "validPeer r \<Longrightarrow> validPeer (observeEndpoint now p added r)"
  by (auto simp: observeEndpoint_def validPeer_def IsZero_def)

lemma counterDelta_range:
  assumes "0 \<le> a" "a \<le> MaxInt64" "0 \<le> b" "b \<le> MaxInt64"
  shows "counterDelta a b = (if b \<le> a then a - b else a)"
    and "0 \<le> counterDelta a b" and "counterDelta a b \<le> MaxInt64"
proof -
  have "wrap64 (a - b) = a - b"
    using assms by (intro wrap64_id) (simp add: int64_def MinInt64_def MaxInt64_def)
  then show "counterDelta a b = (if b \<le> a then a - b else a)"
    by (auto simp: counterDelta_def Let_def)
  then show "0 \<le> counterDelta a b" and "counterDelta a b \<le> MaxInt64" using assms by auto
qed

definition usageDelta :: "accessController \<Rightarrow> wgPeer \<Rightarrow> time \<Rightarrow> int \<times> int" where
  "usageDelta c p now =
     (let rt = accountedRuntime c p now
      in (counterDelta (ReceiveBytes p) (lastRx rt), counterDelta (TransmitBytes p) (lastTx rt)))"

definition accounted :: "lib \<Rightarrow> reconcileRead \<Rightarrow> accessController \<Rightarrow> wgPeer \<Rightarrow> accessController" where
  "accounted L rd c p =
     (let pk = PublicKey p; now = rNow rd; r = accountedRecord c p now; rt = accountedRuntime c p now;
          owner = recordOwner L pk r; q = fetchQuota L (quotas c) owner now; (drx, dtx) = usageDelta c p now
      in c\<lparr>peers := put (peers c) pk (observeEndpoint now p (addedAt rt) (r\<lparr>LastSeen := now\<rparr>)),
           quotas := put (quotas c) owner
             (q\<lparr>UsedBytes := addUsage (addUsage (UsedBytes q) drx) dtx, QLastSeen := now\<rparr>),
           runtime := put (runtime c) pk (rt\<lparr>lastRx := ReceiveBytes p, lastTx := TransmitBytes p\<rparr>)\<rparr>)"

text \<open>A device peer without a record, in a mode that requires credentials.\<close>

definition intruder :: "'w deps \<Rightarrow> reconcileRead \<Rightarrow> 'w \<Rightarrow> accessController \<Rightarrow> wgPeer \<Rightarrow> bool" where
  "intruder D rd w c p \<longleftrightarrow> map_of (peers c) (PublicKey p) = None \<and> (rSecretMode rd \<or> legacyKey D w \<noteq> [])"

lemma accountPeer_eq:
  assumes "wfc L c"
  shows "accountPeer L D rd w c p = (if intruder D rd w c p then Inr (c, True) else Inr (accounted L rd c p, False))"
proof (cases "intruder D rd w c p")
  case False
  define r where "r = accountedRecord c p (rNow rd)"
  have "map_of (quotas c) (recordOwner L (PublicKey p) r) = None \<Longrightarrow> KeyID r = ''open''"
    using wf_peerD(2) [OF assms, of "PublicKey p" r]
    by (cases "map_of (peers c) (PublicKey p)") (auto simp: r_def accountedRecord_def)
  with False show ?thesis
    by (auto simp: accountPeer_def intruder_def accounted_def usageDelta_def Let_def r_def [symmetric])
qed (auto simp: accountPeer_def intruder_def)

lemma accountedRuntime_range:
  assumes "wfc L c"
  shows "0 \<le> lastRx (accountedRuntime c p now)" "lastRx (accountedRuntime c p now) \<le> MaxInt64"
    "0 \<le> lastTx (accountedRuntime c p now)" "lastTx (accountedRuntime c p now) \<le> MaxInt64"
  using wf_runtimeD [OF assms] by (auto simp: accountedRuntime_def MaxInt64_def split: option.splits)

lemma usageDelta_range:
  assumes "wfc L c" and "okPeer p"
  shows "0 \<le> fst (usageDelta c p now)" "fst (usageDelta c p now) \<le> MaxInt64"
    "0 \<le> snd (usageDelta c p now)" "snd (usageDelta c p now) \<le> MaxInt64"
  using accountedRuntime_range [OF assms(1)] assms(2)
  by (auto simp: usageDelta_def Let_def okPeer_def intro!: counterDelta_range(2,3))

lemma accounted_wf:
  assumes wf: "wfc L c" and now: "okTime L (rNow rd)" and p: "okPeer p"
  shows "wfc L (accounted L rd c p)"
proof -
  define now where "now = rNow rd"
  define r where "r = accountedRecord c p now"
  define rt where "rt = accountedRuntime c p now"
  define owner where "owner = recordOwner L (PublicKey p) r"
  define q where "q = fetchQuota L (quotas c) owner now"
  define q' where "q' = q\<lparr>UsedBytes := addUsage (addUsage (UsedBytes q) (fst (usageDelta c p now))) (snd (usageDelta c p now)), QLastSeen := now\<rparr>"
  define r' where "r' = observeEndpoint now p (addedAt rt) (r\<lparr>LastSeen := now\<rparr>)"
  define c1 where "c1 = c\<lparr>quotas := put (quotas c) owner q'\<rparr>"
  define c2 where "c2 = c1\<lparr>peers := put (peers c1) (PublicKey p) r'\<rparr>"
  have n: "now \<noteq> 0" "okTime L now" using now by (auto simp: okTime_def now_def)
  have "validQuota q" using fetchQuota_valid [OF wf n(2)] by (simp add: q_def)
  then have "validQuota q'"
    using n usageDelta_range [OF wf p, of now] by (auto simp: q'_def validQuota_def intro!: addUsage_range)
  then have c1: "wfc L c1" using wf by (simp add: c1_def owner_def wf_put_quota)
  have "validPeer r"
    using wf_peerD(1) [OF wf] n by (auto simp: r_def accountedRecord_def validPeer_def split: option.splits)
  then have "validPeer (r\<lparr>LastSeen := now\<rparr>)" using n by (simp add: validPeer_def)
  then have "validPeer r'" by (simp add: r'_def validPeer_observe)
  then have c2: "wfc L c2"
    unfolding c2_def by (intro wf_put_peer c1) (simp_all add: c1_def owner_def r'_def)
  have "wfc L (c2\<lparr>runtime := put (runtime c2) (PublicKey p) (rt\<lparr>lastRx := ReceiveBytes p, lastTx := TransmitBytes p\<rparr>)\<rparr>)"
    using c2 p by (intro wf_put_runtime) (simp_all add: okPeer_def)
  moreover have "c2\<lparr>runtime := put (runtime c2) (PublicKey p) (rt\<lparr>lastRx := ReceiveBytes p, lastTx := TransmitBytes p\<rparr>)\<rparr>
      = accounted L rd c p"
    by (simp add: accounted_def Let_def c2_def c1_def q'_def r'_def q_def owner_def rt_def r_def now_def split_beta)
  ultimately show ?thesis by simp
qed

text \<open>A peer the later loops can judge: it has a record and a runtime entry.\<close>

definition tracked :: "accessController \<Rightarrow> wgKey \<Rightarrow> bool" where
  "tracked c k \<longleftrightarrow> map_of (peers c) k \<noteq> None \<and> map_of (runtime c) k \<noteq> None"

lemma accounted_tracked: "tracked (accounted L rd c p) k \<longleftrightarrow> k = PublicKey p \<or> tracked c k"
  by (auto simp: tracked_def accounted_def Let_def split_beta)

lemma accountLoop_wf:
  assumes "wfc L c" and "okTime L (rNow rd)" and "\<forall>p\<in>set ps. okPeer p"
  shows "\<exists>c1 un1. accountLoop L D rd w ps c un = (None, c1, un1) \<and> wfc L c1 \<and> stateErr c1 = stateErr c
    \<and> set un \<subseteq> set un1 \<and> (\<forall>k. tracked c k \<longrightarrow> tracked c1 k)
    \<and> (\<forall>p\<in>set ps. PublicKey p \<in> set un1 \<or> tracked c1 (PublicKey p))"
  using assms
proof (induction ps arbitrary: c un)
  case (Cons p ps)
  show ?case
  proof (cases "intruder D rd w c p")
    case True
    with Cons.IH [OF Cons.prems(1,2), of "un @ [PublicKey p]"] Cons.prems show ?thesis
      by (auto simp: accountPeer_eq)
  next
    case False
    have "wfc L (accounted L rd c p)" using Cons.prems by (simp add: accounted_wf)
    moreover have "stateErr (accounted L rd c p) = stateErr c" by (simp add: accounted_def Let_def split_beta)
    ultimately show ?thesis
      using False Cons.IH [of "accounted L rd c p" un] Cons.prems
      by (auto simp: accountPeer_eq accounted_tracked)
  qed
qed auto

lemma blockPeer_simps [simp]:
  "peers (blockPeer L rd c p) = peers c" "runtime (blockPeer L rd c p) = runtime c"
  "issueCounts (blockPeer L rd c p) = issueCounts c" "issueWindow (blockPeer L rd c p) = issueWindow c"
  "stateErr (blockPeer L rd c p) = stateErr c"
  by (simp_all add: blockPeer_def Let_def split: option.split)

lemma blockPeer_wf: "wfc L c \<Longrightarrow> wfc L (blockPeer L rd c p)"
  unfolding blockPeer_def Let_def
  by (auto split: option.splits intro!: wf_put_quota dest: wf_quotaD simp: validQuota_def)

lemma blockFold:
  "peers (foldl (blockPeer L rd) c ps) = peers c" "runtime (foldl (blockPeer L rd) c ps) = runtime c"
  "issueCounts (foldl (blockPeer L rd) c ps) = issueCounts c" "issueWindow (foldl (blockPeer L rd) c ps) = issueWindow c"
  "stateErr (foldl (blockPeer L rd) c ps) = stateErr c"
  by (induction ps arbitrary: c) simp_all

lemma blockLoop_simps [simp]:
  "peers (blockLoop L rd c) = peers c" "runtime (blockLoop L rd c) = runtime c"
  "issueCounts (blockLoop L rd c) = issueCounts c" "issueWindow (blockLoop L rd c) = issueWindow c"
  "stateErr (blockLoop L rd c) = stateErr c"
  by (simp_all add: blockLoop_def blockFold)

lemma blockLoop_wf: "wfc L c \<Longrightarrow> wfc L (blockLoop L rd c)"
proof -
  have "wfc L c \<Longrightarrow> wfc L (foldl (blockPeer L rd) c ps)" for ps
    by (induction ps arbitrary: c) (simp_all add: blockPeer_wf)
  then show "wfc L c \<Longrightarrow> wfc L (blockLoop L rd c)" by (simp add: blockLoop_def)
qed

lemma removalReason_Inr: "rt \<noteq> None \<Longrightarrow> \<exists>why. removalReason L D rd w p r q rt = Inr why"
  by (auto simp: removalReason_def)

text \<open>A judged peer is left alone, or its endpoint is cleared and it is listed for removal.\<close>

lemma judgePeer_cases:
  assumes "wfc L c" and "PublicKey p \<in> set un \<or> tracked c (PublicKey p)"
  obtains
    (skipped) "PublicKey p \<in> set un" and "judgePeer L D rd w un c p = Inr (c, [])"
  | (kept) r q rt where "PublicKey p \<notin> set un" and "map_of (peers c) (PublicKey p) = Some r"
      and "map_of (quotas c) (recordOwner L (PublicKey p) r) = Some q" and "map_of (runtime c) (PublicKey p) = Some rt"
      and "removalReason L D rd w p r q (Some rt) = Inr []" and "judgePeer L D rd w un c p = Inr (c, [])"
  | (removed) r q rt why where "PublicKey p \<notin> set un" and "map_of (peers c) (PublicKey p) = Some r"
      and "map_of (quotas c) (recordOwner L (PublicKey p) r) = Some q" and "map_of (runtime c) (PublicKey p) = Some rt"
      and "removalReason L D rd w p r q (Some rt) = Inr why" and "why \<noteq> []"
      and "judgePeer L D rd w un c p = Inr (clearEndpoint c (PublicKey p) r, [\<lparr>remKey = PublicKey p, reason = why\<rparr>])"
proof (cases "PublicKey p \<in> set un")
  case True
  then show thesis by (intro skipped) (simp_all add: judgePeer_def)
next
  case False
  with assms(2) obtain r rt where r: "map_of (peers c) (PublicKey p) = Some r"
    and rt: "map_of (runtime c) (PublicKey p) = Some rt" by (auto simp: tracked_def)
  obtain q where q: "map_of (quotas c) (recordOwner L (PublicKey p) r) = Some q"
    using wf_peerD(2) [OF assms(1) r] by blast
  obtain why where why: "removalReason L D rd w p r q (Some rt) = Inr why"
    using removalReason_Inr [of "Some rt" L D rd w p r q] by auto
  show thesis
  proof (cases "why = []")
    case True
    with False r rt q why show thesis by (intro kept [of r q rt]) (simp_all add: judgePeer_def)
  next
    case ne: False
    with False r rt q why show thesis by (intro removed [of r q rt why]) (simp_all add: judgePeer_def Let_def)
  qed
qed

lemma tracked_clear [simp]: "tracked (clearEndpoint c k r) k' \<longleftrightarrow> k' = k \<and> map_of (runtime c) k \<noteq> None \<or> tracked c k'"
  by (auto simp: tracked_def)

lemma judgeLoop_wf:
  assumes "wfc L c" and "\<forall>p\<in>set ps. PublicKey p \<in> set un \<or> tracked c (PublicKey p)"
  shows "\<exists>c1 rms1. judgeLoop L D rd w un ps c rms = (None, c1, rms1) \<and> wfc L c1 \<and> stateErr c1 = stateErr c
    \<and> quotas c1 = quotas c \<and> runtime c1 = runtime c"
  using assms
proof (induction ps arbitrary: c rms)
  case (Cons p ps)
  have t: "PublicKey p \<in> set un \<or> tracked c (PublicKey p)" using Cons.prems(2) by simp
  show ?case
    using Cons.prems(1) t
  proof (cases rule: judgePeer_cases [where D = D and rd = rd and w = w])
    case (removed r q rt why)
    have "wfc L (clearEndpoint c (PublicKey p) r)"
      using Cons.prems(1) removed(2) by (rule wf_clearEndpoint)
    from Cons.IH [OF this, of "rms @ [\<lparr>remKey = PublicKey p, reason = why\<rparr>]"] Cons.prems(2) removed show ?thesis
      by auto
  qed (use Cons.IH [OF Cons.prems(1)] Cons.prems(2) in auto)
qed auto

lemma prunePeers_wf:
  assumes "wfc L c"
  shows "wfc L (prunePeers rd c)"
  using assms wf_maps [OF assms] by (auto simp: wf_iff wfMaps_def prunePeers_def map_of_keep split: option.splits if_splits)

lemma referenced: "map_of (peers c) k = Some r \<Longrightarrow> recordOwner L k r \<in> set (referencedOwners L c)"
  by (force simp: referencedOwners_def dest: map_of_SomeD)

lemma pruneQuotas_wf:
  assumes "wfc L c"
  shows "wfc L (pruneQuotas L rd c)"
  using assms wf_maps [OF assms]
  by (fastforce simp: wf_iff wfMaps_def pruneQuotas_def map_of_keep referenced split: option.splits if_splits)

lemma removeLoop_wf: "removeLoop D rms c w = (c', w') \<Longrightarrow> wfc L c \<Longrightarrow> wfc L c' \<and> stateErr c' = stateErr c"
proof (induction rms arbitrary: c w)
  case (Cons rm rms)
  obtain e w1 where "RemovePeer D (remKey rm) w = (e, w1)" by (metis surj_pair)
  with Cons.IH [of c w1] Cons.IH [of "c\<lparr>runtime := del (runtime c) (remKey rm)\<rparr>" w1] Cons.prems show ?case
    by (cases e) (simp_all add: wf_del_runtime)
qed simp

text \<open>Under the invariant no loop takes an early return.\<close>

lemma reconcilePlan_wf:
  assumes "wfc L c" and "okTime L (rNow rd)" and "\<forall>p\<in>set (rPeers rd). okPeer p"
  obtains c1 un c2 rms where "accountLoop L D rd w (rPeers rd) c [] = (None, c1, un)" and "wfc L c1"
    and "\<forall>p\<in>set (rPeers rd). PublicKey p \<in> set un \<or> tracked c1 (PublicKey p)"
    and "judgeLoop L D rd w un (rPeers rd) (blockLoop L rd c1)
          (map (\<lambda>k. \<lparr>remKey = k, reason = ''unauthorized''\<rparr>) un) = (None, c2, rms)"
    and "wfc L c2" and "stateErr c2 = stateErr c"
    and "reconcilePlan L D rd c w = (None, pruneQuotas L rd (prunePeers rd c2), rms)"
proof -
  from accountLoop_wf [OF assms, of D w "[]"] obtain c1 un where
    a: "accountLoop L D rd w (rPeers rd) c [] = (None, c1, un)" "wfc L c1" "stateErr c1 = stateErr c"
      "\<forall>p\<in>set (rPeers rd). PublicKey p \<in> set un \<or> tracked c1 (PublicKey p)"
    by auto
  have t: "\<forall>p\<in>set (rPeers rd). PublicKey p \<in> set un \<or> tracked (blockLoop L rd c1) (PublicKey p)"
    using a(4) by (simp add: tracked_def)
  from judgeLoop_wf [OF blockLoop_wf [OF a(2)] t, of D rd w "map (\<lambda>k. \<lparr>remKey = k, reason = ''unauthorized''\<rparr>) un"]
  obtain c2 rms where j: "judgeLoop L D rd w un (rPeers rd) (blockLoop L rd c1)
      (map (\<lambda>k. \<lparr>remKey = k, reason = ''unauthorized''\<rparr>) un) = (None, c2, rms)" "wfc L c2" "stateErr c2 = stateErr c1"
    by auto
  show thesis
    using a j by (intro that [of c1 un c2 rms]) (simp_all add: reconcilePlan_def)
qed

lemma reconcileLocked_wf:
  assumes "reconcileLocked L D rd c w = (e, c', w')" and "wfc L c"
    and "okTime L (rNow rd)" and "\<forall>p\<in>set (rPeers rd). okPeer p"
  shows "wfc L c'" and "e \<noteq> None \<Longrightarrow> stateErr c' = e"
proof -
  obtain c2 rms where pl: "reconcilePlan L D rd c w = (None, pruneQuotas L rd (prunePeers rd c2), rms)" "wfc L c2"
    using reconcilePlan_wf [OF assms(2-4), of D w] by metis
  define c3 where "c3 = pruneQuotas L rd (prunePeers rd c2)"
  have c3: "wfc L c3" using pl(2) by (simp add: c3_def prunePeers_wf pruneQuotas_wf)
  show "wfc L c'" and "e \<noteq> None \<Longrightarrow> stateErr c' = e"
    using assms(1,2) c3 unfolding reconcileLocked_def pl(1) c3_def [symmetric]
    by (auto split: option.splits prod.splits dest: persistLocked_wf removeLoop_wf persistLocked_Some)
qed

section \<open>Loading\<close>

lemma loadQuotas_wf:
  assumes "loadQuotas L now qs c = (e, c')" and "wfc L c" and "okTime L now" and "\<forall>(owner, q)\<in>set qs. UsedBytes q \<le> MaxInt64"
  shows "wfc L c'"
  using assms
proof (induction L now qs c rule: loadQuotas.induct)
  case (2 L now owner q rest c)
  show ?case
  proof (cases "owner = [] \<or> UsedBytes q < 0 \<or> \<not> ParseDateOnly (UsageDate q) \<or> IsZero (QLastSeen q)")
    case False
    then have "validQuota (normalizeQuotaState L q now)"
      using "2.prems" by (intro validQuota_normalize) (auto simp: validQuota_def IsZero_def okTime_def)
    with False have "wfc L (c\<lparr>quotas := put (quotas c) owner (normalizeQuotaState L q now)\<rparr>)"
      using "2.prems"(2) by (intro wf_put_quota) simp_all
    with False 2 show ?thesis by auto
  qed (use "2.prems" in \<open>auto split: if_splits\<close>)
qed simp

lemma loadPeers_wf: "loadPeers L ps c = (e, c') \<Longrightarrow> wfc L c \<Longrightarrow> wfc L c'"
proof (induction L ps c rule: loadPeers.induct)
  case (2 L encoded r rest c)
  show ?case
  proof (cases "ParseKey L encoded")
    case (Some key)
    show ?thesis
    proof (cases "validPeer r \<and> map_of (quotas c) (recordOwner L key r) \<noteq> None")
      case True
      then have "wfc L (c\<lparr>peers := put (peers c) key r\<rparr>)" using "2.prems"(2) by (intro wf_put_peer) auto
      with True Some 2 show ?thesis by (auto simp: validPeer_def IsZero_def split: if_splits)
    next
      case False
      with Some "2.prems" show ?thesis by (auto simp: validPeer_def IsZero_def split: if_splits)
    qed
  qed (use "2.prems" in auto)
qed simp

lemma loadCounts_wf: "loadCounts ics c = (e, c') \<Longrightarrow> wfc L c \<Longrightarrow> wfc L c'"
  by (induction ics c rule: loadCounts.induct) (auto simp: wf_put_count split: if_splits)

lemma loadFound_wf:
  assumes "loadFound L now state c = (e, c')" and "wfc L c" and "okTime L now"
    and "\<forall>(owner, q)\<in>set (case Quotas state of None \<Rightarrow> [] | Some qs \<Rightarrow> qs). UsedBytes q \<le> MaxInt64"
  shows "wfc L c'"
  using assms
  by (auto simp: loadFound_def split: if_splits option.splits prod.splits
      dest!: loadQuotas_wf loadPeers_wf intro: loadCounts_wf)

text \<open>\<open>load\<close> starts from empty maps, so it establishes the invariant whatever the controller held.\<close>

lemma load_wf:
  assumes "load L D c w = (e, c', w')" and "okTime L (nowTime D w)"
    and "\<And>state found. LoadState D w = Inr (state, found) \<Longrightarrow>
           \<forall>(owner, q)\<in>set (case Quotas state of None \<Rightarrow> [] | Some qs \<Rightarrow> qs). UsedBytes q \<le> MaxInt64"
    and "LoadState D w = Inr res"
  shows "wfc L c'"
proof -
  obtain state found where ls: "LoadState D w = Inr (state, found)" using assms(4) by (metis surj_pair)
  define c0 where "c0 = c\<lparr>peers := [], quotas := [], runtime := [], issueCounts := [], stateErr := None, failures := []\<rparr>"
  have c0: "wfc L c0" by (simp add: c0_def wf_iff wfMaps_def)
  obtain e1 c1 where l: "(if found then loadFound L (nowTime D w) state c0 else (None, c0)) = (e1, c1)"
    by (metis surj_pair)
  have c1: "wfc L c1"
    using l c0 assms(2) assms(3) [OF ls] by (auto split: if_splits dest: loadFound_wf)
  show ?thesis
    using assms(1) c1 wf_rollIssueWindow [OF c1] persistLocked_wf
    unfolding load_def ls by (fastforce simp: Let_def c0_def [symmetric] l split: option.splits)
qed

end
