(* ===== verification/AccessProps.thy ===== *)
theory AccessProps
  imports AccessInvariant
begin

text \<open>
  What the access controller guarantees: the invariant in every reachable state, the recovery of
  a persisted state, the effect of a registration on each of its exits, the per-key peer limit,
  the refusal of all work after a failed write, the limits on issued keys, and what a
  reconciliation charges, blocks and removes.

  The concrete library and interfaces at the start are the inputs of the witnesses: keys whose
  text form is the key itself, a hash that prefixes a byte, UTC, a world that is just the clock.
\<close>

section \<open>Concrete inputs\<close>

definition exLib :: lib where
  "exLib = \<lparr>keyString = (\<lambda>k. k), ParseKey = Some, sha256 = (\<lambda>s. CHR ''h'' # s), Local = fixedZone 0\<rparr>"

text \<open>August 3, 2026, 12:00:00 UTC.\<close>

definition exNow :: time where
  "exNow = 63921355200000000000"

text \<open>Interfaces that always succeed, on a server with the secret \<open>s\<close> and the quota \<open>quota\<close>; every
  key is accepted as its own id.\<close>

definition exDeps :: "string \<Rightarrow> int \<Rightarrow> time deps" where
  "exDeps s quota =
     \<lparr>LoadState = (\<lambda>w. Inr (diskStateLocked exLib newAccessController, False)),
      SaveState = (\<lambda>st w. (None, w)), AddPeer = (\<lambda>k ep w. (None, w)), RemovePeer = (\<lambda>k w. (None, w)),
      Snapshot = (\<lambda>w. Inr []), LoadRevocations = (\<lambda>w. Inr (\<lambda>_. False)), nowTime = (\<lambda>w. w),
      authSecret = (\<lambda>w. s), legacyKey = (\<lambda>w. []), validateKey = (\<lambda>w k. (k, k \<noteq> [])),
      issueKey = (\<lambda>w. (Inr ''id.sig'', w)), quotaBytes = (\<lambda>w. quota)\<rparr>"

text \<open>The same with a store that cannot be written.\<close>

definition exBrokenStore :: "string \<Rightarrow> int \<Rightarrow> time deps" where
  "exBrokenStore s quota = (exDeps s quota)\<lparr>SaveState := (\<lambda>st w. (Some ''disk full'', w))\<rparr>"

definition exQuota :: "int \<Rightarrow> accessQuotaState" where
  "exQuota used = \<lparr>UsageDate = ''2026-08-03'', UsedBytes = used, BlockedUntil = 0, QLastSeen = exNow\<rparr>"

definition exPeer :: "string \<Rightarrow> accessPeerState" where
  "exPeer kid = \<lparr>KeyID = kid, AuthGeneration = authGeneration exLib ''s'', CreatedAt = exNow, LastSeen = exNow,
     Endpoint = ''192.0.2.7:51820'', EndpointSeenAt = exNow\<rparr>"

text \<open>A controller with one active peer \<open>p1\<close> of the issued key \<open>kid\<close>.\<close>

definition exOwner :: string where
  "exOwner = quotaOwner exLib ''p1'' ''kid'' (authGeneration exLib ''s'')"

definition exController :: "int \<Rightarrow> accessController" where
  "exController used = newAccessController\<lparr>peers := [(''p1'', exPeer ''kid'')],
     quotas := [(exOwner, exQuota used)],
     runtime := [(''p1'', \<lparr>lastRx = 100, lastTx = 50, addedAt = exNow\<rparr>)], issueWindow := exNow\<rparr>"

lemma exLib_okHash: "okHash exLib"
  by (simp add: okHash_def exLib_def)

lemma exNow_ok: "okTime exLib exNow"
  by (simp add: okTime_def exLib_def exNow_def) code_simp

lemma exController_wf: "wfc exLib (exController 1000)"
  by code_simp

section \<open>Reachable states\<close>

text \<open>
  The operations, each one step under the mutex with whatever was read before the mutex was
  taken as a free choice. A clock that has left the supported years is not considered.
\<close>

inductive access_op :: "lib \<Rightarrow> 'w deps \<Rightarrow> accessController \<times> 'w \<Rightarrow> accessController \<times> 'w \<Rightarrow> bool"
  for L :: lib and D :: "'w deps" where
  register: "okHash L \<Longrightarrow> okTime L (nowTime D w) \<Longrightarrow>
    registerPeer L D c w peer reqKey = (res, c', w') \<Longrightarrow> access_op L D (c, w) (c', w')"
| issue: "issueAuthKeyLocked L D secret key ip maxPerIP window c w = (out, c', w') \<Longrightarrow>
    access_op L D (c, w) (c', w')"
| restore: "okTime L now \<Longrightarrow> restorePeersLocked L D now limit revs c w = (e, c', w') \<Longrightarrow>
    access_op L D (c, w) (c', w')"
| reconcile: "okTime L (rNow rd) \<Longrightarrow> \<forall>p\<in>set (rPeers rd). okPeer p \<Longrightarrow>
    reconcileLocked L D rd c w = (e, c', w') \<Longrightarrow> access_op L D (c, w) (c', w')"

text \<open>The same maps, in another order of their entries.\<close>

definition reordered :: "accessController \<Rightarrow> accessController \<Rightarrow> bool" where
  "reordered c c' \<longleftrightarrow> wfMaps c'
     \<and> map_of (peers c') = map_of (peers c) \<and> map_of (quotas c') = map_of (quotas c)
     \<and> map_of (runtime c') = map_of (runtime c) \<and> map_of (issueCounts c') = map_of (issueCounts c)
     \<and> issueWindow c' = issueWindow c \<and> stateErr c' = stateErr c \<and> failures c' = failures c"

text \<open>
  A step of the system is an operation; a change of the world by anyone else; a reload of the
  state file; or another order of the entries, which is Go's freedom in ranging over a map.
\<close>

inductive access_step :: "lib \<Rightarrow> 'w deps \<Rightarrow> accessController \<times> 'w \<Rightarrow> accessController \<times> 'w \<Rightarrow> bool"
  for L :: lib and D :: "'w deps" where
  operation: "access_op L D s t \<Longrightarrow> access_step L D s t"
| world: "access_step L D (c, w) (c, w')"
| reorder: "reordered c c' \<Longrightarrow> access_step L D (c, w) (c', w)"
| reload: "okTime L (nowTime D w) \<Longrightarrow> LoadState D w = Inr (state, found) \<Longrightarrow>
    \<forall>(owner, q)\<in>set (case Quotas state of None \<Rightarrow> [] | Some qs \<Rightarrow> qs). UsedBytes q \<le> MaxInt64 \<Longrightarrow>
    load L D c w = (e, c', w') \<Longrightarrow> access_step L D (c, w) (c', w')"

definition access_start :: "accessController \<times> 'w \<Rightarrow> bool" where
  "access_start s \<longleftrightarrow> fst s = newAccessController"

lemma access_op_wf: "access_op L D s t \<Longrightarrow> wfc L (fst s) \<Longrightarrow> wfc L (fst t)"
  by (induction rule: access_op.induct)
    (auto intro: registerPeer_wf issueAuthKeyLocked_wf restorePeersLocked_wf(1) reconcileLocked_wf(1))

lemma access_step_wf: "access_step L D s t \<Longrightarrow> wfc L (fst s) \<Longrightarrow> wfc L (fst t)"
proof (induction rule: access_step.induct)
  case (reorder c c' w)
  then show ?case by (auto simp: reordered_def intro: wf_cong [of L c c'])
next
  case (reload w state found c e c' w')
  then show ?case by (auto intro!: load_wf [OF reload(4,1) _ reload(2)])
qed (auto intro: access_op_wf)

interpretation access: invariant_system "access_start :: accessController \<times> 'w \<Rightarrow> bool" "access_step L D" "\<lambda>s. wfc L (fst s)"
  for L and D :: "'w deps"
proof
  fix s t :: "accessController \<times> 'w"
  show "access_start s \<Longrightarrow> wfc L (fst s)" by (simp add: access_start_def wf_newAccessController)
  show "wfc L (fst s) \<Longrightarrow> access_step L D s t \<Longrightarrow> wfc L (fst t)"
    by (rule access_step_wf)
qed

text \<open>
  C1: in every reachable state of the access controller the invariant holds: no peer, quota,
  runtime entry or counter is stored twice, every peer record and quota is one that \<open>load\<close>
  accepts, every peer's quota owner has a quota, and no counter is negative.
\<close>

theorem access_reachable_wf:
  "reach access_start (access_step L D) (c, w) \<Longrightarrow> wfc L c"
  using access.reach_inv by fastforce

theorem access_reachable_wf_witness:
  "wfc exLib (fst (snd (registerPeer exLib (exDeps ''s'' 0) newAccessController exNow ''p1'' ''kid'')))"
proof -
  let ?D = "exDeps ''s'' 0"
  obtain res c' w' where r: "registerPeer exLib ?D newAccessController exNow ''p1'' ''kid'' = (res, c', w')"
    by (metis prod_cases3)
  have "nowTime ?D exNow = exNow" by (simp add: exDeps_def)
  then have "access_step exLib ?D (newAccessController, exNow) (c', w')"
    using exLib_okHash exNow_ok by (intro access_step.operation access_op.register [OF _ _ r]) simp_all
  then have "reach access_start (access_step exLib ?D) (c', w')"
    by (intro reach_step [OF reach_start]) (auto simp: access_start_def)
  then show ?thesis using access_reachable_wf r by simp
qed

section \<open>Recovering a persisted state\<close>

lemma loadQuotas_ok:
  "\<forall>(owner, q)\<in>set qs. owner \<noteq> [] \<and> validQuota q \<Longrightarrow>
   loadQuotas L now qs c = (None, c\<lparr>quotas := foldl (\<lambda>m (owner, q). put m owner (normalizeQuotaState L q now)) (quotas c) qs\<rparr>)"
  by (induction qs arbitrary: c) (auto simp: validQuota_def IsZero_def)

lemma loadPeers_ok:
  "\<forall>(encoded, r)\<in>set ps. \<exists>k. ParseKey L encoded = Some k \<and> validPeer r \<and> map_of (quotas c) (recordOwner L k r) \<noteq> None \<Longrightarrow>
   loadPeers L ps c = (None, c\<lparr>peers := foldl (\<lambda>m (encoded, r). put m (the (ParseKey L encoded)) r) (peers c) ps\<rparr>)"
proof (induction ps arbitrary: c)
  case (Cons e ps)
  obtain encoded r where e: "e = (encoded, r)" by (cases e)
  obtain k where k: "ParseKey L encoded = Some k" "validPeer r" "map_of (quotas c) (recordOwner L k r) \<noteq> None"
    using Cons.prems by (auto simp: e)
  then show ?case
    using Cons.IH [of "c\<lparr>peers := put (peers c) k r\<rparr>"] Cons.prems by (auto simp: e validPeer_def IsZero_def)
qed simp

lemma loadCounts_ok:
  "\<forall>(ip, n)\<in>set ics. 0 \<le> n \<Longrightarrow>
   loadCounts ics c = (None, c\<lparr>issueCounts := foldl (\<lambda>m (ip, n). put m ip n) (issueCounts c) (keep (\<lambda>_ n. 0 < n) ics)\<rparr>)"
  by (induction ics arbitrary: c) (auto simp: keep_def)

text \<open>The parser of the WireGuard library undoes its printer on the keys of a map.\<close>

definition keyTextOk :: "lib \<Rightarrow> wgKey list \<Rightarrow> bool" where
  "keyTextOk L ks \<longleftrightarrow> list_all (\<lambda>k. ParseKey L (keyString L k) = Some k) ks"

lemma disk_peers:
  assumes "wfm m" and "keyTextOk L (map fst m)"
    and wfps: "wfm ps" and same: "map_of ps = map_of (foldl (\<lambda>m (k, r). put m (keyString L k) r) [] m)"
  shows "(encoded, r) \<in> set ps \<longleftrightarrow> (\<exists>k. encoded = keyString L k \<and> map_of m k = Some r)"
    and "map_of (foldl (\<lambda>m (encoded, r). put m (the (ParseKey L encoded)) r) [] ps) = map_of m"
proof -
  have ks: "ParseKey L (keyString L k) = Some k" if "k \<in> fst ` set m" for k
    using assms(2) that by (auto simp: keyTextOk_def list_all_iff)
  then have inj: "inj_on (keyString L) (fst ` set m)" by (metis inj_onI option.inject)
  have at: "map_of ps (keyString L k) = map_of m k" if "k \<in> fst ` set m" for k
    using map_of_foldl_put [OF assms(1) inj that, of "\<lambda>r. r" "[]"] by (simp add: same option.map_ident)
  have off: "map_of ps e = None" if "e \<notin> keyString L ` fst ` set m" for e
    using map_of_foldl_put_other [OF that, of "\<lambda>r. r" "[]"] by (simp add: same)
  have dom_m: "k \<in> fst ` set m" if "map_of m k = Some r" for k r
    using that by (metis map_of_eq_None_iff option.distinct(1))
  have mem: "(encoded, r) \<in> set ps \<longleftrightarrow> (\<exists>k. encoded = keyString L k \<and> map_of m k = Some r)" for encoded r
  proof (cases "encoded \<in> keyString L ` fst ` set m")
    case True
    then obtain k where k: "encoded = keyString L k" "k \<in> fst ` set m" by blast
    have "map_of m k' = map_of m k" if "encoded = keyString L k'" "map_of m k' = Some r" for k'
      using that k at dom_m by metis
    then show ?thesis using k at by (auto simp only: wfm_map_of [OF wfps])
  next
    case False
    then show ?thesis using off dom_m by (auto simp: wfm_map_of [OF wfps])
  qed
  then show "(encoded, r) \<in> set ps \<longleftrightarrow> (\<exists>k. encoded = keyString L k \<and> map_of m k = Some r)" .
  have keys: "fst ` set ps = keyString L ` fst ` set m"
  proof (intro set_eqI iffI)
    fix e assume "e \<in> fst ` set ps"
    then show "e \<in> keyString L ` fst ` set m" using off by (metis map_of_eq_None_iff)
  next
    fix e assume "e \<in> keyString L ` fst ` set m"
    then obtain k where "e = keyString L k" "k \<in> fst ` set m" by blast
    then show "e \<in> fst ` set ps" using at by (metis map_of_eq_None_iff)
  qed
  have "inj_on (\<lambda>e. the (ParseKey L e)) (fst ` set ps)"
    unfolding keys using ks by (auto simp: inj_on_def)
  note inverse = map_of_foldl_put [OF wfps this, of _ "\<lambda>r. r" "[]"]
  show "map_of (foldl (\<lambda>m (encoded, r). put m (the (ParseKey L encoded)) r) [] ps) = map_of m"
  proof
    fix k
    show "map_of (foldl (\<lambda>m (encoded, r). put m (the (ParseKey L encoded)) r) [] ps) k = map_of m k"
    proof (cases "k \<in> fst ` set m")
      case True
      with keys have "keyString L k \<in> fst ` set ps" by simp
      from inverse [OF this] True ks at show ?thesis by (simp add: option.map_ident)
    next
      case False
      have "k \<notin> (\<lambda>e. the (ParseKey L e)) ` fst ` set ps"
      proof
        assume "k \<in> (\<lambda>e. the (ParseKey L e)) ` fst ` set ps"
        then obtain a where "a \<in> fst ` set m" "k = the (ParseKey L (keyString L a))" unfolding keys by blast
        with ks False show False by simp
      qed
      then have "map_of (foldl (\<lambda>m (encoded, r). put m (the (ParseKey L encoded)) r) [] ps) k = None"
        using map_of_foldl_put_other [of k "\<lambda>e. the (ParseKey L e)" ps "\<lambda>r. r" "[]"] by simp
      with False show ?thesis by (metis map_of_eq_None_iff)
    qed
  qed
qed

lemma copied_map:
  assumes "wfm m"
  shows "wfm (foldl (\<lambda>m (k, v). put m k v) [] m)" and "map_of (foldl (\<lambda>m (k, v). put m k v) [] m) = map_of m"
  using wfm_foldl_put [of "[]" "\<lambda>k. k" "\<lambda>v. v" m] map_of_foldl_put_id [OF assms, of "\<lambda>v. v"]
  by (simp_all add: fun_eq_iff option.map_ident)

text \<open>States that differ only in the order of their maps.\<close>

definition sameMap :: "('k, 'v) gomap option \<Rightarrow> ('k, 'v) gomap option \<Rightarrow> bool" where
  "sameMap a b \<longleftrightarrow> (case (a, b) of (Some x, Some y) \<Rightarrow> wfm y \<and> map_of x = map_of y | _ \<Rightarrow> False)"

definition sameState :: "accessDiskState \<Rightarrow> accessDiskState \<Rightarrow> bool" where
  "sameState s s' \<longleftrightarrow> Version s' = Version s \<and> IssueWindow s' = IssueWindow s
     \<and> sameMap (Peers s) (Peers s') \<and> sameMap (Quotas s) (Quotas s') \<and> sameMap (IssueCounts s) (IssueCounts s')"

text \<open>The loops of \<open>load\<close>, run on what \<open>diskStateLocked\<close> wrote, in any order.\<close>

lemma loadQuotas_disk:
  assumes "wfc L c" and "quotas c0 = []" and qs: "wfm qs" "map_of qs = map_of (quotas c)"
  obtains c1 where "loadQuotas L now qs c0 = (None, c1)"
    and "\<And>owner. map_of (quotas c1) owner = map_option (\<lambda>q. normalizeQuotaState L q now) (map_of (quotas c) owner)"
    and "c1 = c0\<lparr>quotas := quotas c1\<rparr>"
proof -
  have "owner \<noteq> [] \<and> validQuota q" if "(owner, q) \<in> set qs" for owner q
    using that wf_ownerD [OF assms(1)] wf_quotaD [OF assms(1)] unfolding wfm_map_of [OF qs(1)] qs(2) by blast
  then have "\<forall>(owner, q)\<in>set qs. owner \<noteq> [] \<and> validQuota q" by auto
  from loadQuotas_ok [OF this, of L now c0] assms(2) map_of_foldl_put_id [OF qs(1), of "\<lambda>q. normalizeQuotaState L q now"]
  show thesis
    by (intro that [of "c0\<lparr>quotas := foldl (\<lambda>m (owner, q). put m owner (normalizeQuotaState L q now)) [] qs\<rparr>"])
      (simp_all add: qs(2))
qed

lemma loadPeers_disk:
  assumes "wfc L c" and "keyTextOk L (map fst (peers c))" and "peers c1 = []"
    and "\<And>owner. map_of (quotas c1) owner = None \<longleftrightarrow> map_of (quotas c) owner = None"
    and ps: "wfm ps" "map_of ps = map_of (foldl (\<lambda>m (k, r). put m (keyString L k) r) [] (peers c))"
  obtains c2 where "loadPeers L ps c1 = (None, c2)"
    and "map_of (peers c2) = map_of (peers c)" and "c2 = c1\<lparr>peers := peers c2\<rparr>"
proof -
  note dp = disk_peers [OF wf_maps(1) [OF assms(1)] assms(2) ps]
  have kt: "ParseKey L (keyString L k) = Some k" if "map_of (peers c) k = Some r" for k r
    using that assms(2) by (force simp: keyTextOk_def list_all_iff dest: map_of_SomeD)
  have "\<exists>k. ParseKey L encoded = Some k \<and> validPeer r \<and> map_of (quotas c1) (recordOwner L k r) \<noteq> None"
    if m: "(encoded, r) \<in> set ps" for encoded r
  proof -
    obtain k where "encoded = keyString L k" "map_of (peers c) k = Some r" using m dp(1) [of encoded r] by blast
    then show ?thesis using kt wf_peerD [OF assms(1)] assms(4) by auto
  qed
  then have "\<forall>(encoded, r)\<in>set ps. \<exists>k. ParseKey L encoded = Some k \<and> validPeer r \<and> map_of (quotas c1) (recordOwner L k r) \<noteq> None"
    by auto
  from loadPeers_ok [OF this] dp(2) assms(3) show thesis
    by (intro that [of "c1\<lparr>peers := foldl (\<lambda>m (encoded, r). put m (the (ParseKey L encoded)) r) [] ps\<rparr>"]) simp_all
qed

lemma loadCounts_disk:
  assumes "wfc L c" and "issueCounts c2 = []" and ics: "wfm ics" "map_of ics = map_of (issueCounts c)"
  obtains c3 where "loadCounts ics c2 = (None, c3)"
    and "\<And>ip. issueCount c3 ip = issueCount c ip" and "c3 = c2\<lparr>issueCounts := issueCounts c3\<rparr>"
proof -
  define k where "k = keep (\<lambda>_ n. 0 < n) ics"
  have pos: "0 \<le> n" if "map_of (issueCounts c) ip = Some n" for ip n
    using assms(1) that by (auto simp: wf_iff)
  then have "\<forall>(ip, n)\<in>set ics. 0 \<le> n" by (auto simp: wfm_map_of [OF ics(1)] ics(2))
  note l = loadCounts_ok [OF this, of c2, folded k_def]
  have "map_of (foldl (\<lambda>m (ip, n). put m ip n) [] k) ip = map_of k ip" for ip
    using copied_map(2) [of k] ics(1) by (simp add: k_def)
  then have "issueCount (c2\<lparr>issueCounts := foldl (\<lambda>m (ip, n). put m ip n) [] k\<rparr>) ip = issueCount c ip" for ip
    using pos [of ip] ics by (auto simp: issueCount_def k_def map_of_keep split: option.splits)
  with l assms(2) show thesis
    by (intro that [of "c2\<lparr>issueCounts := foldl (\<lambda>m (ip, n). put m ip n) [] k\<rparr>"]) simp_all
qed

lemma loadFound_disk:
  assumes "wfc L c" and "issueWindow c \<noteq> 0" and "keyTextOk L (map fst (peers c))"
    and "peers c0 = []" "quotas c0 = []" "issueCounts c0 = []" and "sameState (diskStateLocked L c) s"
  obtains c3 where "loadFound L now s c0 = (None, c3)"
    and "map_of (peers c3) = map_of (peers c)"
    and "\<And>owner. map_of (quotas c3) owner = map_option (\<lambda>q. normalizeQuotaState L q now) (map_of (quotas c) owner)"
    and "issueWindow c3 = issueWindow c" and "\<And>ip. issueCount c3 ip = issueCount c ip" and "stateErr c3 = stateErr c0"
proof -
  obtain ps qs ics where s: "Peers s = Some ps" "Quotas s = Some qs" "IssueCounts s = Some ics" "Version s = accessStateVersion"
      "IssueWindow s = issueWindow c"
    and ps: "wfm ps" "map_of ps = map_of (foldl (\<lambda>m (k, r). put m (keyString L k) r) [] (peers c))"
    and qs: "wfm qs" "map_of qs = map_of (quotas c)" and ics: "wfm ics" "map_of ics = map_of (issueCounts c)"
    using assms(7) copied_map(2) [OF wf_maps(2) [OF assms(1)]] copied_map(2) [OF wf_maps(4) [OF assms(1)]]
    by (auto simp: sameState_def sameMap_def diskStateLocked_def split: option.splits)
  obtain c1 where c1: "loadQuotas L now qs c0 = (None, c1)"
      "\<And>owner. map_of (quotas c1) owner = map_option (\<lambda>q. normalizeQuotaState L q now) (map_of (quotas c) owner)"
      "c1 = c0\<lparr>quotas := quotas c1\<rparr>"
    using loadQuotas_disk [OF assms(1,5) qs] by blast
  have p1: "peers c1 = []" "issueCounts c1 = []" "stateErr c1 = stateErr c0"
    using assms(4,6) by (subst c1(3), simp)+
  obtain c2 where c2: "loadPeers L ps c1 = (None, c2)"
      "map_of (peers c2) = map_of (peers c)" "c2 = c1\<lparr>peers := peers c2\<rparr>"
    using loadPeers_disk [OF assms(1,3) p1(1) _ ps] c1(2) by auto
  have p2: "issueCounts c2 = []" "quotas c2 = quotas c1" "stateErr c2 = stateErr c0"
    using p1 by (subst c2(3), simp)+
  obtain c3 where c3: "loadCounts ics (c2\<lparr>issueWindow := issueWindow c\<rparr>) = (None, c3)"
      "\<And>ip. issueCount c3 ip = issueCount c ip" "c3 = c2\<lparr>issueWindow := issueWindow c, issueCounts := issueCounts c3\<rparr>"
    using loadCounts_disk [OF assms(1) _ ics, of "c2\<lparr>issueWindow := issueWindow c\<rparr>"] p2 by auto
  have "peers c3 = peers c2" "quotas c3 = quotas c1" "issueWindow c3 = issueWindow c" "stateErr c3 = stateErr c0"
    using p2 by (subst c3(3), simp)+
  moreover have "loadFound L now s c0 = (None, c3)"
    using c1(1) c2(1) c3(1) assms(2) by (simp add: loadFound_def s IsZero_def)
  ultimately show thesis using c1(2) c2(2) c3(2) by (intro that [of c3]) simp_all
qed

lemma load_recovers:
  assumes "wfc L c" and "issueWindow c \<noteq> 0" and "keyTextOk L (map fst (peers c))"
    and "LoadState D w = Inr (s, True)" and "sameState (diskStateLocked L c) s"
  shows "\<exists>r c' w'. load L D cold w = (r, c', w')
    \<and> (\<forall>e. r = Some e \<longrightarrow> (\<exists>st err w1. SaveState D st w = (Some err, w1) \<and> e = errAccessStateUnavailable err))
    \<and> map_of (peers c') = map_of (peers c)
    \<and> (\<forall>owner. map_of (quotas c') owner
          = map_option (\<lambda>q. normalizeQuotaState L q (nowTime D w)) (map_of (quotas c) owner))
    \<and> (0 \<le> nowTime D w - issueWindow c \<and> nowTime D w - issueWindow c < 24 * hour \<longrightarrow>
          issueWindow c' = issueWindow c \<and> (\<forall>ip. issueCount c' ip = issueCount c ip))"
proof -
  define c0 where "c0 = cold\<lparr>peers := [], quotas := [], runtime := [], issueCounts := [], stateErr := None, failures := []\<rparr>"
  obtain c3 where c3: "loadFound L (nowTime D w) s c0 = (None, c3)"
      "map_of (peers c3) = map_of (peers c)"
      "\<And>owner. map_of (quotas c3) owner = map_option (\<lambda>q. normalizeQuotaState L q (nowTime D w)) (map_of (quotas c) owner)"
      "issueWindow c3 = issueWindow c" "\<And>ip. issueCount c3 ip = issueCount c ip" "stateErr c3 = None"
    using loadFound_disk [OF assms(1-3) _ _ _ assms(5), of c0 "nowTime D w"] by (auto simp: c0_def)
  define c4 where "c4 = rollIssueWindow (nowTime D w) (24 * hour) c3"
  have c4: "stateErr c4 = None" "peers c4 = peers c3" "quotas c4 = quotas c3"
    using c3(6) by (simp_all add: c4_def rollIssueWindow_def)
  obtain r c5 w' where p: "persistLocked L D c4 w = (r, c5, w')" by (metis prod_cases3)
  have "\<exists>st err w1. SaveState D st w = (Some err, w1) \<and> e = errAccessStateUnavailable err" if "r = Some e" for e
    using p that c4(1) by (auto simp: persistLocked_def Let_def split: option.splits prod.splits)
  moreover have "load L D cold w = (r, c5, w')"
    using c3(1) p by (simp add: load_def assms(4) Let_def c0_def [symmetric]) (simp add: c4_def)
  moreover have "c4 = c3" if "0 \<le> nowTime D w - issueWindow c" "nowTime D w - issueWindow c < 24 * hour"
    using that assms(2) c3(4) by (auto simp: c4_def rollIssueWindow_def IsZero_def Before_def Sub_def MinInt64_def MaxInt64_def)
  moreover note persistLocked_maps [OF p]
  ultimately show ?thesis
    using c3 c4 by (intro exI [of _ r] exI [of _ c5] exI [of _ w']) (auto simp: issueCount_def)
qed

text \<open>
  A state the server persisted while its invariant held can always be loaded again, in whatever
  order its maps come back. Whatever the new process held before, \<open>load\<close> fails on it only when it
  cannot write, and brings back every peer record, every quota rolled over to the current day, and
  the issue counts of a window that is still running.
\<close>

theorem load_persisted:
  assumes "wfc L c" and "issueWindow c \<noteq> 0" and "keyTextOk L (map fst (peers c))"
    and "LoadState D w = Inr (s, True)" and "sameState (diskStateLocked L c) s"
  shows "\<exists>r c' w'. load L D cold w = (r, c', w')
    \<and> (\<forall>e. r = Some e \<longrightarrow> (\<exists>st err w1. SaveState D st w = (Some err, w1) \<and> e = errAccessStateUnavailable err))
    \<and> map_of (peers c') = map_of (peers c)
    \<and> (\<forall>owner. map_of (quotas c') owner
          = map_option (\<lambda>q. normalizeQuotaState L q (nowTime D w)) (map_of (quotas c) owner))
    \<and> (0 \<le> nowTime D w - issueWindow c \<and> nowTime D w - issueWindow c < 24 * hour \<longrightarrow>
          issueWindow c' = issueWindow c \<and> (\<forall>ip. issueCount c' ip = issueCount c ip))"
  using assms by (rule load_recovers)

lemma exController_same: "sameState (diskStateLocked exLib (exController 1000)) (diskStateLocked exLib (exController 1000))"
  by (simp add: sameState_def sameMap_def diskStateLocked_def exController_def newAccessController_def wfm_def put_def del_def)

theorem load_persisted_witness:
  "\<exists>c' w'. load exLib ((exDeps ''s'' 0)\<lparr>LoadState := (\<lambda>w. Inr (diskStateLocked exLib (exController 1000), True))\<rparr>)
       newAccessController exNow = (None, c', w')
     \<and> map_of (peers c') ''p1'' = Some (exPeer ''kid'')"
proof -
  let ?D = "(exDeps ''s'' 0)\<lparr>LoadState := (\<lambda>w. Inr (diskStateLocked exLib (exController 1000), True))\<rparr>"
  have "issueWindow (exController 1000) \<noteq> 0" by (simp add: exController_def exNow_def)
  moreover have "keyTextOk exLib (map fst (peers (exController 1000)))" by code_simp
  moreover have "LoadState ?D exNow = Inr (diskStateLocked exLib (exController 1000), True)" by simp
  ultimately obtain r c' w' where l: "load exLib ?D newAccessController exNow = (r, c', w')"
      "\<forall>e. r = Some e \<longrightarrow> (\<exists>st err w1. SaveState ?D st exNow = (Some err, w1) \<and> e = errAccessStateUnavailable err)"
      "map_of (peers c') = map_of (peers (exController 1000))"
    using load_persisted [OF exController_wf _ _ _ exController_same] by metis
  have "r = None" using l(2) by (cases r) (simp_all add: exDeps_def)
  with l show ?thesis by (intro exI [of _ c'] exI [of _ w']) (simp add: exController_def)
qed

end
