(* ===== verification/AccessRegister.thy ===== *)
theory AccessRegister
  imports AccessProps
begin

text \<open>
  What a registration and an issued key guarantee: the guards a success has passed and the order
  of its effects, the roll-back on each failure, the limit on the peers of an issued key, the
  usage a registration cannot reset, the fail-closed state after a lost write, and the limit on
  the keys issued to one address.
\<close>

section \<open>A successful registration\<close>

lemma touchRuntime_simps [simp]:
  "peers (touchRuntime c k now) = peers c" "quotas (touchRuntime c k now) = quotas c"
  "issueCounts (touchRuntime c k now) = issueCounts c" "issueWindow (touchRuntime c k now) = issueWindow c"
  "stateErr (touchRuntime c k now) = stateErr c" "failures (touchRuntime c k now) = failures c"
  by (simp_all add: touchRuntime_def)

lemma touchRuntime_other: "k' \<noteq> k \<Longrightarrow> map_of (runtime (touchRuntime c k now)) k' = map_of (runtime c) k'"
  by (simp add: touchRuntime_def)

lemma storeAdmitted_simps [simp]:
  "peers (storeAdmitted c k cr now owner q) = put (peers c) k (admittedRecord c k cr now)"
  "quotas (storeAdmitted c k cr now owner q) = put (quotas c) owner (q\<lparr>QLastSeen := now\<rparr>)"
  "runtime (storeAdmitted c k cr now owner q) = runtime c"
  "issueCounts (storeAdmitted c k cr now owner q) = issueCounts c"
  "issueWindow (storeAdmitted c k cr now owner q) = issueWindow c"
  "stateErr (storeAdmitted c k cr now owner q) = stateErr c"
  "failures (storeAdmitted c k cr now owner q) = failures c"
  by (simp_all add: storeAdmitted_def)

lemma diskState_touch [simp]: "diskStateLocked L (touchRuntime c k now) = diskStateLocked L c"
  by (simp add: diskStateLocked_def)

lemma register_success_cases:
  assumes "registerPeer L D c w peer reqKey = ((cr, None), c', w')"
  obtains owner quota w1 where "stateErr c = None" and "authorizeLocked L D w reqKey = (cr, None)"
      and "credentialMatchesCurrentModeLocked L D w cr"
      and "owner = quotaOwner L peer (keyID cr) (authGen cr)"
      and "quota = fetchQuota L (quotas c) owner (nowTime D w)"
      and "\<not> Before (nowTime D w) (BlockedUntil quota)"
      and "quotaBytes D w > 0 \<Longrightarrow> UsedBytes quota \<le> quotaBytes D w"
      and "keyID cr \<noteq> ''open'' \<Longrightarrow> keyID cr \<noteq> ''shared'' \<Longrightarrow> activePeers L c peer owner < maxActivePeersPerIssuedKey"
      and "c' = touchRuntime (storeAdmitted c peer cr (nowTime D w) owner quota) peer (nowTime D w)"
      and "SaveState D (diskStateLocked L c') w = (None, w1)" and "AddPeer D peer [] w1 = (None, w')"
  using assms
proof (cases rule: registerPeer_cases)
  case (admitted cr' owner quota)
  from admitted(9) show thesis
  proof (cases rule: admitPeer_cases)
    case (added w2)
    have cr: "cr' = cr" using added(5) by simp
    have "SaveState D (diskStateLocked L c') w = (None, w2)" using added(1) by (simp add: added(4))
    from that [OF admitted(1-8)[unfolded cr] added(4)[unfolded cr] this added(3)] show thesis .
  qed simp_all
qed simp

text \<open>
  C11: a successful registration has passed every guard: the request key is authorized and the
  credential belongs to the server's current mode, and the credential's quota owner is neither
  blocked nor over its daily limit. The record, under the credential, was saved to disk first
  and the peer added to the device after that; no other record and no other runtime entry changed,
  and a re-registered peer keeps its counter baseline.
\<close>

theorem register_success:
  assumes "registerPeer L D c w peer reqKey = ((cr, None), c', w')"
  defines "owner \<equiv> quotaOwner L peer (keyID cr) (authGen cr)" and "now \<equiv> nowTime D w"
  shows "stateErr c = None \<and> authorizeLocked L D w reqKey = (cr, None) \<and> credentialMatchesCurrentModeLocked L D w cr
    \<and> \<not> now < BlockedUntil (fetchQuota L (quotas c) owner now)
    \<and> (quotaBytes D w > 0 \<longrightarrow> UsedBytes (fetchQuota L (quotas c) owner now) \<le> quotaBytes D w)
    \<and> (\<exists>w1. SaveState D (diskStateLocked L c') w = (None, w1) \<and> AddPeer D peer [] w1 = (None, w'))
    \<and> (\<exists>r. map_of (peers c') peer = Some r \<and> KeyID r = keyID cr \<and> AuthGeneration r = authGen cr \<and> LastSeen r = now)
    \<and> (\<exists>rt. map_of (runtime c') peer = Some rt \<and> addedAt rt = now
         \<and> (case map_of (runtime c) peer of None \<Rightarrow> lastRx rt = 0 \<and> lastTx rt = 0
            | Some old \<Rightarrow> lastRx rt = lastRx old \<and> lastTx rt = lastTx old))
    \<and> (\<forall>k. k \<noteq> peer \<longrightarrow> map_of (peers c') k = map_of (peers c) k \<and> map_of (runtime c') k = map_of (runtime c) k)"
  using assms(1)
proof (cases rule: register_success_cases)
  case (1 own quota w1)
  have o: "own = owner" using 1(4) by (simp add: owner_def)
  have rt: "\<exists>rt. map_of (runtime c') peer = Some rt \<and> addedAt rt = now
         \<and> (case map_of (runtime c) peer of None \<Rightarrow> lastRx rt = 0 \<and> lastTx rt = 0
            | Some old \<Rightarrow> lastRx rt = lastRx old \<and> lastTx rt = lastTx old)"
    by (simp add: 1(9) touchRuntime_def now_def split: option.split)
  have "\<exists>r. map_of (peers c') peer = Some r \<and> KeyID r = keyID cr \<and> AuthGeneration r = authGen cr \<and> LastSeen r = now"
    by (simp add: 1(9) admittedRecord_def now_def)
  moreover have "\<forall>k. k \<noteq> peer \<longrightarrow> map_of (peers c') k = map_of (peers c) k \<and> map_of (runtime c') k = map_of (runtime c) k"
    by (simp add: 1(9) touchRuntime_other)
  ultimately show ?thesis
    using 1(1-3) 1(6,7,10,11) rt by (auto simp: 1(5) o Before_def now_def)
qed

theorem register_success_witness:
  "\<exists>c'. registerPeer exLib (exDeps ''s'' 5000) (exController 1000) exNow ''p2'' ''kid''
        = ((\<lparr>keyID = ''kid'', authGen = authGeneration exLib ''s''\<rparr>, None), c', exNow)
     \<and> (\<exists>r. map_of (peers c') ''p2'' = Some r \<and> KeyID r = ''kid'')"
proof -
  let ?r = "registerPeer exLib (exDeps ''s'' 5000) (exController 1000) exNow ''p2'' ''kid''"
  have "fst ?r = (\<lparr>keyID = ''kid'', authGen = authGeneration exLib ''s''\<rparr>, None) \<and> snd (snd ?r) = exNow"
    by code_simp
  then have r: "?r = ((\<lparr>keyID = ''kid'', authGen = authGeneration exLib ''s''\<rparr>, None), fst (snd ?r), exNow)"
    by (metis prod.collapse)
  from register_success [OF r] have "\<exists>x. map_of (peers (fst (snd ?r))) ''p2'' = Some x \<and> KeyID x = ''kid''"
    by (simp only: peerCredential.simps) blast
  with r show ?thesis by blast
qed

section \<open>A failed registration\<close>

text \<open>The exits of a registration that leave something in the device unexplained.\<close>

definition uncleanAdd :: "accessError \<Rightarrow> bool" where
  "uncleanAdd e \<longleftrightarrow> (case e of errAddPeer _ (Some _) \<Rightarrow> True | _ \<Rightarrow> False)"

text \<open>A registration has either stored its peer or left the maps with the contents they had.\<close>

lemma registerPeer_outcome:
  assumes "registerPeer L D c w peer reqKey = ((cr, res), c', w')"
  obtains
    (kept) owner quota where "owner = quotaOwner L peer (keyID cr) (authGen cr)"
      and "quota = fetchQuota L (quotas c) owner (nowTime D w)"
      and "keyID cr \<noteq> ''open'' \<Longrightarrow> keyID cr \<noteq> ''shared'' \<Longrightarrow> activePeers L c peer owner < maxActivePeersPerIssuedKey"
      and "c' = touchRuntime (storeAdmitted c peer cr (nowTime D w) owner quota) peer (nowTime D w)"
      and "case res of None \<Rightarrow> True | Some e \<Rightarrow> uncleanAdd e"
  | (undone) "map_of (peers c') = map_of (peers c)" and "map_of (quotas c') = map_of (quotas c)"
      and "issueCounts c' = issueCounts c" and "issueWindow c' = issueWindow c"
      and "runtime c' = runtime c \<or> runtime c' = del (runtime c) peer \<and> (\<exists>w1 w2. RemovePeer D peer w1 = (None, w2))"
  using assms
proof (cases rule: registerPeer_cases)
  case (admitted cr' owner quota)
  let ?now = "nowTime D w" and ?c1 = "storeAdmitted c peer cr' (nowTime D w) owner quota"
  from admitted(9) show thesis
  proof (cases rule: admitPeer_cases)
    case (unsaved e1 c2)
    note m = persistLocked_maps [OF unsaved(1), simplified]
    from rollback_maps [OF m(1,2), folded unsaved(3)] m show thesis by (intro undone) simp_all
  next
    case (cleaned w2 w3 w4 err c3 e1)
    have p: "peers ?c1 = put (peers c) peer (admittedRecord c peer cr' ?now)"
      "quotas ?c1 = put (quotas c) owner (quota\<lparr>QLastSeen := ?now\<rparr>)" by simp_all
    from persistLocked_maps [OF cleaned(6)] rollback_maps [OF p, folded cleaned(5)] cleaned(4) show thesis
      by (intro undone) auto
  next
    case (added w2)
    then have cr: "cr' = cr" and "case res of None \<Rightarrow> True | Some e \<Rightarrow> uncleanAdd e" by simp_all
    from kept [OF admitted(4,5,8) [unfolded cr] added(4) [unfolded cr] this(2)] show thesis .
  next
    case (dirty w2 w3 err cleanup)
    then have cr: "cr' = cr" and "case res of None \<Rightarrow> True | Some e \<Rightarrow> uncleanAdd e" by (simp_all add: uncleanAdd_def)
    from kept [OF admitted(4,5,8) [unfolded cr] dirty(5) [unfolded cr] this(2)] show thesis .
  qed
qed (rule undone, simp_all)



section \<open>The peers of one key\<close>

text \<open>The peers of an owner that have a runtime entry.\<close>

definition ownerActive :: "lib \<Rightarrow> accessController \<Rightarrow> string \<Rightarrow> nat" where
  "ownerActive L c owner =
     length (filter (\<lambda>(k, _). case map_of (peers c) k of None \<Rightarrow> False | Some r \<Rightarrow> recordOwner L k r = owner) (runtime c))"

lemma filter_length_mono: "(\<And>x. x \<in> set xs \<Longrightarrow> P x \<Longrightarrow> Q x) \<Longrightarrow> length (filter P xs) \<le> length (filter Q xs)"
  by (induction xs) auto

lemma activePeers_le: "activePeers L c peer owner \<le> ownerActive L c owner"
  unfolding activePeers_def ownerActive_def by (rule filter_length_mono) auto

text \<open>After \<open>peer\<close> is stored under an owner and has a runtime entry, the count is that of the
  others, plus one for its own owner.\<close>

lemma ownerActive_admitted:
  assumes p: "map_of (peers c') = (map_of (peers c))(peer \<mapsto> r)" and rt: "runtime c' = put (runtime c) peer rt"
  shows "ownerActive L c' owner = activePeers L c peer owner + (if recordOwner L peer r = owner then 1 else 0)"
proof -
  have "filter (\<lambda>(k, _). case map_of (peers c') k of None \<Rightarrow> False | Some r \<Rightarrow> recordOwner L k r = owner) (del (runtime c) peer)
      = filter (\<lambda>(k, _). k \<noteq> peer \<and> (case map_of (peers c) k of None \<Rightarrow> False | Some r \<Rightarrow> recordOwner L k r = owner)) (runtime c)"
    unfolding del_def filter_filter by (rule filter_cong) (auto simp: p)
  then show ?thesis by (simp add: ownerActive_def activePeers_def rt put_def p)
qed

lemma ownerActive_mono:
  assumes "map_of (peers c') = map_of (peers c)" and "runtime c' = runtime c \<or> runtime c' = del (runtime c) peer"
  shows "ownerActive L c' owner \<le> ownerActive L c owner"
  using assms by (auto simp: ownerActive_def del_def filter_filter intro!: filter_length_mono)

text \<open>
  C15: a registration, whatever its outcome, can raise the number of active peers only of its own
  credential's quota owner, and for an issued key never to more than three.
\<close>

theorem register_peer_limit:
  assumes "registerPeer L D c w peer reqKey = ((cr, res), c', w')"
    and "ownerActive L c owner < ownerActive L c' owner"
  shows "owner = quotaOwner L peer (keyID cr) (authGen cr)
    \<and> (keyID cr \<noteq> ''open'' \<and> keyID cr \<noteq> ''shared'' \<longrightarrow> ownerActive L c' owner \<le> maxActivePeersPerIssuedKey)"
  using assms(1)
proof (cases rule: registerPeer_outcome)
  case (kept own quota)
  have "ownerActive L c' owner = activePeers L c peer owner + (if own = owner then 1 else 0)"
    using ownerActive_admitted [of c' c peer "admittedRecord c peer cr (nowTime D w)" _ L owner]
    unfolding kept(1,4) by (simp add: admittedRecord_def touchRuntime_def)
  with assms(2) activePeers_le [of L c peer owner] kept(1,3) show ?thesis
    by (auto split: if_splits)
next
  case undone
  with ownerActive_mono [of c' c peer L owner] assms(2) show ?thesis by auto
qed

theorem register_peer_limit_witness:
  "\<exists>c'. registerPeer exLib (exDeps ''s'' 5000) (exController 1000) exNow ''p2'' ''kid''
        = ((\<lparr>keyID = ''kid'', authGen = authGeneration exLib ''s''\<rparr>, None), c', exNow)
     \<and> ownerActive exLib (exController 1000) exOwner < ownerActive exLib c' exOwner
     \<and> ownerActive exLib c' exOwner \<le> maxActivePeersPerIssuedKey"
proof -
  let ?r = "registerPeer exLib (exDeps ''s'' 5000) (exController 1000) exNow ''p2'' ''kid''"
  have "fst ?r = (\<lparr>keyID = ''kid'', authGen = authGeneration exLib ''s''\<rparr>, None) \<and> snd (snd ?r) = exNow
      \<and> ownerActive exLib (exController 1000) exOwner < ownerActive exLib (fst (snd ?r)) exOwner"
    by code_simp
  then have r: "?r = ((\<lparr>keyID = ''kid'', authGen = authGeneration exLib ''s''\<rparr>, None), fst (snd ?r), exNow)"
    and more: "ownerActive exLib (exController 1000) exOwner < ownerActive exLib (fst (snd ?r)) exOwner"
    by (metis prod.collapse, simp)
  from register_peer_limit [OF r more] r more show ?thesis by auto
qed

section \<open>Usage\<close>

text \<open>
  C30: a registration never changes how much any quota owner has used today or until when it is
  blocked, whatever its outcome, so that registering again, with the same or another WireGuard
  key, cannot evade a quota.
\<close>

theorem register_keeps_usage:
  assumes "registerPeer L D c w peer reqKey = ((cr, res), c', w')"
  shows "UsedBytes (fetchQuota L (quotas c') owner (nowTime D w)) = UsedBytes (fetchQuota L (quotas c) owner (nowTime D w))
    \<and> BlockedUntil (fetchQuota L (quotas c') owner (nowTime D w)) = BlockedUntil (fetchQuota L (quotas c) owner (nowTime D w))"
  using assms
proof (cases rule: registerPeer_outcome)
  case (kept own quota)
  show ?thesis
    by (simp add: kept(4)) (auto simp: kept(2) fetchQuota_def normalizeQuotaState_def IsZero_def)
next
  case undone
  then show ?thesis by (simp add: fetchQuota_def)
qed

theorem register_keeps_usage_witness:
  "UsedBytes (fetchQuota exLib (quotas (fst (snd (registerPeer exLib (exDeps ''s'' 5000) (exController 1000) exNow ''p2'' ''kid''))))
     exOwner exNow) = 1000"
proof -
  let ?r = "registerPeer exLib (exDeps ''s'' 5000) (exController 1000) exNow ''p2'' ''kid''"
  have r: "?r = ((fst (fst ?r), snd (fst ?r)), fst (snd ?r), snd (snd ?r))" by simp
  have n: "nowTime (exDeps ''s'' 5000) exNow = exNow" by (simp add: exDeps_def)
  have "UsedBytes (fetchQuota exLib (quotas (exController 1000)) exOwner exNow) = 1000" by code_simp
  with register_keeps_usage [OF r, of exOwner] show ?thesis by (simp only: n)
qed

section \<open>Failing closed\<close>

definition lostWrite :: "'w deps \<Rightarrow> accessError \<Rightarrow> bool" where
  "lostWrite D e \<longleftrightarrow> (\<exists>st w w' err. SaveState D st w = (Some err, w') \<and> e = errAccessStateUnavailable err)"

lemma persistLocked_lost:
  assumes "persistLocked L D c w = (r, c', w')" and "stateErr c = None"
  shows "stateErr c' = r" and "\<And>e. r = Some e \<Longrightarrow> lostWrite D e \<and> failures c' \<noteq> []"
  using assms by (auto simp: persistLocked_def lostWrite_def Let_def split: option.splits prod.splits if_splits)

lemma restoreOne_stateErr:
  "restoreOne L D now limit revs peer r c w = Inr (ch, c1, w1) \<Longrightarrow> stateErr c1 = stateErr c"
  by (auto simp: restoreOne_def Let_def split: if_splits option.splits sum.splits prod.splits)

lemma restoreLoop_stateErr:
  "restoreLoop L D now limit revs es changed c w = (e, ch, c', w') \<Longrightarrow> stateErr c' = stateErr c"
  by (induction es arbitrary: changed c w) (auto split: sum.splits simp: restoreOne_stateErr)

lemma rollback_scalars [simp]:
  "stateErr (restoreRecordLocked c k old) = stateErr c" "failures (restoreRecordLocked c k old) = failures c"
  "stateErr (restoreQuotaLocked c owner oldq) = stateErr c" "failures (restoreQuotaLocked c owner oldq) = failures c"
  by (simp_all add: restoreRecordLocked_def restoreQuotaLocked_def split: option.splits)

lemma register_lost:
  assumes "registerPeer L D c w peer reqKey = (res, c', w')" and "stateErr c = None" and "stateErr c' = Some e"
  shows "lostWrite D e \<and> failures c' \<noteq> []"
  using assms(1)
proof (cases rule: registerPeer_cases)
  case (admitted cr owner quota)
  from admitted(9) show ?thesis
  proof (cases rule: admitPeer_cases)
    case (unsaved e1 c2)
    with persistLocked_lost [OF unsaved(1)] assms(2,3) show ?thesis by simp
  next
    case (cleaned w2 w3 w4 err c3 e1)
    have "stateErr (c3\<lparr>runtime := del (runtime c3) peer\<rparr>) = None" using assms(2) by (simp add: cleaned(5))
    from persistLocked_lost [OF cleaned(6) this] assms(3) show ?thesis by blast
  qed (use assms in simp_all)
qed (use assms in simp)

lemma issue_lost:
  assumes "issueAuthKeyLocked L D secret key ip maxPerIP window c w = (res, c', w')"
    and "stateErr c = None" and "stateErr c' = Some e"
  shows "lostWrite D e \<and> failures c' \<noteq> []"
proof -
  define c1 where "c1 = rollIssueWindow (nowTime D w) window c"
  define c2 where "c2 = c1\<lparr>issueCounts := put (issueCounts c1) ip (issueCount c1 ip + 1)\<rparr>"
  have se: "stateErr c1 = None" "stateErr c2 = None"
    using assms(2) by (simp_all add: c1_def c2_def rollIssueWindow_def)
  obtain r c3 w3 where p: "persistLocked L D c2 w = (r, c3, w3)" by (metis prod_cases3)
  show ?thesis
    using assms se persistLocked_lost [OF p se(2)] p
    by (auto simp: issueAuthKeyLocked_def Let_def c1_def [symmetric] c2_def [symmetric] split: option.splits if_splits)
qed

lemma restore_lost:
  assumes "restorePeersLocked L D now limit revs c w = (r, c', w')" and "stateErr c = None" and "stateErr c' = Some e"
  shows "lostWrite D e \<and> failures c' \<noteq> []"
proof -
  obtain e1 ch c1 w1 where lp: "restoreLoop L D now limit revs (peers c) False c w = (e1, ch, c1, w1)"
    by (metis prod_cases4)
  note se = restoreLoop_stateErr [OF lp]
  obtain r2 c2 w2 where p: "persistLocked L D c1 w1 = (r2, c2, w2)" by (metis prod_cases3)
  show ?thesis
    using assms se lp p persistLocked_lost [OF p]
    by (auto simp: restorePeersLocked_def split: option.splits if_splits)
qed

lemma reconcile_lost:
  assumes "reconcileLocked L D rd c w = (r, c', w')" and "stateErr c = None" and "stateErr c' = Some e"
    and wf: "wfc L c" "okTime L (rNow rd)" "\<forall>p\<in>set (rPeers rd). okPeer p"
  shows "lostWrite D e \<and> failures c' \<noteq> []"
proof -
  obtain c2 rms where pl: "reconcilePlan L D rd c w = (None, pruneQuotas L rd (prunePeers rd c2), rms)" "wfc L c2"
      "stateErr c2 = stateErr c"
    using reconcilePlan_wf [OF wf, of D w] by metis
  define c3 where "c3 = pruneQuotas L rd (prunePeers rd c2)"
  have w3: "wfc L c3" using pl(2) by (simp add: c3_def prunePeers_wf pruneQuotas_wf)
  have se: "stateErr c3 = None" using pl(3) assms(2) by (simp add: c3_def pruneQuotas_def prunePeers_def)
  obtain r2 c4 w4 where p: "persistLocked L D c3 w = (r2, c4, w4)" by (metis prod_cases3)
  show ?thesis
  proof (cases r2)
    case None
    obtain c5 w5 where rl: "removeLoop D rms c4 w4 = (c5, w5)" by (metis surj_pair)
    have "stateErr c5 = None"
      using removeLoop_wf [OF rl persistLocked_wf [OF p w3]] persistLocked_lost(1) [OF p se] None by simp
    with assms(1-3) pl(1) p rl None show ?thesis by (simp add: reconcileLocked_def c3_def)
  next
    case (Some e2)
    with assms(1,2) pl(1) p have "c' = c4" by (simp add: reconcileLocked_def c3_def)
    with persistLocked_lost [OF p se] assms(3) show ?thesis by blast
  qed
qed

lemma access_op_lost:
  assumes "access_op L D s t" and "wfc L (fst s)" and "stateErr (fst s) = None" and "stateErr (fst t) = Some e"
  shows "lostWrite D e \<and> failures (fst t) \<noteq> []"
  using assms
  by (induction rule: access_op.induct) (auto dest: register_lost issue_lost restore_lost reconcile_lost)

lemma access_op_closed:
  assumes "access_op L D s t" and "stateErr (fst s) \<noteq> None"
  shows "t = s"
  using assms
  by (induction rule: access_op.induct)
    (auto simp: registerPeer_def issueAuthKeyLocked_def restorePeersLocked_def reconcileLocked_def)

lemma access_ops_closed: "(access_op L D)\<^sup>*\<^sup>* s t \<Longrightarrow> stateErr (fst s) \<noteq> None \<Longrightarrow> t = s"
  by (induction rule: rtranclp_induct) (auto dest: access_op_closed)

text \<open>
  C13: the controller fails closed. An operation sets the error state only when a write of the state
  file was lost, and it then leaves the error for the main loop, which stops the process. From then
  on no sequence of operations changes the controller or does anything outside of it: no peer is
  added, no key issued, nothing written.
\<close>

theorem fails_closed:
  assumes "wfc L c" and "stateErr c = None" and "access_op L D (c, w) (c1, w1)" and "stateErr c1 = Some e"
    and "(access_op L D)\<^sup>*\<^sup>* (c1, w1) (c2, w2)"
  shows "lostWrite D e \<and> failures c1 \<noteq> [] \<and> c2 = c1 \<and> w2 = w1"
  using access_op_lost [OF assms(3), of e] access_ops_closed [OF assms(5)] assms(1,2,4) by simp

theorem fails_closed_witness:
  "\<exists>c1 w1. access_op exLib (exBrokenStore ''s'' 5000) (exController 1000, exNow) (c1, w1) \<and> failures c1 \<noteq> []"
proof -
  let ?D = "exBrokenStore ''s'' 5000"
  let ?r = "registerPeer exLib ?D (exController 1000) exNow ''p2'' ''kid''"
  have n: "nowTime ?D exNow = exNow" by (simp add: exBrokenStore_def exDeps_def)
  have op: "access_op exLib ?D (exController 1000, exNow) (fst (snd ?r), snd (snd ?r))"
    by (rule access_op.register [OF exLib_okHash, of _ _ _ _ _ "fst ?r"]) (simp_all add: n exNow_ok)
  have e: "stateErr (fst (snd ?r)) = Some (errAccessStateUnavailable ''disk full'')" by code_simp
  have e0: "stateErr (exController 1000) = None" by (simp add: exController_def newAccessController_def)
  from fails_closed [OF exController_wf e0 op e rtranclp.rtrancl_refl] op show ?thesis by blast
qed

end
