(* ===== verification/AccessIssue.thy ===== *)
theory AccessIssue
  imports AccessRegister
begin

text \<open>
  Issuing keys: the limit per client address within a window, the waiting time a refused client
  is told, and the way of an issued key from the signing scheme of \<open>Auth\<close> through
  \<open>authorizeLocked\<close>.
\<close>

section \<open>One request\<close>

lemma roll_inside:
  assumes "issueWindow c \<noteq> 0" and "issueWindow c \<le> now" and "now < issueWindow c + window" and "window \<le> MaxInt64"
  shows "rollIssueWindow now window c = c"
  using assms by (auto simp: rollIssueWindow_def IsZero_def Before_def Sub_def MinInt64_def)

text \<open>The exits of \<open>issueAuthKeyLocked\<close> on a controller that works.\<close>

lemma issue_cases:
  assumes "issueAuthKeyLocked L D secret key ip maxPerIP window c w = (res, c', w')" and "stateErr c = None"
  defines "c1 \<equiv> rollIssueWindow (nowTime D w) window c"
  obtains
    (rotated) "res = Inl errAccessUnauthorized" and "c' = c" and "w' = w"
      and "authGeneration L (authSecret D w) \<noteq> authGeneration L secret"
  | (limited) d where "res = Inl (issueRateLimitError d)" and "c' = c1" and "w' = w"
      and "d = (if Sub (issueWindow c1 + window) (nowTime D w) < second then second else Sub (issueWindow c1 + window) (nowTime D w))"
      and "maxPerIP \<le> issueCount c1 ip" and "authGeneration L (authSecret D w) = authGeneration L secret"
  | (unsaved) e where "res = Inl e" and "stateErr c' = Some e" and "issueWindow c' = issueWindow c1"
      and "\<And>ip'. issueCount c' ip' = issueCount c1 ip'"
  | (granted) "res = Inr key" and "c' = c1\<lparr>issueCounts := put (issueCounts c1) ip (issueCount c1 ip + 1)\<rparr>"
      and "SaveState D (diskStateLocked L c') w = (None, w')" and "issueCount c1 ip < maxPerIP"
      and "authGeneration L (authSecret D w) = authGeneration L secret"
proof (cases "authGeneration L (authSecret D w) = authGeneration L secret")
  case False
  with assms show thesis by (intro rotated) (simp_all add: issueAuthKeyLocked_def)
next
  case gen: True
  show thesis
  proof (cases "maxPerIP \<le> issueCount c1 ip")
    case True
    have "res = Inl (issueRateLimitError (if Sub (issueWindow c1 + window) (nowTime D w) < second then second
        else Sub (issueWindow c1 + window) (nowTime D w)))" "c' = c1" "w' = w"
      using assms(1,2) gen True by (auto simp: issueAuthKeyLocked_def Let_def c1_def [symmetric])
    from limited [OF this refl True gen] show thesis .
  next
    case False
    define c2 where "c2 = c1\<lparr>issueCounts := put (issueCounts c1) ip (issueCount c1 ip + 1)\<rparr>"
    obtain r c3 w3 where p: "persistLocked L D c2 w = (r, c3, w3)" by (metis prod_cases3)
    have eq: "(res, c', w') = (case r of None \<Rightarrow> (Inr key, c3, w3)
        | Some e \<Rightarrow> (Inl e, c3\<lparr>issueCounts := put (issueCounts c3) ip (issueCount c1 ip)\<rparr>, w3))"
      using assms(1,2) gen False p by (auto simp: issueAuthKeyLocked_def Let_def c1_def [symmetric] c2_def split: option.splits)
    show thesis
    proof (cases r)
      case None
      with p have "c3 = c2" "SaveState D (diskStateLocked L c2) w = (None, w3)" by (auto simp: persistLocked_None)
      with eq None False gen show thesis by (intro granted) (auto simp: c2_def)
    next
      case (Some e)
      have "stateErr c3 = Some e" using persistLocked_Some [of L D c2 w e c3 w3] p Some by simp
      with eq Some persistLocked_maps [OF p] show thesis
        by (intro unsaved [of e]) (auto simp: c2_def issueCount_def split: option.splits)
    qed
  qed
qed

section \<open>Many requests\<close>

text \<open>
  The addresses that were granted a key when a list of requests is served in turn. Each request
  brings its own secret, fresh key and address, and meets its own world, so that anything may
  happen outside between two of them.
\<close>

fun issueGranted ::
  "lib \<Rightarrow> 'w deps \<Rightarrow> int \<Rightarrow> duration \<Rightarrow> accessController \<Rightarrow> (string \<times> string \<times> string \<times> 'w) list \<Rightarrow> string list" where
  "issueGranted L D maxPerIP window c [] = []"
| "issueGranted L D maxPerIP window c ((secret, key, ip, w) # rest) =
     (case issueAuthKeyLocked L D secret key ip maxPerIP window c w of
        (Inl _, c', _) \<Rightarrow> issueGranted L D maxPerIP window c' rest
      | (Inr _, c', _) \<Rightarrow> ip # issueGranted L D maxPerIP window c' rest)"

lemma issue_inside:
  assumes "issueAuthKeyLocked L D secret key ip maxPerIP window c w = (res, c', w')"
    and "issueWindow c \<noteq> 0" and "issueWindow c \<le> nowTime D w" and "nowTime D w < issueWindow c + window" and "window \<le> MaxInt64"
  shows "issueWindow c' = issueWindow c"
    and "\<And>ip'. issueCount c' ip' = issueCount c ip' + (if (\<exists>k. res = Inr k) \<and> ip' = ip then 1 else 0)"
    and "(\<exists>k. res = Inr k) \<Longrightarrow> issueCount c ip < maxPerIP"
proof -
  note roll = roll_inside [OF assms(2-5)]
  have "issueWindow c' = issueWindow c \<and> (\<forall>ip'. issueCount c' ip' = issueCount c ip' + (if (\<exists>k. res = Inr k) \<and> ip' = ip then 1 else 0))
    \<and> ((\<exists>k. res = Inr k) \<longrightarrow> issueCount c ip < maxPerIP)"
  proof (cases "stateErr c")
    case (Some e)
    with assms(1) show ?thesis by (auto simp: issueAuthKeyLocked_def)
  next
    case None
    from assms(1) None show ?thesis
      by (cases rule: issue_cases) (simp_all add: roll, simp_all add: issueCount_def)
  qed
  then show "issueWindow c' = issueWindow c"
    and "\<And>ip'. issueCount c' ip' = issueCount c ip' + (if (\<exists>k. res = Inr k) \<and> ip' = ip then 1 else 0)"
    and "(\<exists>k. res = Inr k) \<Longrightarrow> issueCount c ip < maxPerIP" by blast+
qed

text \<open>
  C31: whatever the requests and whatever happens between them, within one window an address is
  granted no more keys than the limit leaves it: the limit less the count already stored, which
  is also what survives a restart.
\<close>

theorem issue_limit:
  assumes "issueWindow c \<noteq> 0" and "window \<le> MaxInt64"
    and "\<forall>(secret, key, addr, w)\<in>set reqs. issueWindow c \<le> nowTime D w \<and> nowTime D w < issueWindow c + window"
  shows "int (count_list (issueGranted L D maxPerIP window c reqs) ip) \<le> max 0 (maxPerIP - issueCount c ip)"
  using assms
proof (induction reqs arbitrary: c)
  case (Cons req reqs)
  obtain secret key addr w where req: "req = (secret, key, addr, w)" by (metis prod_cases4)
  obtain res c' w' where r: "issueAuthKeyLocked L D secret key addr maxPerIP window c w = (res, c', w')"
    by (metis prod_cases3)
  have t: "issueWindow c \<le> nowTime D w" "nowTime D w < issueWindow c + window"
    using Cons.prems(3) by (simp_all add: req)
  note i = issue_inside [OF r Cons.prems(1) t Cons.prems(2)]
  have "int (count_list (issueGranted L D maxPerIP window c' reqs) ip) \<le> max 0 (maxPerIP - issueCount c' ip)"
    using Cons.prems by (intro Cons.IH) (simp_all add: i(1))
  with r i(2) [of ip] i(3) show ?case by (cases res) (auto simp: req)
qed simp

theorem issue_limit_witness:
  "int (count_list (issueGranted exLib (exDeps ''s'' 0) 1 (24 * hour) (exController 1000)
     [(''s'', ''k1'', ''192.0.2.1'', exNow), (''s'', ''k2'', ''192.0.2.1'', exNow + second)]) ''192.0.2.1'') \<le> 1
   \<and> issueGranted exLib (exDeps ''s'' 0) 1 (24 * hour) (exController 1000)
     [(''s'', ''k1'', ''192.0.2.1'', exNow), (''s'', ''k2'', ''192.0.2.1'', exNow + second)] = [''192.0.2.1'']"
proof -
  have w: "issueWindow (exController 1000) = exNow" "issueCount (exController 1000) ''192.0.2.1'' = 0"
    by (simp_all add: exController_def newAccessController_def issueCount_def)
  have "issueGranted exLib (exDeps ''s'' 0) 1 (24 * hour) (exController 1000)
     [(''s'', ''k1'', ''192.0.2.1'', exNow), (''s'', ''k2'', ''192.0.2.1'', exNow + second)] = [''192.0.2.1'']"
    by code_simp
  then show ?thesis
    using issue_limit [of "exController 1000" "24 * hour"
        "[(''s'', ''k1'', ''192.0.2.1'', exNow), (''s'', ''k2'', ''192.0.2.1'', exNow + second)]" "exDeps ''s'' 0" exLib 1 "''192.0.2.1''"]
    by (simp add: w exNow_def exDeps_def MaxInt64_def)
qed

section \<open>Waiting for the next window\<close>

lemma roll_facts:
  assumes "0 < window" "window \<le> MaxInt64" "now \<noteq> 0"
  shows "issueWindow (rollIssueWindow now window c) \<le> now" and "now < issueWindow (rollIssueWindow now window c) + window"
    and "issueWindow (rollIssueWindow now window c) \<noteq> 0"
  using assms by (auto simp: rollIssueWindow_def IsZero_def Before_def Sub_def MinInt64_def MaxInt64_def split: if_splits)

text \<open>
  C32: a client that is refused for the rate is told to wait at least a second and at most the
  window, and the answer is true: once it has waited that long, the same controller grants it a
  key, provided the secret is still the same and the state can be written.
\<close>

theorem issue_retry_after:
  assumes "issueAuthKeyLocked L D secret key ip maxPerIP window c w = (Inl (issueRateLimitError d), c', w')"
    and "stateErr c = None" and "nowTime D w \<noteq> 0" and "second \<le> window" and "window \<le> MaxInt64" and "0 < maxPerIP"
    and later: "nowTime D w + d \<le> nowTime D w2" "authGeneration L (authSecret D w2) = authGeneration L secret2"
      "\<forall>st. fst (SaveState D st w2) = None"
  shows "second \<le> d \<and> d \<le> window \<and> (\<exists>c2 w3. issueAuthKeyLocked L D secret2 key2 ip maxPerIP window c' w2 = (Inr key2, c2, w3))"
  using assms(1,2)
proof (cases rule: issue_cases)
  case (limited d')
  define c1 where "c1 = rollIssueWindow (nowTime D w) window c"
  have pos: "0 < window" using assms(4) by simp
  note f = roll_facts [OF pos assms(5,3), of c, folded c1_def]
  have "Sub (issueWindow c1 + window) (nowTime D w) = issueWindow c1 + window - nowTime D w"
    using f assms(5) by (simp add: Sub_def MinInt64_def)
  then have d: "d = max second (issueWindow c1 + window - nowTime D w)"
    using limited(1,4) by (auto simp: c1_def max_def)
  have c': "c' = c1" using limited(2) by (simp add: c1_def)
  have open_w: "rollIssueWindow (nowTime D w2) window c1 = c1\<lparr>issueWindow := nowTime D w2, issueCounts := []\<rparr>" (is "_ = ?c2")
    using later(1) d f assms(5) by (auto simp: rollIssueWindow_def Sub_def MinInt64_def)
  have se: "stateErr c1 = None" using assms(2) by (simp add: c1_def rollIssueWindow_def)
  define c3 where "c3 = ?c2\<lparr>issueCounts := put [] ip 1\<rparr>"
  obtain w3 where "SaveState D (diskStateLocked L c3) w2 = (None, w3)" using later(3) by (metis prod.collapse)
  then have "persistLocked L D c3 w2 = (None, c3, w3)" by (simp add: persistLocked_None c3_def se)
  then have "issueAuthKeyLocked L D secret2 key2 ip maxPerIP window c' w2 = (Inr key2, c3, w3)"
    using later(2) assms(6) se by (simp add: issueAuthKeyLocked_def c' open_w issueCount_def c3_def)
  with d f assms(4) show ?thesis by auto
next
  case (unsaved e)
  with issue_lost [OF assms(1,2)] show ?thesis by (auto simp: lostWrite_def)
qed simp_all

theorem issue_retry_after_witness:
  "\<exists>d c' w'. issueAuthKeyLocked exLib (exDeps ''s'' 0) ''s'' ''k1'' ''192.0.2.1'' 1 (24 * hour)
        ((exController 1000)\<lparr>issueCounts := [(''192.0.2.1'', 1)]\<rparr>) (exNow + hour) = (Inl (issueRateLimitError d), c', w')
     \<and> d \<le> 24 * hour
     \<and> (\<exists>c2 w3. issueAuthKeyLocked exLib (exDeps ''s'' 0) ''s'' ''k2'' ''192.0.2.1'' 1 (24 * hour) c' (exNow + hour + d) = (Inr ''k2'', c2, w3))"
proof -
  let ?D = "exDeps ''s'' 0" and ?c = "(exController 1000)\<lparr>issueCounts := [(''192.0.2.1'', 1)]\<rparr>"
  let ?r = "issueAuthKeyLocked exLib ?D ''s'' ''k1'' ''192.0.2.1'' 1 (24 * hour) ?c (exNow + hour)"
  have "fst ?r = Inl (issueRateLimitError (23 * hour))" by code_simp
  then have r: "?r = (Inl (issueRateLimitError (23 * hour)), fst (snd ?r), snd (snd ?r))" by (metis prod.collapse)
  have n: "nowTime ?D w = w" "authSecret ?D w = ''s''" "\<forall>st. fst (SaveState ?D st w) = None" for w by (simp_all add: exDeps_def)
  have "stateErr ?c = None" "exNow + hour \<noteq> 0" by (simp_all add: exController_def newAccessController_def exNow_def)
  then have "\<exists>c2 w3. issueAuthKeyLocked exLib ?D ''s'' ''k2'' ''192.0.2.1'' 1 (24 * hour) (fst (snd ?r)) (exNow + hour + 23 * hour) = (Inr ''k2'', c2, w3)"
    using issue_retry_after [OF r, of "exNow + hour + 23 * hour" "''s''" "''k2''"] by (simp add: n MaxInt64_def)
  with r show ?thesis
    by (intro exI [of _ "23 * hour"] exI [of _ "fst (snd ?r)"] exI [of _ "snd (snd ?r)"]) simp
qed

section \<open>Issued keys are accepted\<close>

text \<open>The controller's key functions are those of \<open>internal/auth.go\<close>, under the current secret.\<close>

definition keysByHmac :: "(string \<Rightarrow> string \<Rightarrow> string) \<Rightarrow> 'w deps \<Rightarrow> bool" where
  "keysByHmac hmac D \<longleftrightarrow> (\<forall>w key. validateKey D w key = ValidateAuthKey hmac (authSecret D w) key)"

lemma hexEncode_not_reserved:
  assumes "b \<noteq> []"
  shows "hexEncode b \<noteq> []" "hexEncode b \<noteq> ''open''" "hexEncode b \<noteq> ''shared''"
proof -
  have no: "CHR ''o'' \<notin> set (hexEncode b)" "CHR ''s'' \<notin> set (hexEncode b)"
    using hexEncode_chars hexDigit_sweep by metis+
  then show "hexEncode b \<noteq> ''open''" "hexEncode b \<noteq> ''shared''" by auto
  show "hexEncode b \<noteq> []" using assms by (cases b) auto
qed

text \<open>
  C33: a server in secret mode accepts a request key exactly when it is the key the server signs
  for an id that is not revoked. In particular every key it issued under that secret is accepted
  until its id is revoked, and passes as a credential of the current mode.
\<close>

theorem secret_mode_authorizes:
  assumes "keysByHmac hmac D" and "authSecret D w \<noteq> []" and "LoadRevocations D w = Inr revoked"
  shows "((\<exists>cr. authorizeLocked L D w reqKey = (cr, None)) \<longleftrightarrow>
      (\<exists>kid. kid \<noteq> [] \<and> CHR ''.'' \<notin> set kid \<and> reqKey = makeAuthKey hmac (authSecret D w) kid \<and> \<not> revoked kid))
    \<and> (IssueAuthKey hmac (authSecret D w) (Inr b) = Inr reqKey \<and> b \<noteq> [] \<and> \<not> revoked (hexEncode b) \<longrightarrow>
        authorizeLocked L D w reqKey = (\<lparr>keyID = hexEncode b, authGen = authGeneration L (authSecret D w)\<rparr>, None)
        \<and> credentialMatchesCurrentModeLocked L D w \<lparr>keyID = hexEncode b, authGen = authGeneration L (authSecret D w)\<rparr>)"
proof -
  obtain s ss where secret: "authSecret D w = s # ss" using assms(2) by (cases "authSecret D w") auto
  have v: "validateKey D w reqKey = ValidateAuthKey hmac (s # ss) reqKey" using assms(1) by (simp add: keysByHmac_def secret)
  have auth: "authorizeLocked L D w reqKey = (case ValidateAuthKey hmac (s # ss) reqKey of (kid, valid) \<Rightarrow>
      if \<not> valid then (\<lparr>keyID = [], authGen = []\<rparr>, Some errAccessUnauthorized)
      else (\<lparr>keyID = kid, authGen = authGeneration L (s # ss)\<rparr>, if revoked kid then Some errAccessUnauthorized else None))"
    by (simp add: authorizeLocked_def secret v assms(3) split: prod.splits)
  have iff: "(\<exists>cr. authorizeLocked L D w reqKey = (cr, None)) \<longleftrightarrow> (\<exists>kid. ValidateAuthKey hmac (s # ss) reqKey = (kid, True) \<and> \<not> revoked kid)"
    by (auto simp: auth split: prod.splits)
  have issue: "authorizeLocked L D w reqKey = (\<lparr>keyID = hexEncode b, authGen = authGeneration L (s # ss)\<rparr>, None)
      \<and> credentialMatchesCurrentModeLocked L D w \<lparr>keyID = hexEncode b, authGen = authGeneration L (s # ss)\<rparr>"
    if "IssueAuthKey hmac (s # ss) (Inr b) = Inr reqKey" "b \<noteq> []" "\<not> revoked (hexEncode b)"
    using Validate_Issue [OF _ that(1,2)] that(3) hexEncode_not_reserved [OF that(2)]
    by (simp add: auth credentialMatchesCurrentModeLocked_def secret)
  show ?thesis
    unfolding iff issued.validate_iff secret using issue by blast
qed

theorem secret_mode_authorizes_witness:
  "\<exists>cr. authorizeLocked exLib ((exDeps ''s'' 0)\<lparr>validateKey := (\<lambda>w. ValidateAuthKey (\<lambda>k m. k @ m) ''s'')\<rparr>) exNow
      (makeAuthKey (\<lambda>k m. k @ m) ''s'' ''4f'') = (cr, None)"
proof -
  let ?D = "(exDeps ''s'' 0)\<lparr>validateKey := (\<lambda>w. ValidateAuthKey (\<lambda>k m. k @ m) ''s'')\<rparr>"
  have h: "keysByHmac (\<lambda>k m. k @ m) ?D" "authSecret ?D exNow = ''s''" "LoadRevocations ?D exNow = Inr (\<lambda>_. False)"
    by (simp_all add: keysByHmac_def exDeps_def)
  have i: "IssueAuthKey (\<lambda>k m. k @ m) ''s'' (Inr ''O'') = Inr (makeAuthKey (\<lambda>k m. k @ m) ''s'' ''4f'')" by code_simp
  from secret_mode_authorizes [OF h(1) _ h(3), unfolded h(2), of exLib "makeAuthKey (\<lambda>k m. k @ m) ''s'' ''4f''" "''O''"] i
  show ?thesis by auto
qed

end
