(* ===== verification/AccessReconcile.thy ===== *)
theory AccessReconcile
  imports AccessIssue
begin

text \<open>
  What a reconciliation does, told apart from its loops: the bytes each quota owner is charged,
  the owners it blocks, and exactly which device peers it removes. Then what a restart restores.
\<close>

section \<open>What the accounting loop charges\<close>

text \<open>The owner a device peer is charged to, and the amounts one owner is charged.\<close>

definition chargedOwner :: "lib \<Rightarrow> reconcileRead \<Rightarrow> accessController \<Rightarrow> wgPeer \<Rightarrow> string" where
  "chargedOwner L rd c p = recordOwner L (PublicKey p) (accountedRecord c p (rNow rd))"

definition chargedTo :: "lib \<Rightarrow> 'w deps \<Rightarrow> reconcileRead \<Rightarrow> 'w \<Rightarrow> accessController \<Rightarrow> string \<Rightarrow> wgPeer list \<Rightarrow> int list" where
  "chargedTo L D rd w c owner ps =
     concat (map (\<lambda>p. case usageDelta c p (rNow rd) of (drx, dtx) \<Rightarrow> [drx, dtx])
       (filter (\<lambda>p. \<not> intruder D rd w c p \<and> chargedOwner L rd c p = owner) ps))"

lemma accounted_simps:
  "map_of (peers (accounted L rd c p)) =
     (map_of (peers c))(PublicKey p \<mapsto> observeEndpoint (rNow rd) p (addedAt (accountedRuntime c p (rNow rd)))
        ((accountedRecord c p (rNow rd))\<lparr>LastSeen := rNow rd\<rparr>))"
  "map_of (runtime (accounted L rd c p)) =
     (map_of (runtime c))(PublicKey p \<mapsto> (accountedRuntime c p (rNow rd))\<lparr>lastRx := ReceiveBytes p, lastTx := TransmitBytes p\<rparr>)"
  "map_of (quotas (accounted L rd c p)) = (map_of (quotas c))(chargedOwner L rd c p \<mapsto>
     (let q = fetchQuota L (quotas c) (chargedOwner L rd c p) (rNow rd); (drx, dtx) = usageDelta c p (rNow rd)
      in q\<lparr>UsedBytes := addUsage (addUsage (UsedBytes q) drx) dtx, QLastSeen := rNow rd\<rparr>))"
  by (simp_all add: accounted_def chargedOwner_def Let_def split_beta)

text \<open>Accounting for one peer does not change what another one is charged.\<close>

lemma accounted_other:
  assumes "PublicKey p' \<noteq> PublicKey p"
  shows "accountedRecord (accounted L rd c p) p' now = accountedRecord c p' now"
    and "accountedRuntime (accounted L rd c p) p' now = accountedRuntime c p' now"
    and "usageDelta (accounted L rd c p) p' now = usageDelta c p' now"
    and "intruder D rd w (accounted L rd c p) p' = intruder D rd w c p'"
    and "chargedOwner L rd (accounted L rd c p) p' = chargedOwner L rd c p'"
  using assms by (simp_all add: accountedRecord_def accountedRuntime_def usageDelta_def intruder_def chargedOwner_def accounted_simps)

lemma chargedTo_other:
  assumes "PublicKey p \<notin> PublicKey ` set ps"
  shows "chargedTo L D rd w (accounted L rd c p) owner ps = chargedTo L D rd w c owner ps"
proof -
  have ne: "intruder D rd w (accounted L rd c p) x = intruder D rd w c x" "chargedOwner L rd (accounted L rd c p) x = chargedOwner L rd c x"
      "usageDelta (accounted L rd c p) x (rNow rd) = usageDelta c x (rNow rd)" if "x \<in> set ps" for x
  proof -
    have "PublicKey x \<noteq> PublicKey p" using assms that by (metis imageI)
    then show "intruder D rd w (accounted L rd c p) x = intruder D rd w c x" "chargedOwner L rd (accounted L rd c p) x = chargedOwner L rd c x"
      "usageDelta (accounted L rd c p) x (rNow rd) = usageDelta c x (rNow rd)" by (rule accounted_other)+
  qed
  have "filter (\<lambda>p'. \<not> intruder D rd w (accounted L rd c p) p' \<and> chargedOwner L rd (accounted L rd c p) p' = owner) ps
      = filter (\<lambda>p'. \<not> intruder D rd w c p' \<and> chargedOwner L rd c p' = owner) ps"
    by (intro filter_cong) (auto simp: ne)
  then show ?thesis unfolding chargedTo_def by (intro arg_cong [of _ _ concat] map_cong) (auto simp: ne)
qed

lemma normalize_fixed: "normalizeQuotaState L q now = q \<longleftrightarrow> UsageDate q = FormatDateOnly (Local L) now \<and> (BlockedUntil q = 0 \<or> now < BlockedUntil q)"
proof
  assume n: "normalizeQuotaState L q now = q"
  have "UsageDate q = FormatDateOnly (Local L) now" using normalize_fields(1) [of L q now] by (simp add: n)
  moreover have "BlockedUntil (normalizeQuotaState L q now) = BlockedUntil q" by (simp add: n)
  ultimately show "UsageDate q = FormatDateOnly (Local L) now \<and> (BlockedUntil q = 0 \<or> now < BlockedUntil q)"
    by (auto simp: normalizeQuotaState_def Before_def IsZero_def split: if_splits)
qed (auto simp: normalizeQuotaState_def Before_def IsZero_def)

lemma fetchQuota_fixed: "normalizeQuotaState L (fetchQuota L qs owner now) now = fetchQuota L qs owner now"
  by (simp add: fetchQuota_def)

lemma accounted_fetch:
  "UsedBytes (fetchQuota L (quotas (accounted L rd c p)) owner (rNow rd)) =
     (if chargedOwner L rd c p = owner
      then addUsage (addUsage (UsedBytes (fetchQuota L (quotas c) owner (rNow rd))) (fst (usageDelta c p (rNow rd))))
             (snd (usageDelta c p (rNow rd)))
      else UsedBytes (fetchQuota L (quotas c) owner (rNow rd)))"
  "BlockedUntil (fetchQuota L (quotas (accounted L rd c p)) owner (rNow rd)) = BlockedUntil (fetchQuota L (quotas c) owner (rNow rd))"
proof -
  define q where "q = fetchQuota L (quotas c) (chargedOwner L rd c p) (rNow rd)"
  have q: "normalizeQuotaState L q (rNow rd) = q" by (simp add: q_def fetchQuota_fixed)
  then have fixed: "normalizeQuotaState L (q\<lparr>UsedBytes := x, QLastSeen := y\<rparr>) (rNow rd) = q\<lparr>UsedBytes := x, QLastSeen := y\<rparr>" for x y
    by (simp add: normalize_fixed)
  have own: "fetchQuota L (quotas (accounted L rd c p)) (chargedOwner L rd c p) (rNow rd) =
      q\<lparr>UsedBytes := addUsage (addUsage (UsedBytes q) (fst (usageDelta c p (rNow rd)))) (snd (usageDelta c p (rNow rd))), QLastSeen := rNow rd\<rparr>"
    by (subst fetchQuota_def) (simp add: accounted_simps Let_def split_beta q_def [symmetric] fixed)
  have other: "fetchQuota L (quotas (accounted L rd c p)) owner (rNow rd) = fetchQuota L (quotas c) owner (rNow rd)"
    if "chargedOwner L rd c p \<noteq> owner"
    using that by (simp add: fetchQuota_def accounted_simps)
  show "UsedBytes (fetchQuota L (quotas (accounted L rd c p)) owner (rNow rd)) =
     (if chargedOwner L rd c p = owner
      then addUsage (addUsage (UsedBytes (fetchQuota L (quotas c) owner (rNow rd))) (fst (usageDelta c p (rNow rd))))
             (snd (usageDelta c p (rNow rd)))
      else UsedBytes (fetchQuota L (quotas c) owner (rNow rd)))"
    "BlockedUntil (fetchQuota L (quotas (accounted L rd c p)) owner (rNow rd)) = BlockedUntil (fetchQuota L (quotas c) owner (rNow rd))"
    using own other by (cases "chargedOwner L rd c p = owner"; auto simp: q_def)+
qed

text \<open>The controller at the end of the loop, as a fold over the peers that are charged.\<close>

definition accountFold :: "lib \<Rightarrow> 'w deps \<Rightarrow> reconcileRead \<Rightarrow> 'w \<Rightarrow> accessController \<Rightarrow> wgPeer list \<Rightarrow> accessController" where
  "accountFold L D rd w c ps = foldl (\<lambda>c p. if intruder D rd w c p then c else accounted L rd c p) c ps"

lemma accountFold_simps [simp]:
  "accountFold L D rd w c [] = c"
  "accountFold L D rd w c (p # ps) = accountFold L D rd w (if intruder D rd w c p then c else accounted L rd c p) ps"
  by (simp_all add: accountFold_def)

lemma intruders_other:
  "PublicKey p \<notin> PublicKey ` set ps \<Longrightarrow> filter (intruder D rd w (accounted L rd c p)) ps = filter (intruder D rd w c) ps"
  by (intro filter_cong) (auto simp: accounted_other(4) image_iff)

lemma accountLoop_fold:
  assumes "wfc L c" and "okTime L (rNow rd)" and "\<forall>p\<in>set ps. okPeer p" and "distinct (map PublicKey ps)"
  shows "accountLoop L D rd w ps c un = (None, accountFold L D rd w c ps, un @ map PublicKey (filter (intruder D rd w c) ps))"
  using assms
proof (induction ps arbitrary: c un)
  case (Cons p ps)
  then show ?case by (simp add: accountPeer_eq accounted_wf intruders_other)
qed simp

lemma accountFold_other:
  "k \<notin> PublicKey ` set ps \<Longrightarrow> map_of (peers (accountFold L D rd w c ps)) k = map_of (peers c) k
     \<and> map_of (runtime (accountFold L D rd w c ps)) k = map_of (runtime c) k"
  by (induction ps arbitrary: c) (auto simp: accounted_simps)

lemma accountFold_peer:
  assumes "p \<in> set ps" and "distinct (map PublicKey ps)" and "\<not> intruder D rd w c p"
  shows "map_of (peers (accountFold L D rd w c ps)) (PublicKey p)
      = Some (observeEndpoint (rNow rd) p (addedAt (accountedRuntime c p (rNow rd))) ((accountedRecord c p (rNow rd))\<lparr>LastSeen := rNow rd\<rparr>))
    \<and> map_of (runtime (accountFold L D rd w c ps)) (PublicKey p)
      = Some ((accountedRuntime c p (rNow rd))\<lparr>lastRx := ReceiveBytes p, lastTx := TransmitBytes p\<rparr>)"
  using assms
proof (induction ps arbitrary: c)
  case (Cons p' ps)
  show ?case
  proof (cases "p = p'")
    case True
    with Cons.prems accountFold_other [of "PublicKey p" ps L D rd w "accounted L rd c p"] show ?thesis
      by (auto simp: accounted_simps)
  next
    case False
    with Cons.prems have p: "p \<in> set ps" "distinct (map PublicKey ps)" "\<not> intruder D rd w c p"
      and ne: "PublicKey p \<noteq> PublicKey p'" by (auto simp: rev_image_eqI)
    note o = accounted_other [OF ne]
    show ?thesis
      using Cons.IH [OF p] Cons.IH [of "accounted L rd c p'", OF p(1,2)] p(3) by (simp add: o)
  qed
qed simp

lemma accountFold_usage:
  assumes "distinct (map PublicKey ps)"
  shows "UsedBytes (fetchQuota L (quotas (accountFold L D rd w c ps)) owner (rNow rd))
      = foldl addUsage (UsedBytes (fetchQuota L (quotas c) owner (rNow rd))) (chargedTo L D rd w c owner ps)"
  using assms
proof (induction ps arbitrary: c)
  case (Cons p ps)
  then have "PublicKey p \<notin> PublicKey ` set ps" by auto
  note other = chargedTo_other [OF this, of L D rd w c owner]
  have "chargedTo L D rd w c owner (p # ps) = (if \<not> intruder D rd w c p \<and> chargedOwner L rd c p = owner
      then [fst (usageDelta c p (rNow rd)), snd (usageDelta c p (rNow rd))] else []) @ chargedTo L D rd w c owner ps"
    by (simp add: chargedTo_def split_beta)
  with Cons other show ?case by (simp add: accounted_fetch)
qed (simp add: chargedTo_def)

lemma accountFold_blocked:
  "BlockedUntil (fetchQuota L (quotas (accountFold L D rd w c ps)) owner (rNow rd)) = BlockedUntil (fetchQuota L (quotas c) owner (rNow rd))"
  by (induction ps arbitrary: c) (simp_all add: accounted_fetch)

text \<open>An owner whose stored quota is the one of today.\<close>

definition upToDate :: "lib \<Rightarrow> time \<Rightarrow> accessController \<Rightarrow> string \<Rightarrow> bool" where
  "upToDate L now c owner \<longleftrightarrow> map_of (quotas c) owner = Some (fetchQuota L (quotas c) owner now)"

lemma upToDate_iff: "upToDate L now c owner \<longleftrightarrow> (\<exists>q. map_of (quotas c) owner = Some q \<and> normalizeQuotaState L q now = q)"
  by (auto simp: upToDate_def fetchQuota_def split: option.splits)

lemma accounted_upToDate:
  "upToDate L (rNow rd) c owner \<or> chargedOwner L rd c p = owner \<Longrightarrow> upToDate L (rNow rd) (accounted L rd c p) owner"
  using fetchQuota_fixed [of L "quotas c" "chargedOwner L rd c p" "rNow rd"]
  by (auto simp: upToDate_iff accounted_simps normalize_fixed Let_def split_beta)

lemma accountFold_upToDate:
  assumes "upToDate L (rNow rd) c owner \<or> (\<exists>p\<in>set ps. \<not> intruder D rd w c p \<and> chargedOwner L rd c p = owner)"
    and "distinct (map PublicKey ps)"
  shows "upToDate L (rNow rd) (accountFold L D rd w c ps) owner"
  using assms
proof (induction ps arbitrary: c)
  case (Cons p ps)
  let ?c = "if intruder D rd w c p then c else accounted L rd c p"
  have "upToDate L (rNow rd) ?c owner \<or> (\<exists>p'\<in>set ps. \<not> intruder D rd w ?c p' \<and> chargedOwner L rd ?c p' = owner)"
  proof (cases "upToDate L (rNow rd) c owner \<or> \<not> intruder D rd w c p \<and> chargedOwner L rd c p = owner")
    case True
    then show ?thesis by (auto simp: accounted_upToDate)
  next
    case False
    with Cons.prems(1) obtain p' where p': "p' \<in> set ps" "\<not> intruder D rd w c p'" "chargedOwner L rd c p' = owner" by auto
    then have "PublicKey p' \<noteq> PublicKey p" using Cons.prems(2) by (auto simp: rev_image_eqI)
    note o = accounted_other [OF this]
    show ?thesis using p' by (intro disjI2 bexI [of _ p']) (simp_all add: o)
  qed
  then show ?case using Cons.IH [of ?c] Cons.prems(2) by simp
qed simp

section \<open>What the blocking loop blocks\<close>

definition blockQuota :: "lib \<Rightarrow> reconcileRead \<Rightarrow> accessQuotaState \<Rightarrow> accessQuotaState" where
  "blockQuota L rd q = (if UsedBytes q \<le> rLimit rd \<or> Before (rNow rd) (BlockedUntil q) then q
     else q\<lparr>BlockedUntil := nextLocalMidnight L (rNow rd)\<rparr>)"

lemma blockQuota_idem [simp]: "blockQuota L rd (blockQuota L rd q) = blockQuota L rd q"
  by (simp add: blockQuota_def)

lemma blockPeer_quotas:
  "map_of (quotas (blockPeer L rd c p)) owner =
     (if map_option (recordOwner L (PublicKey p)) (map_of (peers c) (PublicKey p)) = Some owner
      then map_option (blockQuota L rd) (map_of (quotas c) owner) else map_of (quotas c) owner)"
  by (auto simp: blockPeer_def blockQuota_def Let_def split: option.split)

lemma blockFold_quotas:
  "map_of (quotas (foldl (blockPeer L rd) c ps)) owner =
     (if \<exists>p\<in>set ps. map_option (recordOwner L (PublicKey p)) (map_of (peers c) (PublicKey p)) = Some owner
      then map_option (blockQuota L rd) (map_of (quotas c) owner) else map_of (quotas c) owner)"
proof (induction ps arbitrary: c)
  case (Cons p ps)
  have "map_option (blockQuota L rd) (map_option (blockQuota L rd) x) = map_option (blockQuota L rd) x" for x
    by (cases x) simp_all
  with Cons show ?case by (auto simp: blockPeer_quotas)
qed simp

section \<open>What the judging loop removes\<close>

definition verdict ::
  "lib \<Rightarrow> 'w deps \<Rightarrow> reconcileRead \<Rightarrow> 'w \<Rightarrow> wgKey list \<Rightarrow> accessController \<Rightarrow> wgPeer \<Rightarrow> peerRemoval list" where
  "verdict L D rd w un c p = (case judgePeer L D rd w un c p of Inl _ \<Rightarrow> [] | Inr (_, new) \<Rightarrow> new)"

lemma verdict_cong:
  assumes "map_of (peers c') (PublicKey p) = map_of (peers c) (PublicKey p)" and "quotas c' = quotas c" and "runtime c' = runtime c"
  shows "verdict L D rd w un c' p = verdict L D rd w un c p"
  using assms by (auto simp: verdict_def judgePeer_def Let_def split: option.split sum.split)

lemma judgeLoop_verdicts:
  assumes "wfc L c" and "\<forall>p\<in>set ps. PublicKey p \<in> set un \<or> tracked c (PublicKey p)" and "distinct (map PublicKey ps)"
    and "judgeLoop L D rd w un ps c rms = (None, c1, rms1)"
  shows "rms1 = rms @ concat (map (verdict L D rd w un c) ps)
    \<and> (\<forall>k. map_option (\<lambda>r. (KeyID r, AuthGeneration r)) (map_of (peers c1) k) = map_option (\<lambda>r. (KeyID r, AuthGeneration r)) (map_of (peers c) k))"
  using assms
proof (induction ps arbitrary: c rms)
  case (Cons p ps)
  have t: "PublicKey p \<in> set un \<or> tracked c (PublicKey p)" using Cons.prems(2) by simp
  show ?case
    using Cons.prems(1) t
  proof (cases rule: judgePeer_cases [where D = D and rd = rd and w = w])
    case (removed r q rt why)
    define c2 where "c2 = clearEndpoint c (PublicKey p) r"
    have wf: "wfc L c2" unfolding c2_def using Cons.prems(1) removed(2) by (rule wf_clearEndpoint)
    have "verdict L D rd w un c2 p' = verdict L D rd w un c p'" if "p' \<in> set ps" for p'
      using that Cons.prems(3) by (intro verdict_cong) (auto simp: c2_def rev_image_eqI)
    then have v: "map (verdict L D rd w un c2) ps = map (verdict L D rd w un c) ps" by simp
    have "judgeLoop L D rd w un ps c2 (rms @ [\<lparr>remKey = PublicKey p, reason = why\<rparr>]) = (None, c1, rms1)"
      using Cons.prems(4) removed(7) by (simp add: c2_def)
    moreover have "\<forall>p\<in>set ps. PublicKey p \<in> set un \<or> tracked c2 (PublicKey p)" using Cons.prems(2) by (auto simp: c2_def)
    moreover have "map_option (\<lambda>r. (KeyID r, AuthGeneration r)) (map_of (peers c2) k) = map_option (\<lambda>r. (KeyID r, AuthGeneration r)) (map_of (peers c) k)" for k
      by (simp add: c2_def removed(2))
    moreover have "verdict L D rd w un c p = [\<lparr>remKey = PublicKey p, reason = why\<rparr>]" by (simp add: verdict_def removed(7))
    ultimately show ?thesis using Cons.IH [OF wf, of "rms @ [\<lparr>remKey = PublicKey p, reason = why\<rparr>]", unfolded v] Cons.prems(3) by simp
  qed (use Cons.IH [OF Cons.prems(1)] Cons.prems(2-4) in \<open>simp_all add: verdict_def\<close>)
qed simp

section \<open>The contract of a reconciliation\<close>

text \<open>When a reconciliation has to remove a device peer, in terms of the controller it started from.\<close>

definition idleSince :: "wgPeer \<Rightarrow> peerRuntime \<Rightarrow> time" where
  "idleSince p rt = (if LastHandshakeTime p = 0 then addedAt rt else LastHandshakeTime p)"

definition usedAfter :: "lib \<Rightarrow> 'w deps \<Rightarrow> reconcileRead \<Rightarrow> 'w \<Rightarrow> accessController \<Rightarrow> string \<Rightarrow> int" where
  "usedAfter L D rd w c owner =
     min MaxInt64 (UsedBytes (fetchQuota L (quotas c) owner (rNow rd)) + sum_list (chargedTo L D rd w c owner (rPeers rd)))"

definition mustRemove :: "lib \<Rightarrow> 'w deps \<Rightarrow> reconcileRead \<Rightarrow> 'w \<Rightarrow> accessController \<Rightarrow> wgPeer \<Rightarrow> bool" where
  "mustRemove L D rd w c p \<longleftrightarrow> intruder D rd w c p
     \<or> \<not> recordMatchesCurrentModeLocked L D w (accountedRecord c p (rNow rd))
     \<or> rSecretMode rd \<and> (case rRevoked rd of Inl _ \<Rightarrow> True | Inr revoked \<Rightarrow> revoked (KeyID (accountedRecord c p (rNow rd))))
     \<or> rNow rd < BlockedUntil (fetchQuota L (quotas c) (chargedOwner L rd c p) (rNow rd))
     \<or> rLimit rd > 0 \<and> usedAfter L D rd w c (chargedOwner L rd c p) > rLimit rd
     \<or> Sub (rNow rd) (idleSince p (accountedRuntime c p (rNow rd))) \<ge> stalePeerMaxIdle"

lemma usedAfter_fold:
  assumes "wfc L c" and "okTime L (rNow rd)" and "\<forall>p\<in>set (rPeers rd). okPeer p" and "distinct (map PublicKey (rPeers rd))"
  shows "UsedBytes (fetchQuota L (quotas (accountFold L D rd w c (rPeers rd))) owner (rNow rd)) = usedAfter L D rd w c owner"
proof -
  have q: "validQuota (fetchQuota L (quotas c) owner (rNow rd))" using assms(1,2) by (rule fetchQuota_valid)
  have "0 \<le> d \<and> d \<le> MaxInt64" if "d \<in> set (chargedTo L D rd w c owner (rPeers rd))" for d
    using that usageDelta_range [OF assms(1)] assms(3) by (auto simp: chargedTo_def split_beta)
  then show ?thesis
    unfolding accountFold_usage [OF assms(4)] usedAfter_def
    using q by (intro usage.fold_add) (auto simp: validQuota_def)
qed

lemma matches_observed [simp]:
  "recordMatchesCurrentModeLocked L D w (observeEndpoint now p added (r\<lparr>LastSeen := t\<rparr>)) = recordMatchesCurrentModeLocked L D w r"
  by (simp add: recordMatchesCurrentModeLocked_def)

text \<open>The quota of a charged owner when the peers are judged.\<close>

lemma judged_quota:
  assumes "wfc L c" and "okTime L (rNow rd)" and "\<forall>p\<in>set (rPeers rd). okPeer p" and "distinct (map PublicKey (rPeers rd))"
    and "p \<in> set (rPeers rd)" and "\<not> intruder D rd w c p"
  obtains q where "map_of (quotas (blockLoop L rd (accountFold L D rd w c (rPeers rd)))) (chargedOwner L rd c p) = Some q"
    and "UsedBytes q = usedAfter L D rd w c (chargedOwner L rd c p)" and "UsageDate q = FormatDateOnly (Local L) (rNow rd)"
    and "rNow rd < nextLocalMidnight L (rNow rd) \<Longrightarrow> rNow rd < BlockedUntil q \<longleftrightarrow> rNow rd < BlockedUntil (fetchQuota L (quotas c) (chargedOwner L rd c p) (rNow rd))
           \<or> rLimit rd > 0 \<and> usedAfter L D rd w c (chargedOwner L rd c p) > rLimit rd"
proof -
  let ?c1 = "accountFold L D rd w c (rPeers rd)" and ?o = "chargedOwner L rd c p"
  define q1 where "q1 = fetchQuota L (quotas ?c1) ?o (rNow rd)"
  have u: "UsedBytes q1 = usedAfter L D rd w c ?o" unfolding q1_def by (rule usedAfter_fold [OF assms(1-4)])
  have b: "BlockedUntil q1 = BlockedUntil (fetchQuota L (quotas c) ?o (rNow rd))" by (simp add: q1_def accountFold_blocked)
  have d: "UsageDate q1 = FormatDateOnly (Local L) (rNow rd)" by (simp add: q1_def fetchQuota_def)
  have m: "map_of (quotas ?c1) ?o = Some q1"
    using accountFold_upToDate [of L rd c ?o "rPeers rd" D w] assms(4-6) by (auto simp: upToDate_def q1_def)
  have "map_option (recordOwner L (PublicKey p)) (map_of (peers ?c1) (PublicKey p)) = Some ?o"
    using accountFold_peer [OF assms(5,4,6), of L] by (simp add: chargedOwner_def)
  then have "map_of (quotas (blockLoop L rd ?c1)) ?o = Some (if rLimit rd > 0 then blockQuota L rd q1 else q1)"
    using assms(5) m by (auto simp: blockLoop_def blockFold_quotas)
  then show thesis
    by (rule that) (use u b d in \<open>auto simp: blockQuota_def Before_def\<close>)
qed

lemma verdict_mustRemove:
  assumes "wfc L c" and "okTime L (rNow rd)" and "\<forall>p\<in>set (rPeers rd). okPeer p" and "distinct (map PublicKey (rPeers rd))"
    and "p \<in> set (rPeers rd)" and "\<not> intruder D rd w c p" and "rNow rd < nextLocalMidnight L (rNow rd)"
    and "PublicKey p \<notin> set un"
  shows "map remKey (verdict L D rd w un (blockLoop L rd (accountFold L D rd w c (rPeers rd))) p)
    = (if mustRemove L D rd w c p then [PublicKey p] else [])"
proof -
  define cb where "cb = blockLoop L rd (accountFold L D rd w c (rPeers rd))"
  let ?rt = "accountedRuntime c p (rNow rd)"
  define r where "r = observeEndpoint (rNow rd) p (addedAt ?rt) ((accountedRecord c p (rNow rd))\<lparr>LastSeen := rNow rd\<rparr>)"
  define rt where "rt = ?rt\<lparr>lastRx := ReceiveBytes p, lastTx := TransmitBytes p\<rparr>"
  obtain q where q: "map_of (quotas cb) (chargedOwner L rd c p) = Some q"
      "rNow rd < BlockedUntil q \<longleftrightarrow> rNow rd < BlockedUntil (fetchQuota L (quotas c) (chargedOwner L rd c p) (rNow rd))
           \<or> rLimit rd > 0 \<and> usedAfter L D rd w c (chargedOwner L rd c p) > rLimit rd"
    using judged_quota [OF assms(1-6)] assms(7) unfolding cb_def by metis
  have pr: "map_of (peers cb) (PublicKey p) = Some r" "map_of (runtime cb) (PublicKey p) = Some rt"
    using accountFold_peer [OF assms(5,4,6), of L] by (simp_all add: cb_def r_def rt_def)
  have o: "recordOwner L (PublicKey p) r = chargedOwner L rd c p" by (simp add: r_def chargedOwner_def)
  obtain why where why: "removalReason L D rd w p r q (Some rt) = Inr why" using removalReason_Inr [of "Some rt" L D rd w p r q] by auto
  have "why \<noteq> [] \<longleftrightarrow> mustRemove L D rd w c p"
    using why assms(6) q(2)
    by (auto simp: removalReason_def mustRemove_def r_def rt_def idleSince_def Before_def IsZero_def split: if_splits sum.splits)
  then show ?thesis
    using assms(8) unfolding cb_def [symmetric] by (simp add: verdict_def judgePeer_def Let_def pr o q(1) why)
qed

text \<open>The removals of a plan, from the verdicts on all peers.\<close>

lemma planned_removals:
  assumes "wfc L c" and "okTime L (rNow rd)" and "\<forall>p\<in>set (rPeers rd). okPeer p" and "distinct (map PublicKey (rPeers rd))"
    and "rNow rd < nextLocalMidnight L (rNow rd)"
  shows "\<exists>c1 rms. reconcilePlan L D rd c w = (None, c1, rms)
    \<and> set (map remKey rms) = PublicKey ` set (filter (mustRemove L D rd w c) (rPeers rd))"
proof -
  let ?c1 = "accountFold L D rd w c (rPeers rd)" and ?un = "map PublicKey (filter (intruder D rd w c) (rPeers rd))"
  obtain c1 un c2 rms where pl: "accountLoop L D rd w (rPeers rd) c [] = (None, c1, un)" "wfc L c1"
      "\<forall>p\<in>set (rPeers rd). PublicKey p \<in> set un \<or> tracked c1 (PublicKey p)"
      "judgeLoop L D rd w un (rPeers rd) (blockLoop L rd c1) (map (\<lambda>k. \<lparr>remKey = k, reason = ''unauthorized''\<rparr>) un) = (None, c2, rms)"
      "reconcilePlan L D rd c w = (None, pruneQuotas L rd (prunePeers rd c2), rms)"
    using reconcilePlan_wf [OF assms(1-3), of D w] by metis
  have c1: "c1 = ?c1" and un: "un = ?un"
    using pl(1) accountLoop_fold [OF assms(1-4), of D w "[]"] by simp_all
  have t: "\<forall>p\<in>set (rPeers rd). PublicKey p \<in> set un \<or> tracked (blockLoop L rd c1) (PublicKey p)"
    using pl(3) by (simp add: tracked_def)
  have in_un: "PublicKey p \<in> set un \<longleftrightarrow> intruder D rd w c p" if p: "p \<in> set (rPeers rd)" for p
    using p assms(4) by (auto simp: un distinct_map dest: inj_onD)
  have un_set: "set un = PublicKey ` {p \<in> set (rPeers rd). intruder D rd w c p}" by (simp add: un)
  have intr: "intruder D rd w c p \<Longrightarrow> mustRemove L D rd w c p" for p by (simp add: mustRemove_def)
  have one: "set (map remKey (verdict L D rd w un (blockLoop L rd c1) p))
      = (if \<not> intruder D rd w c p \<and> mustRemove L D rd w c p then {PublicKey p} else {})" if p: "p \<in> set (rPeers rd)" for p
  proof (cases "intruder D rd w c p")
    case True
    with p in_un show ?thesis by (simp add: verdict_def judgePeer_def)
  next
    case False
    from verdict_mustRemove [OF assms(1-4) p False assms(5)] False in_un [OF p] show ?thesis by (simp add: c1)
  qed
  have "rms = map (\<lambda>k. \<lparr>remKey = k, reason = ''unauthorized''\<rparr>) un @ concat (map (verdict L D rd w un (blockLoop L rd c1)) (rPeers rd))"
    using judgeLoop_verdicts [OF blockLoop_wf [OF pl(2)] t assms(4) pl(4)] by simp
  then have "set (map remKey rms) = set un \<union> (\<Union>p\<in>set (rPeers rd). set (map remKey (verdict L D rd w un (blockLoop L rd c1) p)))"
    by (auto simp: image_iff)
  also have "\<dots> = set un \<union> (\<Union>p\<in>set (rPeers rd). if \<not> intruder D rd w c p \<and> mustRemove L D rd w c p then {PublicKey p} else {})"
    using one by (simp only: cong: SUP_cong)
  also have "\<dots> = PublicKey ` set (filter (mustRemove L D rd w c) (rPeers rd))"
    using intr by (auto simp: un_set split: if_splits)
  finally show ?thesis using pl(5) by blast
qed

text \<open>
  C5: a reconciliation plans to remove exactly the device peers that must go: those without a
  record on a server that requires credentials; those whose record does not fit the current
  mode; issued-key peers that are revoked or cannot be checked; peers of an owner that is
  blocked or whose usage, with what this reading charges to all of the owner's peers, exceeds the
  limit; and peers idle for thirty minutes. No loop takes an early return. The hypothesis on
  midnight holds in every zone with a fixed offset.
\<close>

theorem reconcile_removes_exactly:
  assumes "wfc L c" and "okTime L (rNow rd)" and "\<forall>p\<in>set (rPeers rd). okPeer p" and "distinct (map PublicKey (rPeers rd))"
    and "rNow rd < nextLocalMidnight L (rNow rd)"
  shows "\<exists>c1 rms. reconcilePlan L D rd c w = (None, c1, rms)
    \<and> set (map remKey rms) = PublicKey ` set (filter (mustRemove L D rd w c) (rPeers rd))"
  by (rule planned_removals [OF assms])

text \<open>A reading of the device: the peer \<open>p1\<close> of the example controller, with new traffic, and a
  stranger \<open>p9\<close>.\<close>

definition exRead :: "int \<Rightarrow> reconcileRead" where
  "exRead limit = \<lparr>rPeers = [\<lparr>PublicKey = ''p1'', PEndpoint = Some ''192.0.2.7:51820'', LastHandshakeTime = exNow, ReceiveBytes = 700, TransmitBytes = 50\<rparr>,
      \<lparr>PublicKey = ''p9'', PEndpoint = None, LastHandshakeTime = exNow, ReceiveBytes = 0, TransmitBytes = 0\<rparr>],
     rNow = exNow, rLimit = limit, rSecretMode = True, rRevoked = Inr (\<lambda>_. False)\<rparr>"

theorem reconcile_removes_exactly_witness:
  "\<exists>c1 rms. reconcilePlan exLib (exDeps ''s'' 0) (exRead 500) (exController 1000) exNow = (None, c1, rms)
     \<and> set (map remKey rms) = {''p1'', ''p9''}"
proof -
  let ?D = "exDeps ''s'' 0"
  have h: "okTime exLib (rNow (exRead 500))" "distinct (map PublicKey (rPeers (exRead 500)))"
      "\<forall>p\<in>set (rPeers (exRead 500)). okPeer p" "rNow (exRead 500) < nextLocalMidnight exLib (rNow (exRead 500))"
    using exNow_ok by (simp add: exRead_def) code_simp+
  have "PublicKey ` set (filter (mustRemove exLib ?D (exRead 500) exNow (exController 1000)) (rPeers (exRead 500))) = {''p1'', ''p9''}"
    by code_simp
  with reconcile_removes_exactly [OF exController_wf h(1,3,2,4), of ?D exNow] show ?thesis by simp
qed

text \<open>The state a successful reconciliation leaves behind.\<close>

lemma removeLoop_keeps: "removeLoop D rms c w = (c', w') \<Longrightarrow> peers c' = peers c \<and> quotas c' = quotas c"
proof (induction rms arbitrary: c w)
  case (Cons rm rms)
  obtain e w1 where "RemovePeer D (remKey rm) w = (e, w1)" by (metis surj_pair)
  with Cons.IH [of c w1] Cons.IH [of "c\<lparr>runtime := del (runtime c) (remKey rm)\<rparr>" w1] Cons.prems show ?case
    by (cases e) simp_all
qed simp

lemma reconciled_quota:
  assumes "reconcileLocked L D rd c w = (None, c', w')" and "stateErr c = None"
    and wf: "wfc L c" "okTime L (rNow rd)" "\<forall>p\<in>set (rPeers rd). okPeer p" "distinct (map PublicKey (rPeers rd))"
    and "p \<in> set (rPeers rd)" and "\<not> intruder D rd w c p"
  obtains q where "map_of (quotas c') (chargedOwner L rd c p) = Some q"
    and "UsedBytes q = usedAfter L D rd w c (chargedOwner L rd c p)" and "UsageDate q = FormatDateOnly (Local L) (rNow rd)"
    and "stateErr c' = None"
proof -
  let ?c1 = "accountFold L D rd w c (rPeers rd)" and ?o = "chargedOwner L rd c p"
  obtain c1 un c2 rms where pl: "accountLoop L D rd w (rPeers rd) c [] = (None, c1, un)" "wfc L c1"
      "\<forall>p\<in>set (rPeers rd). PublicKey p \<in> set un \<or> tracked c1 (PublicKey p)"
      "judgeLoop L D rd w un (rPeers rd) (blockLoop L rd c1) (map (\<lambda>k. \<lparr>remKey = k, reason = ''unauthorized''\<rparr>) un) = (None, c2, rms)"
      "reconcilePlan L D rd c w = (None, pruneQuotas L rd (prunePeers rd c2), rms)" "wfc L c2"
    using reconcilePlan_wf [OF wf(1-3), of D w] by metis
  have c1: "c1 = ?c1" using pl(1) accountLoop_fold [OF wf, of D w "[]"] by simp
  define c3 where "c3 = pruneQuotas L rd (prunePeers rd c2)"
  obtain c4 w4 where p4: "persistLocked L D c3 w = (None, c4, w4)" and rl: "removeLoop D rms c4 w4 = (c', w')"
    using assms(1,2) pl(5) by (auto simp: reconcileLocked_def c3_def split: option.splits prod.splits)
  have c4: "c4 = c3" "stateErr c3 = None" using p4 by (simp_all add: persistLocked_None)
  have wf3: "wfc L c3" using pl(6) by (simp add: c3_def prunePeers_wf pruneQuotas_wf)
  have se: "stateErr c' = None" using removeLoop_wf [OF rl] wf3 c4 by simp
  obtain q where q: "map_of (quotas (blockLoop L rd ?c1)) ?o = Some q" "UsedBytes q = usedAfter L D rd w c ?o"
      "UsageDate q = FormatDateOnly (Local L) (rNow rd)"
    using judged_quota [OF wf assms(7,8)] by metis
  have t: "\<forall>p\<in>set (rPeers rd). PublicKey p \<in> set un \<or> tracked (blockLoop L rd c1) (PublicKey p)"
    using pl(3) by (simp add: tracked_def)
  have "quotas c2 = quotas (blockLoop L rd c1)"
    using judgeLoop_wf [OF blockLoop_wf [OF pl(2)] t] pl(4) by (metis Pair_inject)
  then have q2: "map_of (quotas c2) ?o = Some q" using q(1) c1 by simp
  have "map_option (\<lambda>r. (KeyID r, AuthGeneration r)) (map_of (peers c2) (PublicKey p))
      = Some (KeyID (accountedRecord c p (rNow rd)), AuthGeneration (accountedRecord c p (rNow rd)))"
    using judgeLoop_verdicts [OF blockLoop_wf [OF pl(2)] t wf(4) pl(4)] accountFold_peer [OF assms(7) wf(4) assms(8), of L] by (simp add: c1)
  then obtain r2 where r2: "map_of (peers c2) (PublicKey p) = Some r2" "recordOwner L (PublicKey p) r2 = ?o"
    by (auto simp: chargedOwner_def)
  then have "map_of (peers (prunePeers rd c2)) (PublicKey p) = Some r2"
    using assms(7) wf_maps(1) [OF pl(6)] by (simp add: prunePeers_def map_of_keep expiredPeer_def)
  then have "?o \<in> set (referencedOwners L (prunePeers rd c2))" using referenced r2(2) by metis
  then have "map_of (quotas c3) ?o = Some q"
    using q2 wf_maps(2) [OF pl(6)] by (simp add: c3_def pruneQuotas_def map_of_keep prunePeers_def)
  then have "map_of (quotas c') ?o = Some q" using removeLoop_keeps [OF rl] c4 by simp
  from that [OF this q(2,3) se] show thesis .
qed

text \<open>
  C14: a reconciliation charges every quota owner with a peer on the device what the counters of
  all its peers grew since the last reading, on top of what it had used that day, and saturates
  instead of overflowing. The amount is in the state it saved.
\<close>

theorem reconcile_charges:
  assumes "reconcileLocked L D rd c w = (None, c', w')" and "stateErr c = None"
    and "wfc L c" "okTime L (rNow rd)" "\<forall>p\<in>set (rPeers rd). okPeer p" "distinct (map PublicKey (rPeers rd))"
    and "p \<in> set (rPeers rd)" and "\<not> intruder D rd w c p"
  shows "\<exists>q. map_of (quotas c') (chargedOwner L rd c p) = Some q \<and> UsageDate q = FormatDateOnly (Local L) (rNow rd)
    \<and> UsedBytes q = min MaxInt64 (UsedBytes (fetchQuota L (quotas c) (chargedOwner L rd c p) (rNow rd))
         + sum_list (chargedTo L D rd w c (chargedOwner L rd c p) (rPeers rd)))"
  using reconciled_quota [OF assms] unfolding usedAfter_def by metis

theorem reconcile_charges_witness:
  "\<exists>c' w' q. reconcileLocked exLib (exDeps ''s'' 0) (exRead 500) (exController 1000) exNow = (None, c', w')
     \<and> map_of (quotas c') exOwner = Some q \<and> UsedBytes q = 1000 + (700 - 100) + (50 - 50)"
proof -
  let ?D = "exDeps ''s'' 0" and ?c = "exController 1000"
  let ?r = "reconcileLocked exLib ?D (exRead 500) ?c exNow" and ?p = "hd (rPeers (exRead 500))"
  have "fst ?r = None" by code_simp
  then have r: "?r = (None, fst (snd ?r), snd (snd ?r))" by (metis prod.collapse)
  have h: "stateErr ?c = None" "okTime exLib (rNow (exRead 500))" "\<forall>p\<in>set (rPeers (exRead 500)). okPeer p"
      "distinct (map PublicKey (rPeers (exRead 500)))" "?p \<in> set (rPeers (exRead 500))" "\<not> intruder ?D (exRead 500) exNow ?c ?p"
    using exNow_ok by (simp_all add: exRead_def exController_def newAccessController_def intruder_def okPeer_def MaxInt64_def)
  have v: "chargedOwner exLib (exRead 500) ?c ?p = exOwner"
      "min MaxInt64 (UsedBytes (fetchQuota exLib (quotas ?c) exOwner (rNow (exRead 500)))
         + sum_list (chargedTo exLib ?D (exRead 500) exNow ?c exOwner (rPeers (exRead 500)))) = 1000 + (700 - 100) + (50 - 50)"
    by code_simp+
  from reconcile_charges [OF r h(1) exController_wf h(2-6), unfolded v] r show ?thesis by blast
qed



end
