(* ===== verification/AccessRestart.thy ===== *)
theory AccessRestart
  imports AccessReconcile
begin

text \<open>
  Restarting and running: which peers a restart restores, the start-up sequence of \<open>tunwgServer\<close>
  up to its listeners, the main loop \<open>run\<close>, and the local midnight at which a block ends.
\<close>

section \<open>The start-up sequence and the main loop\<close>

text \<open>Start-up: \<open>Some e\<close> is a call of \<open>fatal\<close>, which ends the process.\<close>

definition startAccess ::
  "lib \<Rightarrow> 'w deps \<Rightarrow> accessController \<Rightarrow> 'w \<Rightarrow> accessError option \<times> accessController \<times> 'w" where
  "startAccess L D c w =
     (case load L D c w of
        (Some e, c1, w1) \<Rightarrow> (Some e, c1, w1)
      | (None, c1, w1) \<Rightarrow>
          (case restorePeers L D c1 w1 of
             (Some e, c2, w2) \<Rightarrow> (Some e, c2, w2)
           | (None, c2, w2) \<Rightarrow> reconcile L D c2 w2))"

text \<open>
  The loop of \<open>run\<close>: \<open>Ticked\<close> is an iteration whose \<open>select\<close> takes the ticker, \<open>Failed\<close> one that
  takes the channel, which must then hold a value (a \<open>select\<close> never takes a channel that does
  not). \<open>Some e\<close> is the exit through \<open>fatal\<close>.
\<close>

datatype runEvent = Ticked | Failed

definition enabledEvent :: "accessController \<Rightarrow> runEvent \<Rightarrow> bool" where
  "enabledEvent c ev = (case ev of Ticked \<Rightarrow> True | Failed \<Rightarrow> failures c \<noteq> [])"

definition runOnce ::
  "lib \<Rightarrow> 'w deps \<Rightarrow> accessController \<Rightarrow> 'w \<Rightarrow> runEvent \<Rightarrow> accessError option \<times> accessController \<times> 'w" where
  "runOnce L D c w ev =
     (case ev of
        Failed \<Rightarrow> (case failures c of e # rest \<Rightarrow> (Some e, c\<lparr>failures := rest\<rparr>, w) | [] \<Rightarrow> (None, c, w))
      | Ticked \<Rightarrow> reconcile L D c w)"

section \<open>What a restart restores\<close>

text \<open>
  A record a restart may restore, in the world \<open>w\<close>: its endpoint was seen in the last fifteen
  minutes, it fits the current mode, it is not revoked, and its owner is neither blocked nor over
  the limit.
\<close>

definition eligible ::
  "lib \<Rightarrow> 'w deps \<Rightarrow> time \<Rightarrow> int \<Rightarrow> string + (string \<Rightarrow> bool) \<Rightarrow> accessController \<Rightarrow> 'w \<Rightarrow> wgKey \<Rightarrow> accessPeerState \<Rightarrow> bool" where
  "eligible L D now limit revs c w peer r \<longleftrightarrow> map_of (peers c) peer = Some r
     \<and> Endpoint r \<noteq> [] \<and> EndpointSeenAt r \<le> now \<and> now - EndpointSeenAt r < restoreEndpointMaxAge
     \<and> recordMatchesCurrentModeLocked L D w r
     \<and> (authSecret D w \<noteq> [] \<longrightarrow> (case revs of Inl _ \<Rightarrow> False | Inr revoked \<Rightarrow> \<not> revoked (KeyID r)))
     \<and> (\<exists>q. map_of (quotas c) (recordOwner L peer r) = Some q \<and> \<not> now < BlockedUntil (normalizeQuotaState L q now)
          \<and> (limit > 0 \<longrightarrow> UsedBytes (normalizeQuotaState L q now) \<le> limit))"

lemma restorable_iff:
  "restorable now r \<longleftrightarrow> Endpoint r \<noteq> [] \<and> EndpointSeenAt r \<noteq> 0 \<and> EndpointSeenAt r \<le> now \<and> now - EndpointSeenAt r < restoreEndpointMaxAge"
  by (auto simp: restorable_def IsZero_def Before_def Sub_def restoreEndpointMaxAge_def MaxInt64_def MinInt64_def)

lemma restoreQuota_idem:
  assumes "now < nextLocalMidnight L now"
  shows "restoreQuota L now limit (restoreQuota L now limit q) = restoreQuota L now limit q"
  using assms
  by (auto simp: restoreQuota_def restoreExceeded_def Let_def Before_def IsZero_def)
    (auto simp: normalizeQuotaState_def Before_def IsZero_def split: if_splits)

lemma restoreQuota_open:
  assumes "now < nextLocalMidnight L now" and "\<not> now < BlockedUntil (restoreQuota L now limit q)"
  shows "\<not> now < BlockedUntil (normalizeQuotaState L q now)" and "limit > 0 \<Longrightarrow> UsedBytes (normalizeQuotaState L q now) \<le> limit"
  using assms by (auto simp: restoreQuota_def restoreExceeded_def Let_def Before_def split: if_splits)

text \<open>Every quota the loop meets is the one of the start, possibly rolled over and blocked.\<close>

definition restoringFrom :: "lib \<Rightarrow> time \<Rightarrow> int \<Rightarrow> accessController \<Rightarrow> accessController \<Rightarrow> bool" where
  "restoringFrom L now limit c0 c \<longleftrightarrow>
     (\<forall>owner. map_of (quotas c) owner = map_of (quotas c0) owner
        \<or> map_of (quotas c) owner = map_option (restoreQuota L now limit) (map_of (quotas c0) owner))"

text \<open>
  An invariant \<open>P\<close> of the controller's runtime and the outside that an eligible restoration
  keeps is kept by an iteration.
\<close>

definition keptByRestore ::
  "lib \<Rightarrow> 'w deps \<Rightarrow> time \<Rightarrow> int \<Rightarrow> string + (string \<Rightarrow> bool) \<Rightarrow> accessController \<Rightarrow> ((wgKey, peerRuntime) gomap \<Rightarrow> 'w \<Rightarrow> bool) \<Rightarrow> bool" where
  "keptByRestore L D now limit revs c0 P \<longleftrightarrow>
     (\<forall>peer r rts w e w'. eligible L D now limit revs c0 w peer r \<longrightarrow> P rts w \<longrightarrow> AddPeer D peer (Endpoint r) w = (e, w') \<longrightarrow>
        P (if e = None then put rts peer \<lparr>lastRx = 0, lastTx = 0, addedAt = now\<rparr> else rts) w')"

lemma restoreOne_keeps:
  assumes one: "restoreOne L D now limit revs peer r c w = Inr (ch, c1, w1)"
    and mid: "now < nextLocalMidnight L now" and from0: "restoringFrom L now limit c0 c"
    and r: "map_of (peers c0) peer = Some r" and keep: "keptByRestore L D now limit revs c0 P" and P: "P (runtime c) w"
  shows "P (runtime c1) w1" and "restoringFrom L now limit c0 c1"
proof -
  have "P (runtime c1) w1 \<and> restoringFrom L now limit c0 c1"
  proof (cases "restorable now r")
    case False
    with one P from0 show ?thesis by (auto simp: restoreOne_def restoringFrom_def split: if_splits)
  next
    case True
    obtain q where q: "map_of (quotas c) (recordOwner L peer r) = Some q"
      using one True by (cases "map_of (quotas c) (recordOwner L peer r)") (simp_all add: restoreOne_def Let_def)
    define quota where "quota = restoreQuota L now limit q"
    define c2 where "c2 = c\<lparr>quotas := put (quotas c) (recordOwner L peer r) quota\<rparr>"
    obtain q0 where q0: "map_of (quotas c0) (recordOwner L peer r) = Some q0" "quota = restoreQuota L now limit q0"
      using from0 [unfolded restoringFrom_def, rule_format, of "recordOwner L peer r"] q
      by (cases "map_of (quotas c0) (recordOwner L peer r)") (auto simp: quota_def restoreQuota_idem [OF mid])
    have f2: "restoringFrom L now limit c0 c2" using from0 q0 by (auto simp: restoringFrom_def c2_def)
    have same: "quotas x = quotas c2 \<Longrightarrow> restoringFrom L now limit c0 x" for x using f2 by (simp add: restoringFrom_def)
    have el: "eligible L D now limit revs c0 w peer r"
      if "\<not> Before now (BlockedUntil quota)" "recordMatchesCurrentModeLocked L D w r"
        "(if authSecret D w \<noteq> [] then revs else Inr (\<lambda>_. False)) = Inr revoked" "\<not> revoked (KeyID r)" for revoked
      using that True r q0 restoreQuota_open [OF mid, of limit q0]
      by (auto simp: eligible_def restorable_iff Before_def split: if_splits)
    have rt2: "runtime c2 = runtime c" by (simp add: c2_def)
    note k = keep [unfolded keptByRestore_def, rule_format]
    show ?thesis
      using one True P rt2 same unfolding restoreOne_def Let_def q option.case quota_def [symmetric] c2_def [symmetric]
      by (auto split: if_splits sum.splits prod.splits option.splits dest: k [OF el])
  qed
  then show "P (runtime c1) w1" and "restoringFrom L now limit c0 c1" by blast+
qed

lemma restoreLoop_keeps:
  assumes "restoreLoop L D now limit revs es changed c w = (e, ch, c', w')"
    and "now < nextLocalMidnight L now" and "restoringFrom L now limit c0 c"
    and "\<forall>(k, r)\<in>set es. map_of (peers c0) k = Some r" and "keptByRestore L D now limit revs c0 P" and "P (runtime c) w"
  shows "P (runtime c') w'"
  using assms(1,3,4,6)
proof (induction es arbitrary: changed c w)
  case (Cons en es)
  obtain k r where en: "en = (k, r)" by (cases en)
  show ?case
  proof (cases "restoreOne L D now limit revs k r c w")
    case (Inl e1)
    with Cons.prems show ?thesis by (simp add: en)
  next
    case (Inr res)
    obtain ch1 c1 w1 where res: "res = (ch1, c1, w1)" by (metis prod_cases3)
    have r: "map_of (peers c0) k = Some r" using Cons.prems(3) by (simp add: en)
    note one = restoreOne_keeps [OF Inr [unfolded res] assms(2) Cons.prems(2) r assms(5) Cons.prems(4)]
    show ?thesis using Cons.IH [OF _ one(2) _ one(1)] Cons.prems(1,3) by (simp add: en Inr res)
  qed
qed simp

text \<open>
  C34: a restart restores only eligible peers. Whatever is true of the runtime table and the
  device before, and is kept by adding eligible peers of the loaded state (and by writing the state
  file), is true after \<open>restorePeers\<close>: no peer that is stale, from another mode, revoked, blocked or
  over its quota reaches the device.
\<close>

theorem restore_only_eligible:
  assumes "restorePeersLocked L D now limit revs c w = (e, c', w')" and "wfc L c" and "now < nextLocalMidnight L now"
    and "keptByRestore L D now limit revs c P" and "\<forall>st rts w. P rts w \<longrightarrow> P rts (snd (SaveState D st w))"
    and "P (runtime c) w"
  shows "P (runtime c') w'"
proof (cases "stateErr c")
  case (Some err)
  with assms(1,6) show ?thesis by (simp add: restorePeersLocked_def)
next
  case None
  obtain e1 ch c1 w1 where lp: "restoreLoop L D now limit revs (peers c) False c w = (e1, ch, c1, w1)"
    by (metis prod_cases4)
  have "restoringFrom L now limit c c" by (simp add: restoringFrom_def)
  moreover have "\<forall>(k, r)\<in>set (peers c). map_of (peers c) k = Some r" using wf_maps(1) [OF assms(2)] by (auto simp: wfm_map_of)
  ultimately have P1: "P (runtime c1) w1" using restoreLoop_keeps [OF lp assms(3) _ _ assms(4,6)] by blast
  obtain r2 c2 w2 where p: "persistLocked L D c1 w1 = (r2, c2, w2)" by (metis prod_cases3)
  have "w2 = w1 \<or> (\<exists>st. w2 = snd (SaveState D st w1))"
    using p by (auto simp: persistLocked_def Let_def split: option.splits prod.splits) (metis snd_conv)+
  with P1 assms(5) have "P (runtime c2) w2" using persistLocked_maps(3) [OF p] by auto
  with assms(1) None lp p P1 show ?thesis by (auto simp: restorePeersLocked_def split: option.splits if_splits)
qed

theorem restore_only_eligible_witness:
  "map_of (runtime (fst (snd (restorePeersLocked exLib (exDeps ''s'' 0) exNow 0 (Inr (\<lambda>k. k = ''kid'')) (exController 1000) exNow)))) ''p1''
     = Some \<lparr>lastRx = 100, lastTx = 50, addedAt = exNow\<rparr>"
proof -
  let ?D = "exDeps ''s'' 0" and ?revs = "Inr (\<lambda>k. k = ''kid'') :: string + (string \<Rightarrow> bool)"
  let ?r = "restorePeersLocked exLib ?D exNow 0 ?revs (exController 1000) exNow"
  let ?P = "\<lambda>(rts :: (wgKey, peerRuntime) gomap) (w :: time). map_of rts ''p1'' = Some \<lparr>lastRx = 100, lastTx = 50, addedAt = exNow\<rparr>"
  have r: "?r = (fst ?r, fst (snd ?r), snd (snd ?r))" by simp
  have "exNow < nextLocalMidnight exLib exNow" by code_simp
  moreover have "keptByRestore exLib ?D exNow 0 ?revs (exController 1000) ?P"
    by (auto simp: keptByRestore_def eligible_def exController_def exDeps_def newAccessController_def exPeer_def split: if_splits)
  moreover have "?P (runtime (exController 1000)) exNow" by (simp add: exController_def)
  ultimately show ?thesis using restore_only_eligible [OF r exController_wf, of ?P] by simp
qed

section \<open>The main loop stops a failed controller\<close>

text \<open>
  Once a write was lost, every next iteration of the main loop that can happen ends the process,
  whichever case the \<open>select\<close> takes; and a loop that goes on has reconciled.
\<close>

theorem run_stops_when_failed:
  assumes "enabledEvent c ev"
  shows "(stateErr c \<noteq> None \<longrightarrow> fst (runOnce L D c w ev) \<noteq> None)
    \<and> (fst (runOnce L D c w ev) = None \<longrightarrow> ev = Ticked \<and> stateErr c = None \<and> (\<exists>ps. Snapshot D w = Inr ps))"
  using assms
  by (cases ev)
    (auto simp: runOnce_def enabledEvent_def reconcile_def readForReconcile_def reconcileLocked_def split: list.splits sum.splits option.splits)

theorem run_stops_when_failed_witness:
  "fst (runOnce exLib (exDeps ''s'' 0) ((exController 1000)\<lparr>stateErr := Some (errAccessStateUnavailable ''disk full'')\<rparr>) exNow Ticked) \<noteq> None"
proof -
  have "enabledEvent ((exController 1000)\<lparr>stateErr := Some (errAccessStateUnavailable ''disk full'')\<rparr>) Ticked"
    by (simp add: enabledEvent_def)
  from run_stops_when_failed [OF this, of exLib "exDeps ''s'' 0" exNow] show ?thesis by simp
qed

section \<open>The end of a block\<close>

lemma Date_fixed: "Date (fixedZone off) y m d sec 0 = (dayNumber y m d * 86400 + sec - off) * second"
  by (simp add: Date_def fixedZone_def Unix_def Let_def algebra_simps)

lemma localSec_fixed: "localSec (fixedZone off) (s * second) = s + off"
  by (simp add: localSec_def fixedZone_def)

lemma day_div: "n * 86400 \<le> x \<Longrightarrow> x div 86400 = n \<longleftrightarrow> x < (n + 1) * (86400 :: int)"
  by auto

lemma nextLocalMidnight_fixed:
  assumes "Local L = fixedZone off"
  shows "nextLocalMidnight L now = ((localDay (Local L) now + 1) * 86400 - off) * second"
proof -
  obtain y m d where c: "civil (localDay (Local L) now) = (y, m, d)" by (metis prod_cases3)
  have n: "dayNumber y m (int d) = localDay (Local L) now" using civil_spec(5) [OF c] .
  define t0 where "t0 = (localDay (Local L) now * 86400 - off) * second"
  have start: "Date (Local L) y m (int d) 0 0 = t0"
    unfolding t0_def n [symmetric] by (simp add: assms Date_fixed)
  have sec: "localSec (Local L) t0 = localDay (Local L) now * 86400"
    unfolding t0_def assms localSec_fixed by simp
  then have day: "localDay (Local L) t0 = localDay (Local L) now" by (simp add: localDay_def)
  have nano: "Nanosecond t0 = 0" by (simp add: t0_def Nanosecond_def)
  have "nextLocalMidnight L now = Date (Local L) y m (int d + 1) 0 0"
    by (simp add: nextLocalMidnight_def c start AddDays_def day sec nano)
  also have "\<dots> = ((localDay (Local L) now + 1) * 86400 - off) * second"
    unfolding n [symmetric] by (simp add: assms Date_fixed dayNumber_def)
  finally show ?thesis .
qed

text \<open>
  In a zone with a fixed offset a block ends at the next local midnight: after now, at most a
  day away, and for every later time the block has ended exactly when the local date has changed.
\<close>

theorem midnight_fixed_zone:
  assumes "Local L = fixedZone off" and "now \<le> t"
  shows "now < nextLocalMidnight L now \<and> nextLocalMidnight L now \<le> now + 24 * hour
    \<and> (t < nextLocalMidnight L now \<longleftrightarrow> localDay (Local L) t = localDay (Local L) now)"
proof -
  have ld: "localDay (Local L) x = (x div second + off) div 86400" for x
    by (simp add: assms(1) localDay_def localSec_def fixedZone_def)
  define n where "n = localDay (Local L) now"
  have n: "n * 86400 \<le> now div second + off" "now div second + off < (n + 1) * 86400"
    by (simp_all add: n_def ld)
  have day: "localDay (Local L) t = n \<longleftrightarrow> t div second + off < (n + 1) * 86400"
  proof -
    have "now div second \<le> t div second" using assms(2) by (simp add: zdiv_mono1)
    with n(1) have "n * 86400 \<le> t div second + off" by linarith
    then show ?thesis unfolding ld by (rule day_div)
  qed
  have lt: "x < ((n + 1) * 86400 - off) * second \<longleftrightarrow> x div second + off < (n + 1) * 86400" for x
  proof -
    have "x < k * second \<longleftrightarrow> x div second < k" for k by auto
    from this [of "(n + 1) * 86400 - off"] show ?thesis by linarith
  qed
  have m: "nextLocalMidnight L now = ((n + 1) * 86400 - off) * second"
    using nextLocalMidnight_fixed [OF assms(1)] by (simp add: n_def)
  have "now < nextLocalMidnight L now" unfolding m lt by (rule n(2))
  moreover have "nextLocalMidnight L now \<le> now + 24 * hour"
  proof -
    have "0 \<le> now mod second" and "now = now div second * second + now mod second" by simp_all
    with n(1) show ?thesis unfolding m by (simp add: algebra_simps)
  qed
  ultimately show ?thesis by (simp only: m lt day n_def [symmetric])
qed

theorem midnight_fixed_zone_witness:
  "exNow < nextLocalMidnight exLib exNow \<and> nextLocalMidnight exLib exNow \<le> exNow + 24 * hour"
proof -
  have "Local exLib = fixedZone 0" by (simp add: exLib_def)
  from midnight_fixed_zone [OF this order_refl, of exNow] show ?thesis by blast
qed

text \<open>
  America/Santiago around September 6, 2026: the clocks go from midnight to one o'clock, at
  04:00:00 UTC, from UTC-4 to UTC-3.
\<close>

definition santiago :: location where
  "santiago = (\<lambda>u. if u < 1788667200 then (- 14400, 1775358000, 1788667200) else (- 10800, 1788667200, 1806807600))"

text \<open>
  Where summer time starts at midnight the computed end of a block is an hour early, on the same
  local day; a block set in the last hour of that day has ended before it starts.
\<close>

theorem midnight_before_gap:
  "let L = exLib\<lparr>Local := santiago\<rparr>; now = Unix 1788665400 0 in
     nextLocalMidnight L now < now \<and> localDay (Local L) (nextLocalMidnight L now) = localDay (Local L) now"
  by code_simp

end
