(* ===== verification/NetText.thy ===== *)
theory NetText
  imports Address
begin

text \<open>
  The text forms of Go's \<open>net\<close>, \<open>net/netip\<close> and \<open>strconv\<close> packages that the program reads and
  writes: host and port, Booleans, IPv4 and IPv6 addresses. An address is the list of its bytes
  (4 or 16 of them); the parsers follow the library's own loops.
\<close>

section \<open>Host and port\<close>

text \<open>The text before and after the last separator.\<close>

definition cutLast :: "string \<Rightarrow> char \<Rightarrow> (string \<times> string) option" where
  "cutLast s sep =
     (if sep \<in> set s
      then Some (rev (drop 1 (dropWhile (\<lambda>c. c \<noteq> sep) (rev s))), rev (takeWhile (\<lambda>c. c \<noteq> sep) (rev s)))
      else None)"

definition SplitHostPort :: "string \<Rightarrow> (string \<times> string) option" where
  "SplitHostPort hostport =
     (case cutLast hostport CHR '':'' of
        None \<Rightarrow> None
      | Some (h, port) \<Rightarrow>
          if h \<noteq> [] \<and> hd h = CHR ''['' then
            (let r = tl h
             in if r \<noteq> [] \<and> last r = CHR '']'' \<and> CHR '']'' \<notin> set (butlast r)
                   \<and> CHR ''['' \<notin> set r \<and> CHR ''['' \<notin> set port \<and> CHR '']'' \<notin> set port
                then Some (butlast r, port) else None)
          else if CHR '':'' \<in> set h \<or> CHR ''['' \<in> set hostport \<or> CHR '']'' \<in> set hostport
          then None else Some (h, port))"

definition JoinHostPort :: "string \<Rightarrow> string \<Rightarrow> string" where
  "JoinHostPort host port =
     (if CHR '':'' \<in> set host then ''['' @ host @ '']:'' @ port else host @ '':'' @ port)"

lemma cutLast_append: "sep \<notin> set p \<Longrightarrow> cutLast (h @ sep # p) sep = Some (h, p)"
proof -
  assume "sep \<notin> set p"
  then have "\<And>x. x \<in> set (rev p) \<Longrightarrow> x \<noteq> sep" by auto
  note takeWhile_append2 [of "rev p" "\<lambda>c. c \<noteq> sep", OF this] dropWhile_append2 [of "rev p" "\<lambda>c. c \<noteq> sep", OF this]
  then show ?thesis by (simp add: cutLast_def)
qed

lemma SplitHostPort_Join:
  assumes "set host \<inter> {CHR ''['', CHR '']''} = {}" and "set port \<inter> {CHR ''['', CHR '']'', CHR '':''} = {}"
  shows "SplitHostPort (JoinHostPort host port) = Some (host, port)"
proof (cases "CHR '':'' \<in> set host")
  case True
  have "JoinHostPort host port = (CHR ''['' # host @ '']'') @ CHR '':'' # port"
    using True by (simp add: JoinHostPort_def)
  moreover have "cutLast \<dots> CHR '':'' = Some (CHR ''['' # host @ '']'', port)"
    using assms(2) by (intro cutLast_append) auto
  ultimately show ?thesis using assms by (simp add: SplitHostPort_def)
next
  case False
  have "cutLast (host @ CHR '':'' # port) CHR '':'' = Some (host, port)"
    using assms(2) by (intro cutLast_append) auto
  moreover have "hd host \<noteq> CHR ''['' \<or> host = []" using assms(1) by (cases host) auto
  ultimately show ?thesis
    using False assms by (simp add: SplitHostPort_def JoinHostPort_def) blast
qed

section \<open>Booleans\<close>

definition ParseBool :: "string \<Rightarrow> bool option" where
  "ParseBool s =
     (if s \<in> set [''1'', ''t'', ''T'', ''true'', ''TRUE'', ''True''] then Some True
      else if s \<in> set [''0'', ''f'', ''F'', ''false'', ''FALSE'', ''False''] then Some False
      else None)"

section \<open>IPv4 addresses\<close>

definition octet :: "string \<Rightarrow> nat option" where
  "octet f =
     (if f \<noteq> [] \<and> list_all isDigit f \<and> (length f > 1 \<longrightarrow> hd f \<noteq> CHR ''0'') \<and> digitsVal f \<le> 255
      then Some (digitsVal f) else None)"

definition parseIPv4 :: "string \<Rightarrow> nat list option" where
  "parseIPv4 s = (let fs = Split s CHR ''.'' in if length fs = 4 then those (map octet fs) else None)"

fun showIPv4 :: "nat list \<Rightarrow> string" where
  "showIPv4 [a, b, c, d] = showNat a @ ''.'' @ showNat b @ ''.'' @ showNat c @ ''.'' @ showNat d"
| "showIPv4 _ = []"

lemma showNat_no: "\<not> isDigit x \<Longrightarrow> x \<notin> set (showNat n)"
  using showNat_digits [of n] by (auto simp: list_all_iff)

lemma hd_showNat_zero: "0 < n \<Longrightarrow> hd (showNat n) \<noteq> CHR ''0''"
proof (induction n rule: showNat.induct)
  case (1 n)
  have "digit n \<noteq> CHR ''0''" if "n < 10"
  proof
    assume "digit n = CHR ''0''"
    then have "byteval (digit n) = byteval CHR ''0''" by simp
    also have "byteval CHR ''0'' = 48" by (simp add: byteval_def)
    finally show False using that 1(2) by (simp add: byteval_digit)
  qed
  with 1 show ?case by (subst showNat.simps) simp
qed

lemma octet_showNat: "n \<le> 255 \<Longrightarrow> octet (showNat n) = Some n"
proof -
  assume n: "n \<le> 255"
  have "length (showNat n) > 1 \<Longrightarrow> hd (showNat n) \<noteq> CHR ''0''"
    using hd_showNat_zero [of n] by (cases "n = 0") (simp_all add: showNat.simps)
  with n showNat_digits [of n] show ?thesis by (simp add: octet_def)
qed

lemma parseIPv4_show:
  assumes "a \<le> 255" "b \<le> 255" "c \<le> 255" "d \<le> 255"
  shows "parseIPv4 (showIPv4 [a, b, c, d]) = Some [a, b, c, d]"
proof -
  have dot: "CHR ''.'' \<notin> set (showNat n)" for n by (rule showNat_no) (simp add: isDigit_def byteval_def)
  have "Split (showIPv4 [a, b, c, d]) CHR ''.'' = [showNat a, showNat b, showNat c, showNat d]"
    by (simp add: Split_append Split_single dot)
  then show ?thesis using assms by (simp add: parseIPv4_def octet_showNat)
qed

section \<open>IPv6 addresses\<close>

definition isHex :: "char \<Rightarrow> bool" where
  "isHex c \<longleftrightarrow> isDigit c \<or> 97 \<le> byteval c \<and> byteval c \<le> 102 \<or> 65 \<le> byteval c \<and> byteval c \<le> 70"

definition hexVal :: "char \<Rightarrow> nat" where
  "hexVal c = (if isDigit c then byteval c - 48 else if 97 \<le> byteval c then byteval c - 87 else byteval c - 55)"

definition hexNum :: "string \<Rightarrow> nat" where
  "hexNum s = foldl (\<lambda>n c. 16 * n + hexVal c) 0 s"

text \<open>
  The loop of \<open>netip.parseIPv6\<close>: the 16-bit groups read so far, the position of \<open>::\<close>, the rest
  of the text. The result is the state in which the loop is left.
\<close>

function groupLoop :: "nat list \<Rightarrow> nat option \<Rightarrow> string \<Rightarrow> (nat list \<times> nat option \<times> string) option" where
  "groupLoop gs e s =
     (if length gs \<ge> 8 then Some (gs, e, s)
      else
        let h = takeWhile isHex s; rest = dropWhile isHex s
        in if length h > 4 \<or> h = [] then None
           else if rest \<noteq> [] \<and> hd rest = CHR ''.'' then
             (if e = None \<and> length gs \<noteq> 6 \<or> length gs + 2 > 8 then None
              else case parseIPv4 s of
                     Some [a, b, c, d] \<Rightarrow> Some (gs @ [256 * a + b, 256 * c + d], e, [])
                   | _ \<Rightarrow> None)
           else
             let gs' = gs @ [hexNum h]
             in if rest = [] then Some (gs', e, [])
                else if hd rest \<noteq> CHR '':'' \<or> length rest = 1 then None
                else
                  let s' = tl rest
                  in if hd s' = CHR '':'' then
                       (if e \<noteq> None then None
                        else if tl s' = [] then Some (gs', Some (length gs'), [])
                        else groupLoop gs' (Some (length gs')) (tl s'))
                     else groupLoop gs' e s')"
  by pat_completeness auto
termination by (relation "measure (\<lambda>(gs, e, s). 8 - length gs)") auto

declare groupLoop.simps [simp del]

text \<open>\<open>netip.parseIPv6\<close>: the sixteen bytes as eight groups, and the zone.\<close>

definition parseIPv6 :: "string \<Rightarrow> (nat list \<times> string) option" where
  "parseIPv6 text =
     (let (s, zone, zoned) = Cut text CHR ''%'';
          lead = (HasPrefix s ''::'');
          s' = (if lead then drop 2 s else s)
      in if zoned \<and> zone = [] then None
         else if lead \<and> s' = [] then Some (replicate 8 0, zone)
         else
           (case groupLoop [] (if lead then Some 0 else None) s' of
              None \<Rightarrow> None
            | Some (gs, e, rest) \<Rightarrow>
                if rest \<noteq> [] then None
                else if length gs < 8 then
                  (case e of None \<Rightarrow> None
                   | Some k \<Rightarrow> Some (take k gs @ replicate (8 - length gs) 0 @ drop k gs, zone))
                else if e \<noteq> None then None
                else Some (gs, zone)))"

text \<open>\<open>netip.ParseAddr\<close>: the first of the three characters decides.\<close>

datatype parsedAddr = V4 "nat list" | V6 "nat list" string

definition ParseAddr :: "string \<Rightarrow> parsedAddr option" where
  "ParseAddr s =
     (case find (\<lambda>c. c = CHR ''.'' \<or> c = CHR '':'' \<or> c = CHR ''%'') s of
        None \<Rightarrow> None
      | Some c \<Rightarrow>
          if c = CHR ''.'' then map_option V4 (parseIPv4 s)
          else if c = CHR '':'' then map_option (\<lambda>(gs, zone). V6 gs zone) (parseIPv6 s)
          else None)"

text \<open>\<open>net.ParseIP\<close> refuses a zone.\<close>

definition ParseIP :: "string \<Rightarrow> parsedAddr option" where
  "ParseIP s = (case ParseAddr s of Some (V6 gs zone) \<Rightarrow> if zone = [] then Some (V6 gs zone) else None | r \<Rightarrow> r)"

section \<open>The text form of an IPv6 address\<close>

definition hexText :: "nat \<Rightarrow> string" where
  "hexText n =
     (let ds = map (\<lambda>k. ''0123456789abcdef'' ! k) [n div 4096 mod 16, n div 256 mod 16, n div 16 mod 16, n mod 16];
          ds' = dropWhile (\<lambda>c. c = CHR ''0'') ds
      in if ds' = [] then ''0'' else ds')"

text \<open>The first longest run of at least two zero groups, as \<open>appendTo6\<close> finds it; 255 stands for none.\<close>

definition zeroRun :: "nat list \<Rightarrow> nat \<times> nat" where
  "zeroRun gs =
     foldl (\<lambda>(zs, ze) i.
         let j = i + length (takeWhile (\<lambda>g. g = 0) (drop i gs))
         in if j - i \<ge> 2 \<and> j - i > ze - zs then (i, j) else (zs, ze)) (255, 255) [0..<8]"

definition joinGroups :: "nat list \<Rightarrow> string" where
  "joinGroups gs = (case map hexText gs of [] \<Rightarrow> [] | t # ts \<Rightarrow> t @ concat (map (\<lambda>u. '':'' @ u) ts))"

definition showIPv6 :: "nat list \<Rightarrow> string" where
  "showIPv6 gs =
     (case zeroRun gs of (zs, ze) \<Rightarrow>
        if zs = 255 then joinGroups gs else joinGroups (take zs gs) @ ''::'' @ joinGroups (drop ze gs))"

definition is4In6 :: "nat list \<Rightarrow> bool" where
  "is4In6 gs \<longleftrightarrow> length gs = 8 \<and> take 6 gs = [0, 0, 0, 0, 0, 65535]"

definition octetsOf :: "nat list \<Rightarrow> nat list" where
  "octetsOf gs = concat (map (\<lambda>g. [g div 256, g mod 256]) gs)"

fun groupsOf :: "string \<Rightarrow> nat list" where
  "groupsOf (a # b # r) = (256 * byteval a + byteval b) # groupsOf r"
| "groupsOf _ = []"

text \<open>\<open>netip.Addr.String\<close> and \<open>netip.AddrPort.String\<close>.\<close>

definition addrText6 :: "nat list \<Rightarrow> string" where
  "addrText6 gs = (if is4In6 gs then ''::ffff:'' @ showIPv4 (octetsOf (drop 6 gs)) else showIPv6 gs)"

definition AddrString :: "netipAddr \<Rightarrow> string" where
  "AddrString a =
     (case a of ZeroAddr \<Rightarrow> ''invalid IP'' | IPv4 bs \<Rightarrow> showIPv4 (map byteval bs) | IPv6 bs \<Rightarrow> addrText6 (groupsOf bs))"

definition AddrPortString :: "AddrPort \<Rightarrow> string" where
  "AddrPortString a =
     (case Addr a of
        ZeroAddr \<Rightarrow> ''invalid AddrPort''
      | IPv4 bs \<Rightarrow> AddrString (Addr a) @ '':'' @ showNat (unat (Port a))
      | IPv6 bs \<Rightarrow> ''['' @ AddrString (Addr a) @ '']:'' @ showNat (unat (Port a)))"

text \<open>\<open>net.UDPAddr.String\<close> for the result of \<open>net.ParseIP\<close>, which may be nil; a mapped IPv4
  address is printed as IPv4.\<close>

definition UDPAddrString :: "parsedAddr option \<Rightarrow> int \<Rightarrow> string" where
  "UDPAddrString ip port =
     JoinHostPort
       (case ip of
          None \<Rightarrow> []
        | Some (V4 os) \<Rightarrow> showIPv4 os
        | Some (V6 gs _) \<Rightarrow> if is4In6 gs then showIPv4 (octetsOf (drop 6 gs)) else showIPv6 gs)
       (showInt port)"

end
