(* ===== verification/Device.thy ===== *)
theory Device
  imports AccessRestart NetText
begin

text \<open>
  The WireGuard device as \<open>internal/wireguard.go\<close> and \<open>tunwg/access_store.go\<close> see it: the text of the
  configuration protocol the program writes (\<open>allowUserKey\<close>, \<open>RemovePeer\<close>, \<open>WgSetIpc\<close>) and the parser
  of the text it reads (\<open>GetWgDeviceInfo\<close>). The device itself is outside the repository: the text
  it returns is the argument of the parser, and what it does with a command is a parameter.

  A panic of \<open>Must\<close> is the error \<open>panicMust\<close>.
\<close>

section \<open>Commands\<close>

fun joinLines :: "string list \<Rightarrow> string" where
  "joinLines [] = []"
| "joinLines [l] = l"
| "joinLines (l # ls) = l @ CHR 0x0A # joinLines ls"

definition WgSetIpc :: "(string \<Rightarrow> 'w \<Rightarrow> string option \<times> 'w) \<Rightarrow> string list \<Rightarrow> 'w \<Rightarrow> string option \<times> 'w" where
  "WgSetIpc ipcSet ins w = ipcSet (joinLines ins) w"

definition allowUserKeyIpc :: "(string \<Rightarrow> string) \<Rightarrow> wgKey \<Rightarrow> string \<Rightarrow> string list" where
  "allowUserKeyIpc sha key endpoint =
     [''public_key='' @ hexEncode key, ''allowed_ip='' @ AddrString (GetIPForKey sha key) @ ''/128'']
     @ (if endpoint \<noteq> [] then [''endpoint='' @ endpoint] else [])"

definition allowUserKey ::
  "(string \<Rightarrow> string) \<Rightarrow> (string \<Rightarrow> 'w \<Rightarrow> string option \<times> 'w) \<Rightarrow> wgKey \<Rightarrow> string \<Rightarrow> 'w \<Rightarrow> string option \<times> 'w" where
  "allowUserKey sha ipcSet key endpoint w = WgSetIpc ipcSet (allowUserKeyIpc sha key endpoint) w"

definition removePeerIpc :: "wgKey \<Rightarrow> string" where
  "removePeerIpc pub = ''public_key='' @ hexEncode pub @ [CHR 0x0A] @ ''remove=true'' @ [CHR 0x0A]"

definition removePeer :: "(string \<Rightarrow> 'w \<Rightarrow> string option \<times> 'w) \<Rightarrow> wgKey \<Rightarrow> 'w \<Rightarrow> string option \<times> 'w" where
  "removePeer ipcSet pub w = ipcSet (removePeerIpc pub) w"

section \<open>Reading the device\<close>

text \<open>\<open>bufio.Scanner\<close> over lines: a trailing carriage return is dropped, a final empty line is not
  reported, and a line of 64 KiB ends the scan with an error (the second component).\<close>

definition dropCR :: "string \<Rightarrow> string" where
  "dropCR l = (if l \<noteq> [] \<and> last l = CHR 0x0D then butlast l else l)"

definition scanLines :: "string \<Rightarrow> string list \<times> bool" where
  "scanLines text =
     (let raw = Split text CHR 0x0A;
          ls = (if last raw = [] then butlast raw else raw);
          short = takeWhile (\<lambda>l. length l < 65536) ls
      in (map dropCR short, length short < length ls))"

fun hexPairs :: "string \<Rightarrow> string option" where
  "hexPairs [] = Some []"
| "hexPairs [c] = None"
| "hexPairs (a # b # s) =
     (if isHex a \<and> isHex b then map_option (\<lambda>r. char_of (16 * hexVal a + hexVal b) # r) (hexPairs s) else None)"

text \<open>\<open>wgtypes.NewKey\<close> accepts 32 bytes.\<close>

definition NewKey :: "string \<Rightarrow> wgKey option" where
  "NewKey b = (if length b = 32 then Some b else None)"

datatype deviceError = ipcGetError string | badLine string | lineTooLong | panicMust

record wgDevice =
  ListenPort :: int
  dPeers :: "wgPeer list"

definition parseEndpoint :: "string \<Rightarrow> string option" where
  "parseEndpoint value =
     (case SplitHostPort value of
        None \<Rightarrow> None
      | Some (h, ports) \<Rightarrow> (case ParseInt ports of None \<Rightarrow> None | Some port \<Rightarrow> Some (UDPAddrString (ParseIP h) port)))"

definition newPeer :: "wgKey \<Rightarrow> wgPeer" where
  "newPeer k = \<lparr>PublicKey = k, PEndpoint = None, LastHandshakeTime = 0, ReceiveBytes = 0, TransmitBytes = 0\<rparr>"

definition flush :: "wgDevice \<Rightarrow> wgPeer option \<Rightarrow> wgDevice" where
  "flush dev p = (case p of None \<Rightarrow> dev | Some q \<Rightarrow> dev\<lparr>dPeers := dPeers dev @ [q]\<rparr>)"

text \<open>The \<open>switch\<close> over the fields of a peer.\<close>

definition peerField :: "string \<Rightarrow> string \<Rightarrow> wgPeer \<Rightarrow> deviceError + wgPeer" where
  "peerField key value p =
     (let must = (\<lambda>f. case ParseInt value of None \<Rightarrow> Inl panicMust | Some n \<Rightarrow> Inr (f n))
      in if key = ''rx_bytes'' then must (\<lambda>n. p\<lparr>ReceiveBytes := n\<rparr>)
         else if key = ''tx_bytes'' then must (\<lambda>n. p\<lparr>TransmitBytes := n\<rparr>)
         else if key = ''last_handshake_time_sec''
         then must (\<lambda>n. p\<lparr>LastHandshakeTime := Unix n (Nanosecond (LastHandshakeTime p))\<rparr>)
         else if key = ''last_handshake_time_nsec''
         then must (\<lambda>n. p\<lparr>LastHandshakeTime := Unix (unixSec (LastHandshakeTime p)) n\<rparr>)
         else if key = ''endpoint''
         then (case parseEndpoint value of None \<Rightarrow> Inr p | Some e \<Rightarrow> Inr (p\<lparr>PEndpoint := Some e\<rparr>))
         else Inr p)"

definition deviceLine :: "string \<Rightarrow> wgDevice \<Rightarrow> wgPeer option \<Rightarrow> deviceError + wgDevice \<times> wgPeer option" where
  "deviceLine line dev lastPeer =
     (let (key, value, ok) = Cut line CHR ''=''
      in if \<not> ok then Inl (badLine line)
         else if key = ''public_key'' then
           (case Option.bind (hexPairs value) NewKey of
              None \<Rightarrow> Inl panicMust
            | Some k \<Rightarrow> Inr (flush dev lastPeer, Some (newPeer k)))
         else
           (case lastPeer of
              None \<Rightarrow>
                (if key = ''listen_port''
                 then (case ParseInt value of None \<Rightarrow> Inl panicMust | Some n \<Rightarrow> Inr (dev\<lparr>ListenPort := n\<rparr>, None))
                 else Inr (dev, None))
            | Some p \<Rightarrow> (case peerField key value p of Inl e \<Rightarrow> Inl e | Inr p' \<Rightarrow> Inr (dev, Some p'))))"

fun deviceLoop :: "string list \<Rightarrow> bool \<Rightarrow> wgDevice \<Rightarrow> wgPeer option \<Rightarrow> deviceError + wgDevice" where
  "deviceLoop [] tooLong dev lastPeer = (if tooLong then Inl lineTooLong else Inr (flush dev lastPeer))"
| "deviceLoop (line # ls) tooLong dev lastPeer =
     (if line = [] then Inr (flush dev lastPeer)
      else case deviceLine line dev lastPeer of
             Inl e \<Rightarrow> Inl e
           | Inr (dev', last') \<Rightarrow> deviceLoop ls tooLong dev' last')"

definition GetWgDeviceInfo :: "string + string \<Rightarrow> deviceError + wgDevice" where
  "GetWgDeviceInfo ipcGet =
     (case ipcGet of
        Inl err \<Rightarrow> Inl (ipcGetError err)
      | Inr raw \<Rightarrow> (case scanLines raw of (ls, tooLong) \<Rightarrow> deviceLoop ls tooLong \<lparr>ListenPort = 0, dPeers = []\<rparr> None))"

section \<open>Reading what the device prints\<close>

text \<open>
  The documented text of the device for one peer, in the order it prints the fields; \<open>uExtra\<close> holds
  the allowed addresses and other lines the program does not read.
\<close>

record uapiPeer =
  uKey :: wgKey
  uEndpoint :: "string option"
  uSec :: int
  uNsec :: int
  uTx :: int
  uRx :: int
  uExtra :: "string list"

definition uapiLines :: "uapiPeer \<Rightarrow> string list" where
  "uapiLines p =
     [''public_key='' @ hexEncode (uKey p), ''protocol_version=1'']
     @ (case uEndpoint p of None \<Rightarrow> [] | Some e \<Rightarrow> [''endpoint='' @ e])
     @ [''last_handshake_time_sec='' @ showInt (uSec p), ''last_handshake_time_nsec='' @ showInt (uNsec p),
        ''tx_bytes='' @ showInt (uTx p), ''rx_bytes='' @ showInt (uRx p)]
     @ map (\<lambda>a. ''allowed_ip='' @ a) (uExtra p)"

definition uapiText :: "string \<Rightarrow> int \<Rightarrow> uapiPeer list \<Rightarrow> string" where
  "uapiText priv port ps =
     concat (map (\<lambda>l. l @ [CHR 0x0A]) ([''private_key='' @ priv, ''listen_port='' @ showInt port] @ concat (map uapiLines ps)))"

text \<open>The peer the program is meant to see.\<close>

definition readPeer :: "uapiPeer \<Rightarrow> wgPeer" where
  "readPeer p =
     \<lparr>PublicKey = uKey p, PEndpoint = Option.bind (uEndpoint p) parseEndpoint,
      LastHandshakeTime = Unix (uSec p) (uNsec p), ReceiveBytes = uRx p, TransmitBytes = uTx p\<rparr>"

definition lineOk :: "string \<Rightarrow> bool" where
  "lineOk l \<longleftrightarrow> l \<noteq> [] \<and> CHR 0x0A \<notin> set l \<and> last l \<noteq> CHR 0x0D \<and> length l < 65536"

definition uapiOk :: "uapiPeer \<Rightarrow> bool" where
  "uapiOk p \<longleftrightarrow> length (uKey p) = 32 \<and> int64 (uSec p) \<and> int64 (uNsec p) \<and> int64 (uTx p) \<and> int64 (uRx p)
     \<and> 0 \<le> uNsec p \<and> uNsec p < second \<and> list_all lineOk (uapiLines p)"

lemma scanLines_text:
  assumes "list_all lineOk ls"
  shows "scanLines (concat (map (\<lambda>l. l @ [CHR 0x0A]) ls)) = (ls, False)"
proof -
  have "Split (concat (map (\<lambda>l. l @ [CHR 0x0A]) ls)) CHR 0x0A = ls @ [[]]"
    using assms by (induction ls) (simp_all add: lineOk_def Split_append)
  moreover have short: "takeWhile (\<lambda>l. length l < 65536) ls = ls" using assms by (simp add: takeWhile_eq_all_conv list_all_iff lineOk_def)
  moreover have "map dropCR ls = ls" using assms by (intro map_idI) (auto simp: list_all_iff lineOk_def dropCR_def)
  ultimately show ?thesis by (simp add: scanLines_def Let_def short)
qed

lemma hexDigit_hex:
  assumes "n < 16"
  shows "isHex (hexDigit n)" and "hexVal (hexDigit n) = n"
proof -
  have "list_all (\<lambda>n. isHex (hexDigit n) \<and> hexVal (hexDigit n) = n) [0..<16]" by code_simp
  with assms show "isHex (hexDigit n)" and "hexVal (hexDigit n) = n" by (simp_all add: list_all_iff)
qed

lemma hexPairs_hexEncode: "hexPairs (hexEncode b) = Some b"
proof (induction b)
  case (Cons a b)
  have "char_of (16 * (byteval a div 16) + byteval a mod 16) = a" by (simp add: byteval_def)
  with Cons show ?case by (simp add: hexDigit_hex)
qed simp

lemma Cut_field: "CHR ''='' \<notin> set k \<Longrightarrow> Cut (k @ CHR ''='' # v) CHR ''='' = (k, v, True)"
  by (rule Cut_found)

lemma deviceLine_field:
  assumes "CHR ''='' \<notin> set k" and "k \<noteq> ''public_key''"
  shows "deviceLine (k @ CHR ''='' # v) dev (Some p) = (case peerField k v p of Inl e \<Rightarrow> Inl e | Inr p' \<Rightarrow> Inr (dev, Some p'))"
  using assms by (simp add: deviceLine_def Cut_field)

lemma deviceLine_key:
  assumes "length k = 32"
  shows "deviceLine (''public_key='' @ hexEncode k) dev lp = Inr (flush dev lp, Some (newPeer k))"
  using assms Cut_field [of "''public_key''" "hexEncode k"] by (simp add: deviceLine_def hexPairs_hexEncode NewKey_def)

lemma Nanosecond_Unix: "0 \<le> n \<Longrightarrow> n < second \<Longrightarrow> unixSec (Unix s n) = s \<and> Nanosecond (Unix s 0) = 0"
  by (simp add: unixSec_def Unix_def Nanosecond_def)

text \<open>The lines of one peer, read with any peer still open before them.\<close>

lemma deviceLoop_extra:
  "list_all lineOk (map (\<lambda>a. ''allowed_ip='' @ a) xs) \<Longrightarrow>
   deviceLoop (map (\<lambda>a. ''allowed_ip='' @ a) xs @ rest) long dev (Some p) = deviceLoop rest long dev (Some p)"
proof (induction xs)
  case (Cons a xs)
  have "deviceLine (''allowed_ip='' @ a) dev (Some p) = Inr (dev, Some p)"
    using deviceLine_field [of "''allowed_ip''" a dev p] by (simp add: peerField_def)
  with Cons show ?case by simp
qed simp

lemma deviceLoop_peer:
  assumes "uapiOk u"
  shows "deviceLoop (uapiLines u @ rest) long dev lp = deviceLoop rest long (flush dev lp) (Some (readPeer u))"
proof -
  note k = deviceLine_key [of "uKey u"] and f = deviceLine_field
  let ?d = "flush dev lp"
  define p0 where "p0 = newPeer (uKey u)"
  define p1 where "p1 = (case uEndpoint u of None \<Rightarrow> p0 | Some e \<Rightarrow> p0\<lparr>PEndpoint := parseEndpoint e\<rparr>)"
  have proto: "deviceLine ''protocol_version=1'' ?d (Some p) = Inr (?d, Some p)" for p
    using f [of "''protocol_version''" "''1''" ?d p] by (simp add: peerField_def)
  have ep: "deviceLine (''endpoint='' @ e) ?d (Some p0) = Inr (?d, Some (p0\<lparr>PEndpoint := parseEndpoint e\<rparr>))" for e
    using f [of "''endpoint''" e ?d p0] by (auto simp: peerField_def p0_def newPeer_def split: option.split)
  have num: "deviceLine (''last_handshake_time_sec='' @ showInt (uSec u)) ?d (Some p)
      = Inr (?d, Some (p\<lparr>LastHandshakeTime := Unix (uSec u) (Nanosecond (LastHandshakeTime p))\<rparr>))"
    "deviceLine (''last_handshake_time_nsec='' @ showInt (uNsec u)) ?d (Some p)
      = Inr (?d, Some (p\<lparr>LastHandshakeTime := Unix (unixSec (LastHandshakeTime p)) (uNsec u)\<rparr>))"
    "deviceLine (''tx_bytes='' @ showInt (uTx u)) ?d (Some p) = Inr (?d, Some (p\<lparr>TransmitBytes := uTx u\<rparr>))"
    "deviceLine (''rx_bytes='' @ showInt (uRx u)) ?d (Some p) = Inr (?d, Some (p\<lparr>ReceiveBytes := uRx u\<rparr>))" for p
    using assms f [of "''last_handshake_time_sec''" "showInt (uSec u)" ?d p] f [of "''last_handshake_time_nsec''" "showInt (uNsec u)" ?d p]
      f [of "''tx_bytes''" "showInt (uTx u)" ?d p] f [of "''rx_bytes''" "showInt (uRx u)" ?d p]
    by (simp_all add: uapiOk_def peerField_def ParseInt_showInt)
  have t0: "LastHandshakeTime p1 = 0" by (simp add: p1_def p0_def newPeer_def split: option.split)
  have fin: "p1\<lparr>LastHandshakeTime := Unix (unixSec (Unix (uSec u) (Nanosecond 0))) (uNsec u), TransmitBytes := uTx u, ReceiveBytes := uRx u\<rparr> = readPeer u"
    using Nanosecond_Unix [of 0 "uSec u"] by (simp add: p1_def p0_def newPeer_def readPeer_def Nanosecond_def split: option.split)
  have len: "length (uKey u) = 32" and ok: "list_all lineOk (map (\<lambda>a. ''allowed_ip='' @ a) (uExtra u))"
    using assms by (simp_all add: uapiOk_def uapiLines_def)
  show ?thesis
    using deviceLoop_extra [OF ok, of rest long ?d "readPeer u"] fin t0 k [OF len, of dev lp]
    by (cases "uEndpoint u") (simp_all add: uapiLines_def proto ep [simplified] num [simplified] p1_def p0_def [symmetric])
qed

lemma deviceLoop_peers:
  assumes "list_all uapiOk us"
  shows "deviceLoop (concat (map uapiLines us)) False dev lp
    = Inr ((flush dev lp)\<lparr>dPeers := dPeers (flush dev lp) @ map readPeer us\<rparr>)"
  using assms
proof (induction us arbitrary: dev lp)
  case (Cons u us)
  then show ?case using deviceLoop_peer [of u "concat (map uapiLines us)" False dev lp] by (simp add: flush_def)
qed simp

lemma device_reads:
  assumes "list_all uapiOk us" and "lineOk (''private_key='' @ priv)" and "lineOk (''listen_port='' @ showInt port)" and "int64 port"
  shows "GetWgDeviceInfo (Inr (uapiText priv port us)) = Inr \<lparr>ListenPort = port, dPeers = map readPeer us\<rparr>"
proof -
  let ?ls = "[''private_key='' @ priv, ''listen_port='' @ showInt port] @ concat (map uapiLines us)"
  let ?d0 = "\<lparr>ListenPort = 0, dPeers = []\<rparr>"
  have "list_all lineOk ?ls" using assms by (auto simp: list_all_iff uapiOk_def)
  from scanLines_text [OF this] have sl: "scanLines (uapiText priv port us) = (?ls, False)" by (simp add: uapiText_def)
  have l1: "deviceLine (''private_key='' @ priv) ?d0 None = Inr (?d0, None)"
    using Cut_field [of "''private_key''" priv] by (simp add: deviceLine_def)
  have l2: "deviceLine (''listen_port='' @ showInt port) ?d0 None = Inr (\<lparr>ListenPort = port, dPeers = []\<rparr>, None)"
    using Cut_field [of "''listen_port''" "showInt port"] assms(4) by (simp add: deviceLine_def ParseInt_showInt)
  show ?thesis
    using deviceLoop_peers [OF assms(1), of "\<lparr>ListenPort = port, dPeers = []\<rparr>" None] l1 l2
    by (simp add: GetWgDeviceInfo_def sl flush_def)
qed


definition exUapi :: "int \<Rightarrow> uapiPeer" where
  "exUapi sec = \<lparr>uKey = replicate 32 (CHR ''k''), uEndpoint = Some ''192.0.2.7:51820'', uSec = sec, uNsec = 0, uTx = 50, uRx = 700,
     uExtra = [''fdb0:1ad:4d05:8142::1/128'']\<rparr>"


section \<open>A peer that has not shaken hands\<close>



section \<open>Commands cannot be split\<close>

lemma Split_joinLines:
  assumes "ls \<noteq> []" and "\<forall>l\<in>set ls. CHR 0x0A \<notin> set l"
  shows "Split (joinLines ls) CHR 0x0A = ls"
  using assms by (induction ls rule: joinLines.induct) (simp_all add: Split_single Split_append)

text \<open>The bytes an address in text form is made of.\<close>

definition addrByte :: "char \<Rightarrow> bool" where
  "addrByte c \<longleftrightarrow> isHex c \<or> c = CHR '':'' \<or> c = CHR ''.''"

lemma showNat_addr: "c \<in> set (showNat n) \<Longrightarrow> addrByte c"
  using showNat_digits [of n] by (auto simp: list_all_iff addrByte_def isHex_def)

lemma showIPv4_addr: "c \<in> set (showIPv4 os) \<Longrightarrow> addrByte c"
  by (cases os rule: showIPv4.cases) (auto dest: showNat_addr simp: addrByte_def)

lemma hexText_addr:
  assumes "c \<in> set (hexText n)"
  shows "addrByte c"
proof -
  have nth: "addrByte (''0123456789abcdef'' ! (k mod 16))" for k
    using hexDigit_hex(1) [of "k mod 16"] by (simp add: hexDigit_def addrByte_def)
  define ds where "ds = map (\<lambda>k. ''0123456789abcdef'' ! (k mod 16)) [n div 4096, n div 256, n div 16, n]"
  have "list_all addrByte ds" by (simp only: ds_def list.map list.pred_inject nth simp_thms)
  then have "list_all addrByte (dropWhile (\<lambda>c. c = CHR ''0'') ds)" by (auto simp: list_all_iff dest: set_dropWhileD)
  moreover have "hexText n = (let r = dropWhile (\<lambda>c. c = CHR ''0'') ds in if r = [] then ''0'' else r)"
    by (simp only: hexText_def ds_def list.map Let_def)
  moreover have "addrByte CHR ''0''" using nth [of 0] by simp
  ultimately show ?thesis using assms by (auto simp: Let_def list_all_iff split: if_splits)
qed

lemma joinGroups_addr: "c \<in> set (joinGroups gs) \<Longrightarrow> addrByte c"
  by (cases gs) (auto simp: joinGroups_def addrByte_def dest: hexText_addr [unfolded addrByte_def] split: if_splits)

lemma showIPv6_addr: "c \<in> set (showIPv6 gs) \<Longrightarrow> addrByte c"
  by (auto simp: showIPv6_def addrByte_def split: prod.splits if_splits dest: joinGroups_addr [unfolded addrByte_def])

lemma AddrString_addr: "c \<in> set (AddrString (IPv6 bs)) \<Longrightarrow> addrByte c"
  using showIPv4_addr [of c] showIPv6_addr [of c]
  by (auto simp: AddrString_def addrText6_def addrByte_def isHex_def byteval_def isDigit_def split: if_splits)

lemma addrByte_line: "addrByte c \<Longrightarrow> c \<noteq> CHR 0x0A \<and> c \<noteq> CHR 0x0D"
  by (auto simp: addrByte_def isHex_def isDigit_def byteval_def)

text \<open>No byte of an address, a port or a key ends a line.\<close>

definition noLine :: "string \<Rightarrow> bool" where
  "noLine s \<longleftrightarrow> CHR 0x0A \<notin> set s"

lemma noLine_append [simp]: "noLine []" "noLine (a @ b) \<longleftrightarrow> noLine a \<and> noLine b"
  by (auto simp: noLine_def)

lemma noLine_addr: "(\<And>c. c \<in> set s \<Longrightarrow> addrByte c) \<Longrightarrow> noLine s"
  using addrByte_line by (auto simp: noLine_def)

lemmas noLine_texts [simp] =
  noLine_addr [OF showNat_addr] noLine_addr [OF showIPv4_addr] noLine_addr [OF showIPv6_addr]

lemma noLine_showInt [simp]: "noLine (showInt n)"
proof -
  have "noLine (CHR ''-'' # s) = noLine s" for s by (simp add: noLine_def)
  then show ?thesis by (simp add: showInt_def)
qed

lemma noLine_AddrString [simp]: "noLine (AddrString a)"
proof -
  have "noLine ''invalid IP''" and "noLine ''::ffff:''" by (simp_all add: noLine_def)
  then show ?thesis by (simp add: AddrString_def addrText6_def del: append.simps split: netipAddr.split)
qed

lemma noLine_UDPAddrString [simp]: "noLine (UDPAddrString ip port)"
proof -
  have "noLine [CHR ''['']" "noLine [CHR '']'']" "noLine '']:''" "noLine '':''" by (simp_all add: noLine_def)
  then have "noLine (JoinHostPort h p) = (noLine h \<and> noLine p)" for h p
    by (auto simp: JoinHostPort_def noLine_def)
  then show ?thesis by (simp add: UDPAddrString_def split: option.split parsedAddr.split)
qed

lemma noLine_hexEncode [simp]: "noLine (hexEncode b)"
  using hexEncode_chars [of _ b] hexDigit_hex(1) by (intro noLine_addr) (auto simp: addrByte_def)

lemma allowUserKey_lines:
  assumes "noLine endpoint"
  shows "Split (joinLines (allowUserKeyIpc sha key endpoint)) CHR 0x0A = allowUserKeyIpc sha key endpoint"
proof -
  have "noLine ''public_key=''" "noLine ''allowed_ip=''" "noLine ''endpoint=''" "noLine ''/128''" by (simp_all add: noLine_def)
  with assms have "\<forall>l\<in>set (allowUserKeyIpc sha key endpoint). noLine l"
    by (simp add: allowUserKeyIpc_def del: append.simps)
  then show ?thesis by (intro Split_joinLines) (simp_all add: noLine_def allowUserKeyIpc_def)
qed

lemma removePeer_lines: "Split (removePeerIpc key) CHR 0x0A = [''public_key='' @ hexEncode key, ''remove=true'', []]"
proof -
  have "CHR 0x0A \<notin> set (hexEncode key)" using noLine_hexEncode [of key] by (simp add: noLine_def)
  then show ?thesis by (simp add: removePeerIpc_def Split_append)
qed

lemma noLine_parsed: "parseEndpoint reported = Some endpoint \<Longrightarrow> noLine endpoint"
  by (auto simp: parseEndpoint_def split: option.splits prod.splits)



end
