(* ===== verification/FileSystem.thy ===== *)
theory FileSystem
  imports Device "HOL-Library.List_Lexorder" "HOL-Library.Char_ord"
begin

text \<open>
  The part of Go's \<open>os\<close> and \<open>encoding/json\<close> packages that \<open>tunwg/access_store.go\<close> uses.

  \<^item> Files. One directory maps names to inodes. \<open>disk\<close> lists the versions of the directory the
    disk may hold since the last \<open>Sync\<close> of the directory, and an inode says whether its bytes have been
    synced. A power loss keeps one of these versions and leaves the bytes of an inode that was
    not synced open (\<open>powerLoss\<close>).
  \<^item> Faults. Every system call that changes something takes a number; \<open>onCall\<close> says with which error
    the call of that number fails, and, for a write, after how many bytes. \<open>onRead\<close> says the same of
    reads, which change nothing. A process that is killed is a process whose remaining calls all fail.
  \<^item> JSON. Documents are trees. The text syntax of JSON and the RFC 3339 text of a time are the
    parameters \<open>codec\<close>; how Go maps a tree to a struct (case-insensitive names, \<open>null\<close>, members that
    are missing, repeated or unknown, \<open>omitempty\<close>, sorted keys) is defined.
\<close>

section \<open>Files\<close>

record inode =
  bytes :: string
  synced :: bool

record fsys =
  dir :: "(string, nat) gomap"
  disk :: "(string, nat) gomap list"
  inodes :: "inode list"
  calls :: nat

record faults =
  onCall :: "nat \<Rightarrow> (string \<times> nat) option"
  onRead :: "nat \<Rightarrow> string \<Rightarrow> string option"

datatype ioError = NotExist | IOError string

text \<open>A call that only fails or succeeds: \<open>MkdirAll\<close>, \<open>Chmod\<close>, \<open>Close\<close>, and opening the directory.\<close>

definition osCall :: "faults \<Rightarrow> fsys \<Rightarrow> string option \<times> fsys" where
  "osCall F fs = (map_option fst (onCall F (calls fs)), fs\<lparr>calls := Suc (calls fs)\<rparr>)"

definition osReadFile :: "faults \<Rightarrow> string \<Rightarrow> fsys \<Rightarrow> ioError + string" where
  "osReadFile F path fs =
     (case onRead F (calls fs) path of
        Some e \<Rightarrow> Inl (IOError e)
      | None \<Rightarrow> (case map_of (dir fs) path of None \<Rightarrow> Inl NotExist | Some i \<Rightarrow> Inr (bytes (inodes fs ! i))))"

definition osStat :: "faults \<Rightarrow> string \<Rightarrow> fsys \<Rightarrow> ioError option" where
  "osStat F path fs = (case osReadFile F path fs of Inl e \<Rightarrow> Some e | Inr _ \<Rightarrow> None)"

text \<open>\<open>os.OpenFile\<close> with \<open>O_WRONLY|O_CREATE|O_TRUNC\<close>: a file that exists is emptied, a new one gets a
  new inode.\<close>

definition osCreate :: "faults \<Rightarrow> string \<Rightarrow> fsys \<Rightarrow> (string + nat) \<times> fsys" where
  "osCreate F path fs0 =
     (case osCall F fs0 of
        (Some e, fs) \<Rightarrow> (Inl e, fs)
      | (None, fs) \<Rightarrow>
          (case map_of (dir fs) path of
             Some i \<Rightarrow> (Inr i, fs\<lparr>inodes := (inodes fs)[i := \<lparr>bytes = [], synced = False\<rparr>]\<rparr>)
           | None \<Rightarrow>
               let i = length (inodes fs); d = put (dir fs) path i
               in (Inr i, fs\<lparr>inodes := inodes fs @ [\<lparr>bytes = [], synced = False\<rparr>], dir := d, disk := disk fs @ [d]\<rparr>)))"

definition osWrite :: "faults \<Rightarrow> nat \<Rightarrow> string \<Rightarrow> fsys \<Rightarrow> string option \<times> fsys" where
  "osWrite F i data fs =
     (let old = bytes (inodes fs ! i);
          after = (\<lambda>d. fs\<lparr>calls := Suc (calls fs), inodes := (inodes fs)[i := \<lparr>bytes = old @ d, synced = False\<rparr>]\<rparr>)
      in case onCall F (calls fs) of
           Some (e, n) \<Rightarrow> (Some e, after (take n data))
         | None \<Rightarrow> (None, after data))"

definition osSync :: "faults \<Rightarrow> nat \<Rightarrow> fsys \<Rightarrow> string option \<times> fsys" where
  "osSync F i fs0 =
     (case osCall F fs0 of
        (Some e, fs) \<Rightarrow> (Some e, fs)
      | (None, fs) \<Rightarrow> (None, fs\<lparr>inodes := (inodes fs)[i := (inodes fs ! i)\<lparr>synced := True\<rparr>]\<rparr>))"

definition osRename :: "faults \<Rightarrow> string \<Rightarrow> string \<Rightarrow> fsys \<Rightarrow> string option \<times> fsys" where
  "osRename F a b fs0 =
     (case osCall F fs0 of
        (Some e, fs) \<Rightarrow> (Some e, fs)
      | (None, fs) \<Rightarrow>
          (case map_of (dir fs) a of
             None \<Rightarrow> (Some ''no such file or directory'', fs)
           | Some i \<Rightarrow>
               let d = put (del (dir fs) a) b i
               in (None, fs\<lparr>dir := d, disk := disk fs @ [d]\<rparr>)))"

definition osSyncDir :: "faults \<Rightarrow> fsys \<Rightarrow> string option \<times> fsys" where
  "osSyncDir F fs0 =
     (case osCall F fs0 of
        (Some e, fs) \<Rightarrow> (Some e, fs)
      | (None, fs) \<Rightarrow> (None, fs\<lparr>disk := [dir fs]\<rparr>))"

text \<open>What may be found after a power loss.\<close>

definition powerLoss :: "fsys \<Rightarrow> fsys \<Rightarrow> bool" where
  "powerLoss fs fs' \<longleftrightarrow> dir fs' \<in> set (disk fs) \<and> disk fs' = [dir fs'] \<and> length (inodes fs') = length (inodes fs)
     \<and> (\<forall>i<length (inodes fs). synced (inodes fs ! i) \<longrightarrow> inodes fs' ! i = inodes fs ! i)"

section \<open>JSON\<close>

datatype json = JNull | JBool bool | JInt int | JFrac string | JStr string | JArr "json list" | JObj "(string \<times> json) list"

record codec =
  printJson :: "json \<Rightarrow> string"
  parseJson :: "string \<Rightarrow> json option"
  printTime :: "time \<Rightarrow> string option"
  parseTime :: "string \<Rightarrow> time option"

text \<open>The folding by which a member name matches a field: ASCII letters, and the two code points
  outside ASCII (the Kelvin sign and the long s) that fold to one.\<close>

fun foldName :: "string \<Rightarrow> string" where
  "foldName (a # b # c # s) =
     (if [a, b, c] = [CHR 0xE2, CHR 0x84, CHR 0xAA] then CHR ''k'' # foldName s
      else if [a, b] = [CHR 0xC5, CHR 0xBF] then CHR ''s'' # foldName (c # s)
      else lowerByte a # foldName (b # c # s))"
| "foldName [a, b] = (if [a, b] = [CHR 0xC5, CHR 0xBF] then ''s'' else [lowerByte a, lowerByte b])"
| "foldName [a] = [lowerByte a]"
| "foldName [] = []"

definition isField :: "string \<Rightarrow> string \<Rightarrow> bool" where
  "isField name field \<longleftrightarrow> foldName name = field"

definition decInt :: "json \<Rightarrow> int \<Rightarrow> int option" where
  "decInt j old = (case j of JNull \<Rightarrow> Some old | JInt i \<Rightarrow> (if int64 i then Some i else None) | _ \<Rightarrow> None)"

definition decStr :: "json \<Rightarrow> string \<Rightarrow> string option" where
  "decStr j old = (case j of JNull \<Rightarrow> Some old | JStr s \<Rightarrow> Some s | _ \<Rightarrow> None)"

definition decTime :: "codec \<Rightarrow> json \<Rightarrow> time \<Rightarrow> time option" where
  "decTime J j old = (case j of JNull \<Rightarrow> Some old | JStr s \<Rightarrow> parseTime J s | _ \<Rightarrow> None)"

text \<open>An object decoded into a struct: the members in order, each by \<open>f\<close>; \<open>null\<close> changes nothing.\<close>

fun decMembers :: "(string \<Rightarrow> json \<Rightarrow> 'a \<Rightarrow> 'a option) \<Rightarrow> (string \<times> json) list \<Rightarrow> 'a \<Rightarrow> 'a option" where
  "decMembers f [] x = Some x"
| "decMembers f ((name, j) # ms) x = (case f name j x of None \<Rightarrow> None | Some y \<Rightarrow> decMembers f ms y)"

definition decStruct :: "(string \<Rightarrow> json \<Rightarrow> 'a \<Rightarrow> 'a option) \<Rightarrow> json \<Rightarrow> 'a \<Rightarrow> 'a option" where
  "decStruct f j x = (case j of JNull \<Rightarrow> Some x | JObj ms \<Rightarrow> decMembers f ms x | _ \<Rightarrow> None)"

text \<open>An object decoded into a map: \<open>null\<close> makes it nil, members are added to what it holds.\<close>

definition decMap :: "(json \<Rightarrow> 'v option) \<Rightarrow> json \<Rightarrow> (string, 'v) gomap option \<Rightarrow> (string, 'v) gomap option option" where
  "decMap f j old =
     (case j of
        JNull \<Rightarrow> Some None
      | JObj ms \<Rightarrow>
          map_option Some
            (decMembers (\<lambda>name v m. map_option (\<lambda>x. put m name x) (f v)) ms (case old of None \<Rightarrow> [] | Some m \<Rightarrow> m))
      | _ \<Rightarrow> None)"

definition encMap :: "('v \<Rightarrow> json option) \<Rightarrow> (string, 'v) gomap option \<Rightarrow> json option" where
  "encMap f m =
     (case m of
        None \<Rightarrow> Some JNull
      | Some kvs \<Rightarrow>
          map_option JObj (those (map (\<lambda>(k, v). map_option (\<lambda>j. (k, j)) (f v)) (sort_key fst kvs))))"

lemma decMembers_append:
  "decMembers f (xs @ ys) x = (case decMembers f xs x of None \<Rightarrow> None | Some y \<Rightarrow> decMembers f ys y)"
  by (induction f xs x rule: decMembers.induct) (auto split: option.split)

end
