(* ===== verification/AccessStore.thy ===== *)
theory AccessStore
  imports FileSystem
begin

text \<open>
  \<open>tunwg/access_store.go\<close>: the file that holds the state of the access controller, the marker that
  says it was written once, and the list of revoked keys.

  The state file is replaced as a whole: \<open>Save\<close> writes a temporary file, syncs it, renames it and
  syncs the directory, in that order. The locales \<open>state_store\<close> and \<open>durable_store\<close> are what
  the controller relies on, and both are interpreted on \<open>fileSave\<close>.
\<close>

section \<open>The document\<close>

text \<open>The struct tags of \<open>accessPeerState\<close>, \<open>accessQuotaState\<close> and \<open>accessDiskState\<close>.\<close>

definition encTime :: "codec \<Rightarrow> time \<Rightarrow> json option" where
  "encTime J t = map_option JStr (printTime J t)"

definition omitEmpty :: "string \<Rightarrow> string \<Rightarrow> (string \<times> json) list" where
  "omitEmpty name s = (if s = [] then [] else [(name, JStr s)])"

definition encPeer :: "codec \<Rightarrow> accessPeerState \<Rightarrow> json option" where
  "encPeer J r =
     (case (encTime J (CreatedAt r), encTime J (LastSeen r), encTime J (EndpointSeenAt r)) of
        (Some a, Some b, Some c) \<Rightarrow>
          Some (JObj (omitEmpty ''key_id'' (KeyID r) @ omitEmpty ''auth_generation'' (AuthGeneration r)
            @ [(''created_at'', a), (''last_seen'', b)] @ omitEmpty ''endpoint'' (Endpoint r) @ [(''endpoint_seen_at'', c)]))
      | _ \<Rightarrow> None)"

definition encQuota :: "codec \<Rightarrow> accessQuotaState \<Rightarrow> json option" where
  "encQuota J q =
     (case (encTime J (BlockedUntil q), encTime J (QLastSeen q)) of
        (Some a, Some b) \<Rightarrow>
          Some (JObj ([(''usage_date'', JStr (UsageDate q))]
            @ (if UsedBytes q = 0 then [] else [(''used_bytes'', JInt (UsedBytes q))])
            @ [(''blocked_until'', a), (''last_seen'', b)]))
      | _ \<Rightarrow> None)"

definition encState :: "codec \<Rightarrow> accessDiskState \<Rightarrow> json option" where
  "encState J s =
     (case (encMap (encPeer J) (Peers s), encMap (encQuota J) (Quotas s), encTime J (IssueWindow s),
            encMap (\<lambda>n. Some (JInt n)) (IssueCounts s)) of
        (Some ps, Some qs, Some w, Some cs) \<Rightarrow>
          Some (JObj [(''version'', JInt (Version s)), (''peers'', ps), (''quotas'', qs), (''issue_window'', w), (''issue_counts'', cs)])
      | _ \<Rightarrow> None)"

definition decPeerField :: "codec \<Rightarrow> string \<Rightarrow> json \<Rightarrow> accessPeerState \<Rightarrow> accessPeerState option" where
  "decPeerField J name j r =
     (if isField name ''key_id'' then map_option (\<lambda>x. r\<lparr>KeyID := x\<rparr>) (decStr j (KeyID r))
      else if isField name ''auth_generation'' then map_option (\<lambda>x. r\<lparr>AuthGeneration := x\<rparr>) (decStr j (AuthGeneration r))
      else if isField name ''created_at'' then map_option (\<lambda>x. r\<lparr>CreatedAt := x\<rparr>) (decTime J j (CreatedAt r))
      else if isField name ''last_seen'' then map_option (\<lambda>x. r\<lparr>LastSeen := x\<rparr>) (decTime J j (LastSeen r))
      else if isField name ''endpoint'' then map_option (\<lambda>x. r\<lparr>Endpoint := x\<rparr>) (decStr j (Endpoint r))
      else if isField name ''endpoint_seen_at'' then map_option (\<lambda>x. r\<lparr>EndpointSeenAt := x\<rparr>) (decTime J j (EndpointSeenAt r))
      else Some r)"

definition decPeer :: "codec \<Rightarrow> json \<Rightarrow> accessPeerState option" where
  "decPeer J j =
     decStruct (decPeerField J) j
       \<lparr>KeyID = [], AuthGeneration = [], CreatedAt = 0, LastSeen = 0, Endpoint = [], EndpointSeenAt = 0\<rparr>"

definition decQuotaField :: "codec \<Rightarrow> string \<Rightarrow> json \<Rightarrow> accessQuotaState \<Rightarrow> accessQuotaState option" where
  "decQuotaField J name j q =
     (if isField name ''usage_date'' then map_option (\<lambda>x. q\<lparr>UsageDate := x\<rparr>) (decStr j (UsageDate q))
      else if isField name ''used_bytes'' then map_option (\<lambda>x. q\<lparr>UsedBytes := x\<rparr>) (decInt j (UsedBytes q))
      else if isField name ''blocked_until'' then map_option (\<lambda>x. q\<lparr>BlockedUntil := x\<rparr>) (decTime J j (BlockedUntil q))
      else if isField name ''last_seen'' then map_option (\<lambda>x. q\<lparr>QLastSeen := x\<rparr>) (decTime J j (QLastSeen q))
      else Some q)"

definition decQuota :: "codec \<Rightarrow> json \<Rightarrow> accessQuotaState option" where
  "decQuota J j = decStruct (decQuotaField J) j \<lparr>UsageDate = [], UsedBytes = 0, BlockedUntil = 0, QLastSeen = 0\<rparr>"

definition decStateField :: "codec \<Rightarrow> string \<Rightarrow> json \<Rightarrow> accessDiskState \<Rightarrow> accessDiskState option" where
  "decStateField J name j s =
     (if isField name ''version'' then map_option (\<lambda>x. s\<lparr>Version := x\<rparr>) (decInt j (Version s))
      else if isField name ''peers'' then map_option (\<lambda>x. s\<lparr>Peers := x\<rparr>) (decMap (decPeer J) j (Peers s))
      else if isField name ''quotas'' then map_option (\<lambda>x. s\<lparr>Quotas := x\<rparr>) (decMap (decQuota J) j (Quotas s))
      else if isField name ''issue_window'' then map_option (\<lambda>x. s\<lparr>IssueWindow := x\<rparr>) (decTime J j (IssueWindow s))
      else if isField name ''issue_counts'' then map_option (\<lambda>x. s\<lparr>IssueCounts := x\<rparr>) (decMap (\<lambda>j. decInt j 0) j (IssueCounts s))
      else Some s)"

section \<open>Loading\<close>

definition freshDiskState :: accessDiskState where
  "freshDiskState =
     \<lparr>Version = accessStateVersion, Peers = Some [], Quotas = Some [], IssueWindow = 0, IssueCounts = Some []\<rparr>"

definition unmarshalState :: "codec \<Rightarrow> string \<Rightarrow> string + accessDiskState" where
  "unmarshalState J data =
     (case Option.bind (parseJson J data) (\<lambda>j. decStruct (decStateField J) j freshDiskState) of
        None \<Rightarrow> Inl ''invalid access state file''
      | Some s \<Rightarrow> if Version s = 0 then Inl ''access state has no version'' else Inr s)"

text \<open>\<open>markerPath\<close> is \<open>None\<close> for a nil function.\<close>

definition fileLoad ::
  "codec \<Rightarrow> faults \<Rightarrow> string \<Rightarrow> string option \<Rightarrow> fsys \<Rightarrow> string + accessDiskState \<times> bool" where
  "fileLoad J F statePath markerPath fs =
     (case osReadFile F statePath fs of
        Inr data \<Rightarrow> (case unmarshalState J data of Inl e \<Rightarrow> Inl e | Inr s \<Rightarrow> Inr (s, True))
      | Inl (IOError e) \<Rightarrow> Inl e
      | Inl NotExist \<Rightarrow>
          (case markerPath of
             None \<Rightarrow> Inr (freshDiskState, False)
           | Some marker \<Rightarrow>
               (case osStat F marker fs of
                  None \<Rightarrow> Inl ''access state is missing after initialization''
                | Some (IOError e) \<Rightarrow> Inl e
                | Some NotExist \<Rightarrow> Inr (freshDiskState, False))))"

definition revocationLoad :: "faults \<Rightarrow> string \<Rightarrow> fsys \<Rightarrow> string + (string \<Rightarrow> bool)" where
  "revocationLoad F path fs =
     (case osReadFile F path fs of
        Inl NotExist \<Rightarrow> Inr (\<lambda>_. False)
      | Inl (IOError e) \<Rightarrow> Inl e
      | Inr data \<Rightarrow> Inr (\<lambda>id. id \<noteq> [] \<and> id \<in> set (map TrimSpace (Split data CHR 0x0A))))"

section \<open>Saving\<close>

text \<open>Chmod, write, sync, close, as both files are written: the first error is the result, and the file
  is closed in every case.\<close>

definition writeAndClose :: "faults \<Rightarrow> nat \<Rightarrow> string \<Rightarrow> fsys \<Rightarrow> string option \<times> fsys" where
  "writeAndClose F i data fs0 =
     (let (writeErr, fs) =
        (case osCall F fs0 of
           (Some e, fs1) \<Rightarrow> (Some e, fs1)
         | (None, fs1) \<Rightarrow>
             (case osWrite F i data fs1 of
                (Some e, fs2) \<Rightarrow> (Some e, fs2)
              | (None, fs2) \<Rightarrow> osSync F i fs2));
          (closeErr, fs') = osCall F fs
      in (if writeErr = None then closeErr else writeErr, fs'))"

definition syncDirectory :: "faults \<Rightarrow> fsys \<Rightarrow> string option \<times> fsys" where
  "syncDirectory F fs0 =
     (case osCall F fs0 of
        (Some e, fs) \<Rightarrow> (Some e, fs)
      | (None, fs) \<Rightarrow>
          (case osSyncDir F fs of (err, fs1) \<Rightarrow>
           (case osCall F fs1 of (closeErr, fs2) \<Rightarrow> (if err \<noteq> None then err else closeErr, fs2))))"

definition ensureMarker :: "faults \<Rightarrow> string option \<Rightarrow> fsys \<Rightarrow> string option \<times> fsys" where
  "ensureMarker F markerPath fs =
     (case markerPath of
        None \<Rightarrow> (None, fs)
      | Some marker \<Rightarrow>
          let write =
            (case osCreate F marker fs of
               (Inl e, fs1) \<Rightarrow> (Some e, fs1)
             | (Inr i, fs1) \<Rightarrow>
                 (case writeAndClose F i (showInt accessStateVersion @ [CHR 0x0A]) fs1 of
                    (Some e, fs2) \<Rightarrow> (Some e, fs2)
                  | (None, fs2) \<Rightarrow> syncDirectory F fs2))
          in (case osReadFile F marker fs of
                Inr data \<Rightarrow> if TrimSpace data = showInt accessStateVersion then (None, fs) else write
              | Inl (IOError e) \<Rightarrow> (Some e, fs)
              | Inl NotExist \<Rightarrow> write))"

definition fileSave ::
  "codec \<Rightarrow> faults \<Rightarrow> string \<Rightarrow> string option \<Rightarrow> accessDiskState \<Rightarrow> fsys \<Rightarrow> string option \<times> fsys" where
  "fileSave J F path markerPath state fs0 =
     (case osCall F fs0 of
        (Some e, fs1) \<Rightarrow> (Some e, fs1)
      | (None, fs1) \<Rightarrow>
          (case encState J state of
             None \<Rightarrow> (Some ''json: error calling MarshalJSON'', fs1)
           | Some doc \<Rightarrow>
               let tmp = path @ ''.tmp''
               in (case osCreate F tmp fs1 of
                     (Inl e, fs2) \<Rightarrow> (Some e, fs2)
                   | (Inr i, fs2) \<Rightarrow>
                       (case writeAndClose F i (printJson J doc) fs2 of
                          (Some e, fs3) \<Rightarrow> (Some e, fs3)
                        | (None, fs3) \<Rightarrow>
                            (case osRename F tmp path fs3 of
                               (Some e, fs4) \<Rightarrow> (Some e, fs4)
                             | (None, fs4) \<Rightarrow>
                                 (case syncDirectory F fs4 of
                                    (Some e, fs5) \<Rightarrow> (Some e, fs5)
                                  | (None, fs5) \<Rightarrow> ensureMarker F markerPath fs5))))))"

section \<open>What a save leaves behind\<close>

text \<open>
  \<open>okFs\<close> is the invariant of the directory: no two names share an inode, and whichever version of the
  directory the disk holds, the state file it names is synced and is not the file of another name.
\<close>

definition dirOk :: "nat \<Rightarrow> (string, nat) gomap \<Rightarrow> bool" where
  "dirOk n d \<longleftrightarrow> (\<forall>q i. map_of d q = Some i \<longrightarrow> i < n) \<and> (\<forall>q q' i. map_of d q = Some i \<longrightarrow> map_of d q' = Some i \<longrightarrow> q = q')"

definition okFs :: "string \<Rightarrow> fsys \<Rightarrow> bool" where
  "okFs path fs \<longleftrightarrow> dir fs \<in> set (disk fs) \<and> (\<forall>d\<in>set (disk fs). dirOk (length (inodes fs)) d)
     \<and> (\<forall>d\<in>set (disk fs). \<forall>i. map_of d path = Some i \<longrightarrow>
          synced (inodes fs ! i) \<and> (\<forall>q. map_of (dir fs) q = Some i \<longrightarrow> q = path))"

text \<open>The bytes of the state file, as the running system sees them and as they may be found after a power loss.\<close>

definition fileAt :: "string \<Rightarrow> fsys \<Rightarrow> (string, nat) gomap \<Rightarrow> string option" where
  "fileAt path fs d = map_option (\<lambda>i. bytes (inodes fs ! i)) (map_of d path)"

definition stateText :: "string \<Rightarrow> fsys \<Rightarrow> string option" where
  "stateText path fs = fileAt path fs (dir fs)"

definition lossTexts :: "string \<Rightarrow> fsys \<Rightarrow> string option list" where
  "lossTexts path fs = map (fileAt path fs) (disk fs)"

text \<open>A step that neither touches the state file nor what the disk may hold of it.\<close>

definition quiet :: "string \<Rightarrow> fsys \<Rightarrow> fsys \<Rightarrow> bool" where
  "quiet path fs fs' \<longleftrightarrow> (okFs path fs \<longrightarrow> okFs path fs' \<and> stateText path fs' = stateText path fs
     \<and> set (lossTexts path fs') \<subseteq> set (lossTexts path fs))"

lemma quiet_refl [simp]: "quiet path fs fs"
  by (simp add: quiet_def)

lemma quiet_trans [trans]: "quiet path a b \<Longrightarrow> quiet path b c \<Longrightarrow> quiet path a c"
  by (auto simp: quiet_def)

lemma quiet_ok: "quiet path fs fs' \<Longrightarrow> okFs path fs \<Longrightarrow> okFs path fs'"
  by (simp add: quiet_def)

lemma quiet_calls [simp]: "quiet path fs (fs\<lparr>calls := n\<rparr>)"
  by (simp add: quiet_def okFs_def stateText_def lossTexts_def fileAt_def)

lemma osCall_quiet: "osCall F fs = (r, fs') \<Longrightarrow> quiet path fs fs' \<and> dir fs' = dir fs \<and> disk fs' = disk fs \<and> inodes fs' = inodes fs"
  by (auto simp: osCall_def)

text \<open>Writing to the inode of another name.\<close>

lemma scratch_inode:
  assumes "okFs path fs" and "map_of (dir fs) q = Some i" and "q \<noteq> path" and "d \<in> set (disk fs)"
  shows "map_of d path \<noteq> Some i"
  using assms by (auto simp: okFs_def)

lemma quiet_inode:
  assumes "map_of (dir fs) q = Some i" and "q \<noteq> path"
  shows "quiet path fs (fs\<lparr>calls := n, inodes := (inodes fs)[i := x]\<rparr>)"
  unfolding quiet_def
proof
  assume ok: "okFs path fs"
  note scr = scratch_inode [OF ok assms]
  have same: "fileAt path (fs\<lparr>calls := n, inodes := (inodes fs)[i := x]\<rparr>) d = fileAt path fs d" if "d \<in> set (disk fs)" for d
    using scr [OF that] by (cases "map_of d path") (auto simp: fileAt_def)
  have "okFs path (fs\<lparr>calls := n, inodes := (inodes fs)[i := x]\<rparr>)"
    using ok scr by (auto simp: okFs_def) (metis nth_list_update_neq)
  moreover have "dir fs \<in> set (disk fs)" using ok by (simp add: okFs_def)
  ultimately show "okFs path (fs\<lparr>calls := n, inodes := (inodes fs)[i := x]\<rparr>)
      \<and> stateText path (fs\<lparr>calls := n, inodes := (inodes fs)[i := x]\<rparr>) = stateText path fs
      \<and> set (lossTexts path (fs\<lparr>calls := n, inodes := (inodes fs)[i := x]\<rparr>)) \<subseteq> set (lossTexts path fs)"
    using same by (auto simp: stateText_def lossTexts_def)
qed

lemma osCreate_quiet:
  assumes "osCreate F q fs = (r, fs')" and "q \<noteq> path"
  shows "quiet path fs fs'"
proof -
  obtain e fs1 where c: "osCall F fs = (e, fs1)" by fastforce
  note q1 = osCall_quiet [OF c]
  show ?thesis
  proof (cases e)
    case (Some x)
    with assms c q1 show ?thesis by (auto simp: osCreate_def)
  next
    case None
    show ?thesis
    proof (cases "map_of (dir fs1) q")
      case (Some i)
      then have "fs' = fs1\<lparr>calls := calls fs1, inodes := (inodes fs1)[i := \<lparr>bytes = [], synced = False\<rparr>]\<rparr>"
        using assms c None by (simp add: osCreate_def)
      with q1 quiet_inode [OF Some assms(2)] quiet_trans show ?thesis by metis
    next
      case new: None
      let ?i = "length (inodes fs1)" and ?d = "put (dir fs1) q (length (inodes fs1))"
      have fs': "fs' = fs1\<lparr>inodes := inodes fs1 @ [\<lparr>bytes = [], synced = False\<rparr>], dir := ?d, disk := disk fs1 @ [?d]\<rparr>"
        using assms c None new by (simp add: osCreate_def Let_def)
      have "quiet path fs1 fs'"
        unfolding quiet_def
      proof
        assume ok: "okFs path fs1"
        have lt: "j < ?i" if "d \<in> set (disk fs1)" "map_of d p = Some j" for d p j
          using ok that by (auto simp: okFs_def dirOk_def)
        have dok: "dirOk ?i (dir fs1)" using ok by (auto simp: okFs_def)
        have "dirOk (Suc ?i) ?d" using dok by (auto simp: dirOk_def less_Suc_eq)
        moreover have "\<forall>d\<in>set (disk fs1). dirOk (Suc ?i) d" using ok by (auto simp: okFs_def dirOk_def less_Suc_eq)
        moreover have mem: "dir fs1 \<in> set (disk fs1)" using ok by (simp add: okFs_def)
        ultimately have "okFs path fs'"
          using ok lt assms(2) by (auto simp: okFs_def fs' nth_append split: if_splits)
        moreover have "fileAt path fs' d = fileAt path fs1 d" if "d \<in> set (disk fs1)" for d
          using lt [OF that, of path] by (cases "map_of d path") (auto simp: fileAt_def fs' nth_append)
        moreover have "fileAt path fs' ?d = fileAt path fs' (dir fs1)" using assms(2) by (simp add: fileAt_def)
        ultimately show "okFs path fs' \<and> stateText path fs' = stateText path fs1 \<and> set (lossTexts path fs') \<subseteq> set (lossTexts path fs1)"
          using mem by (auto simp: stateText_def lossTexts_def fs')
      qed
      with q1 quiet_trans show ?thesis by blast
    qed
  qed
qed

lemma osCreate_handle:
  assumes "osCreate F q fs = (Inr i, fs')" and "okFs path fs"
  shows "map_of (dir fs') q = Some i \<and> i < length (inodes fs') \<and> bytes (inodes fs' ! i) = []"
proof -
  have "dirOk (length (inodes fs)) (dir fs)" using assms(2) by (auto simp: okFs_def)
  with assms(1) show ?thesis
    by (auto simp: osCreate_def osCall_def Let_def dirOk_def nth_append split: option.splits)
qed

lemma osWrite_quiet:
  assumes "osWrite F i data fs = (r, fs')" and "map_of (dir fs) q = Some i" and "q \<noteq> path"
  shows "quiet path fs fs' \<and> dir fs' = dir fs \<and> disk fs' = disk fs \<and> length (inodes fs') = length (inodes fs)"
  using assms quiet_inode [OF assms(2,3)] by (auto simp: osWrite_def Let_def split: option.splits)

lemma osSync_quiet:
  assumes "osSync F i fs = (r, fs')" and "map_of (dir fs) q = Some i" and "q \<noteq> path"
  shows "quiet path fs fs' \<and> dir fs' = dir fs \<and> disk fs' = disk fs \<and> length (inodes fs') = length (inodes fs)"
  using assms quiet_inode [OF assms(2,3)] by (auto simp: osSync_def osCall_def split: option.splits)

lemma writeAndClose_quiet:
  assumes "writeAndClose F i data fs = (r, fs')" and "map_of (dir fs) q = Some i" and "q \<noteq> path"
  shows "quiet path fs fs' \<and> dir fs' = dir fs \<and> disk fs' = disk fs"
proof -
  obtain e1 fs1 where c1: "osCall F fs = (e1, fs1)" by fastforce
  obtain e2 fs2 where c2: "osWrite F i data fs1 = (e2, fs2)" by fastforce
  obtain e3 fs3 where c3: "osSync F i fs2 = (e3, fs3)" by fastforce
  note q1 = osCall_quiet [OF c1, of path]
  then have "map_of (dir fs1) q = Some i" using assms(2) by simp
  note q2 = osWrite_quiet [OF c2 this assms(3)]
  then have "map_of (dir fs2) q = Some i" using \<open>map_of (dir fs1) q = Some i\<close> by simp
  note q3 = osSync_quiet [OF c3 this assms(3)]
  define g where "g = (if e1 \<noteq> None then fs1 else if e2 \<noteq> None then fs2 else fs3)"
  have "quiet path fs fs2" "quiet path fs fs3" using q1 q2 q3 quiet_trans by blast+
  then have g: "quiet path fs g" "dir g = dir fs" "disk g = disk fs" using q1 q2 q3 by (simp_all add: g_def)
  obtain e4 fs4 where c4: "osCall F g = (e4, fs4)" by fastforce
  have "fs' = fs4"
    using assms(1) c4 by (cases e1; cases e2) (simp_all add: writeAndClose_def c1 c2 c3 g_def)
  with g osCall_quiet [OF c4, of path] show ?thesis using quiet_trans by fastforce
qed

lemma writeAndClose_done:
  assumes "writeAndClose F i data fs = (None, fs')" and "i < length (inodes fs)" and "bytes (inodes fs ! i) = []"
  shows "inodes fs' = (inodes fs)[i := \<lparr>bytes = data, synced = True\<rparr>]"
  using assms by (auto simp: writeAndClose_def osCall_def osWrite_def osSync_def Let_def split: option.splits if_splits)

lemma syncDirectory_quiet:
  assumes "syncDirectory F fs = (r, fs')"
  shows "quiet path fs fs' \<and> dir fs' = dir fs \<and> inodes fs' = inodes fs \<and> (r = None \<longrightarrow> disk fs' = [dir fs])"
proof -
  have "quiet path g (g\<lparr>disk := [dir g], calls := n\<rparr>)" for g n
    by (auto simp: quiet_def okFs_def stateText_def lossTexts_def fileAt_def)
  with assms show ?thesis
    by (auto simp: syncDirectory_def osSyncDir_def osCall_def split: option.splits if_splits)
qed

lemma ensureMarker_quiet:
  assumes "ensureMarker F m fs = (r, fs')" and "okFs path fs" and "m \<noteq> Some path"
  shows "quiet path fs fs'"
proof (cases m)
  case None
  with assms show ?thesis by (simp add: ensureMarker_def)
next
  case (Some q)
  then have q: "q \<noteq> path" using assms(3) by auto
  obtain h fs1 where c1: "osCreate F q fs = (h, fs1)" by fastforce
  note q1 = osCreate_quiet [OF c1 q]
  show ?thesis
  proof (cases h)
    case (Inl e)
    then show ?thesis using assms(1) Some c1 q1 by (auto simp: ensureMarker_def Let_def split: sum.splits ioError.splits if_splits)
  next
    case (Inr i)
    have "map_of (dir fs1) q = Some i" using osCreate_handle [OF c1 [unfolded Inr] assms(2)] by simp
    obtain e2 fs2 where c2: "writeAndClose F i (showInt accessStateVersion @ [CHR 0x0A]) fs1 = (e2, fs2)" by fastforce
    obtain e3 fs3 where c3: "syncDirectory F fs2 = (e3, fs3)" by fastforce
    have "quiet path fs fs2" using writeAndClose_quiet [OF c2 \<open>map_of (dir fs1) q = Some i\<close> q] q1 quiet_trans by blast
    moreover have "quiet path fs fs3" using calculation syncDirectory_quiet [OF c3, of path] quiet_trans by blast
    moreover have "fs' \<in> {fs, fs2, fs3}"
      using assms(1) Some c1 Inr c2 c3
      by (auto simp: ensureMarker_def Let_def split: sum.splits ioError.splits if_splits option.splits)
    ultimately show ?thesis by auto
  qed
qed

text \<open>The rename is the one step that changes the state file, to bytes that are already synced.\<close>

lemma osRename_state:
  assumes "osRename F q path fs = (None, fs')" and "okFs path fs" and "q \<noteq> path"
    and "map_of (dir fs) q = Some i" and "inodes fs ! i = \<lparr>bytes = text, synced = True\<rparr>"
  shows "okFs path fs' \<and> stateText path fs' = Some text \<and> set (lossTexts path fs') \<subseteq> insert (Some text) (set (lossTexts path fs))
    \<and> map_of (dir fs') path = Some i"
proof -
  let ?d = "put (del (dir fs) q) path i"
  have fs': "dir fs' = ?d" "disk fs' = disk fs @ [?d]" "inodes fs' = inodes fs"
    using assms(1,4) by (auto simp: osRename_def osCall_def Let_def split: option.splits)
  have ok: "dirOk (length (inodes fs)) (dir fs)" "dir fs \<in> set (disk fs)" using assms(2) by (auto simp: okFs_def)
  have inj: "map_of (dir fs) p = Some i \<Longrightarrow> p = q" for p using ok(1) assms(4) by (auto simp: dirOk_def)
  have "dirOk (length (inodes fs)) ?d" using ok(1) assms(4) inj by (auto simp: dirOk_def)
  moreover have "(\<forall>d\<in>set (disk fs). \<forall>j. map_of d path = Some j \<longrightarrow> synced (inodes fs ! j) \<and> (\<forall>p. map_of (dir fs) p = Some j \<longrightarrow> p = path))"
    "\<forall>d\<in>set (disk fs). dirOk (length (inodes fs)) d"
    using assms(2) by (simp_all add: okFs_def)
  ultimately have "okFs path fs'" using assms(5) inj unfolding okFs_def fs' by (auto split: if_splits)
  moreover have "fileAt path fs' d = fileAt path fs d" for d by (simp add: fileAt_def fs')
  ultimately show ?thesis using assms(5) by (auto simp: stateText_def lossTexts_def fs' fileAt_def)
qed

lemma ensureMarker_present:
  assumes "ensureMarker F (Some q) fs = (None, fs')" and "okFs path fs" and "q \<noteq> path" and "disk fs = [dir fs]"
  shows "map_of (dir fs') q \<noteq> None \<and> disk fs' = [dir fs']"
proof (cases "osReadFile F q fs")
  case (Inr data)
  show ?thesis
  proof (cases "TrimSpace data = showInt accessStateVersion")
    case True
    with assms(1,4) Inr show ?thesis by (auto simp: ensureMarker_def osReadFile_def split: option.splits)
  next
    case False
    with assms Inr show ?thesis
      by (auto simp: ensureMarker_def Let_def split: prod.splits sum.splits option.splits
          dest!: osCreate_handle [OF _ assms(2)] writeAndClose_quiet [OF _ _ assms(3)] syncDirectory_quiet)
  qed
next
  case (Inl e)
  with assms show ?thesis
    by (auto simp: ensureMarker_def Let_def split: ioError.splits prod.splits sum.splits option.splits
        dest!: osCreate_handle [OF _ assms(2)] writeAndClose_quiet [OF _ _ assms(3)] syncDirectory_quiet)
qed

text \<open>A temporary file that was written without an error holds the document, synced.\<close>

lemma tmp_written:
  assumes "okFs path fs" and "osCreate F q fs = (Inr i, fs1)" and "q \<noteq> path" and "writeAndClose F i text fs1 = (None, fs2)"
  shows "quiet path fs fs2 \<and> map_of (dir fs2) q = Some i \<and> inodes fs2 ! i = \<lparr>bytes = text, synced = True\<rparr>"
proof -
  note h = osCreate_handle [OF assms(2,1)] and q1 = osCreate_quiet [OF assms(2,3)]
  then have "map_of (dir fs1) q = Some i" by simp
  note q2 = writeAndClose_quiet [OF assms(4) this assms(3)]
  then show ?thesis using h q1 writeAndClose_done [OF assms(4)] quiet_trans by auto
qed

text \<open>The outcome of \<open>fileSave\<close>, for every fault.\<close>

definition saveOutcome :: "codec \<Rightarrow> string \<Rightarrow> accessDiskState \<Rightarrow> fsys \<Rightarrow> fsys \<Rightarrow> bool" where
  "saveOutcome J path s fs fs' \<longleftrightarrow> okFs path fs' \<and> (\<exists>doc. encState J s = Some doc
     \<and> stateText path fs' = Some (printJson J doc)
     \<and> set (lossTexts path fs') \<subseteq> insert (Some (printJson J doc)) (set (lossTexts path fs)))"

lemma saveOutcome_quiet: "saveOutcome J path s fs g \<Longrightarrow> quiet path g g' \<Longrightarrow> saveOutcome J path s fs g'"
  by (auto simp: saveOutcome_def quiet_def)

lemma fileSave_renamed:
  assumes "okFs path fs" and "quiet path fs g" and "encState J s = Some doc" and "q \<noteq> path"
    and "map_of (dir g) q = Some i" and "inodes g ! i = \<lparr>bytes = printJson J doc, synced = True\<rparr>"
    and "osRename F q path g = (None, g')"
  shows "saveOutcome J path s fs g'"
  using osRename_state [OF assms(7) quiet_ok [OF assms(2,1)] assms(4-6)] assms(1-3) by (auto simp: saveOutcome_def quiet_def)

lemma osRename_fail: "osRename F a b fs = (Some e, fs') \<Longrightarrow> quiet path fs fs'"
  by (auto simp: osRename_def osCall_def Let_def split: option.splits)

definition marked :: "string option \<Rightarrow> fsys \<Rightarrow> bool" where
  "marked m fs \<longleftrightarrow> disk fs = [dir fs] \<and> (case m of None \<Rightarrow> True | Some q \<Rightarrow> map_of (dir fs) q \<noteq> None)"

lemma ensureMarker_step:
  assumes "ensureMarker F m fs = (r, fs')" and "okFs path fs" and "m \<noteq> Some path" and "disk fs = [dir fs]"
  shows "quiet path fs fs' \<and> (r = None \<longrightarrow> marked m fs')"
  using ensureMarker_quiet [OF assms(1-3)] ensureMarker_present [of F _ fs fs' path] assms
  by (cases m) (auto simp: marked_def ensureMarker_def)

lemma fileSave_cases:
  assumes "fileSave J F path m s fs = (r, fs')" and "okFs path fs" and "m \<noteq> Some path"
  shows "(r \<noteq> None \<and> quiet path fs fs') \<or> (saveOutcome J path s fs fs' \<and> (r = None \<longrightarrow> marked m fs'))"
proof -
  let ?q = "path @ ''.tmp''"
  obtain e1 fs1 where c1: "osCall F fs = (e1, fs1)" by fastforce
  note q1 = osCall_quiet [OF c1, of path]
  obtain h fs2 where c2: "osCreate F ?q fs1 = (h, fs2)" by fastforce
  have q2: "quiet path fs fs2" using osCreate_quiet [OF c2, of path] q1 quiet_trans by auto
  have ok1: "okFs path fs1" using q1 assms(2) quiet_ok by blast
  show ?thesis
  proof (cases "e1 = None \<and> encState J s \<noteq> None \<and> (\<exists>i. h = Inr i)")
    case False
    with assms(1) c1 c2 q1 q2 show ?thesis by (auto simp: fileSave_def Let_def split: option.splits sum.splits)
  next
    case True
    then obtain doc i where d: "e1 = None" "encState J s = Some doc" "h = Inr i" by auto
    obtain e3 fs3 where c3: "writeAndClose F i (printJson J doc) fs2 = (e3, fs3)" by fastforce
    have q3: "quiet path fs fs3"
      using writeAndClose_quiet [OF c3, of ?q path] osCreate_handle [OF c2 [unfolded d] ok1] q2 quiet_trans by auto
    obtain e4 fs4 where c4: "osRename F ?q path fs3 = (e4, fs4)" by fastforce
    obtain e5 fs5 where c5: "syncDirectory F fs4 = (e5, fs5)" by fastforce
    note q5 = syncDirectory_quiet [OF c5, of path]
    show ?thesis
    proof (cases "e3 = None \<and> e4 = None")
      case False
      then have "r \<noteq> None" and fs': "fs' = (if e3 = None then fs4 else fs3)"
        using assms(1) by (cases e3; cases e4; simp add: fileSave_def c1 c2 c3 c4 d; blast)+
      moreover have "quiet path fs3 fs4" if "e3 = None"
        using that False c4 by (cases e4) (auto dest: osRename_fail)
      ultimately show ?thesis using q3 quiet_trans by (auto simp: fs')
    next
      case True
      have "saveOutcome J path s fs fs4"
        using fileSave_renamed [OF assms(2) q3 d(2), of ?q i F fs4] tmp_written [OF ok1 c2 [unfolded d]] c3 c4 True by simp
      then have out5: "saveOutcome J path s fs fs5" using q5 saveOutcome_quiet by blast
      then have "okFs path fs5" by (simp add: saveOutcome_def)
      then show ?thesis
        using assms(1,3) True q5 out5 ensureMarker_step [of F m fs5 r fs' path] saveOutcome_quiet [OF out5, of fs']
        by (cases e5) (auto simp: fileSave_def c1 c2 c3 c4 c5 d)
    qed
  qed
qed

section \<open>The contract of a store\<close>

text \<open>
  What the controller relies on: a save that succeeds is what is read afterwards, and a save that
  fails leaves the old state or the new one. \<open>durable_store\<close> adds what may be found after a power loss.
\<close>

fun runSaves :: "('s \<Rightarrow> 'w \<Rightarrow> 'e option \<times> 'w) \<Rightarrow> 's list \<Rightarrow> 'w \<Rightarrow> 'w" where
  "runSaves save [] w = w"
| "runSaves save (s # ss) w = runSaves save ss (snd (save s w))"

locale state_store =
  fixes save :: "'s \<Rightarrow> 'w \<Rightarrow> 'e option \<times> 'w" and good :: "'w \<Rightarrow> bool"
    and doc :: "'s \<Rightarrow> 't option" and view :: "'w \<Rightarrow> 't option"
  assumes save_good: "good w \<Longrightarrow> save s w = (r, w') \<Longrightarrow> good w'"
    and save_done: "good w \<Longrightarrow> save s w = (None, w') \<Longrightarrow> doc s \<noteq> None \<and> view w' = doc s"
    and save_fail: "good w \<Longrightarrow> save s w = (Some e, w') \<Longrightarrow> view w' = view w \<or> (doc s \<noteq> None \<and> view w' = doc s)"
begin

lemma runSaves_good: "good w \<Longrightarrow> good (runSaves save ss w)"
  by (induction ss arbitrary: w) (auto intro: save_good [OF _ surjective_pairing])

lemma save_view: "good w \<Longrightarrow> save s w = (r, w') \<Longrightarrow> view w' = view w \<or> (doc s \<noteq> None \<and> view w' = doc s)"
  using save_done save_fail by (cases r) blast+

lemma runSaves_view:
  "good w \<Longrightarrow> view (runSaves save ss w) = view w \<or> (\<exists>s\<in>set ss. doc s \<noteq> None \<and> view (runSaves save ss w) = doc s)"
proof (induction ss arbitrary: w)
  case (Cons s ss)
  obtain r w' where s: "save s w = (r, w')" by fastforce
  from Cons.IH [OF save_good [OF Cons.prems s]] save_view [OF Cons.prems s] show ?case by (auto simp: s)
qed simp

end

locale durable_store = state_store save good doc view
  for save :: "'s \<Rightarrow> 'w \<Rightarrow> 'e option \<times> 'w" and good :: "'w \<Rightarrow> bool"
    and doc :: "'s \<Rightarrow> 't option" and view :: "'w \<Rightarrow> 't option" +
  fixes found :: "'w \<Rightarrow> 't option list"
  assumes found_done: "good w \<Longrightarrow> save s w = (None, w') \<Longrightarrow> set (found w') = {doc s}"
    and found_any: "good w \<Longrightarrow> save s w = (r, w') \<Longrightarrow> t \<in> set (found w') \<Longrightarrow> t \<in> set (found w) \<or> (doc s \<noteq> None \<and> t = doc s)"
begin

lemma runSaves_found:
  "good w \<Longrightarrow> t \<in> set (found (runSaves save ss w)) \<Longrightarrow> t \<in> set (found w) \<or> (\<exists>s\<in>set ss. doc s \<noteq> None \<and> t = doc s)"
proof (induction ss arbitrary: w)
  case (Cons s ss)
  obtain r w' where s: "save s w = (r, w')" by fastforce
  from Cons.IH [OF save_good [OF Cons.prems(1) s]] Cons.prems(2) found_any [OF Cons.prems(1) s] show ?case by (auto simp: s)
qed simp

lemma no_lost_update:
  assumes "good w" and "save s w = (None, w1)" and "t \<in> set (found (runSaves save ss w1))"
  shows "\<exists>s'\<in>set (s # ss). doc s' \<noteq> None \<and> t = doc s'"
  using runSaves_found [OF save_good [OF assms(1,2)] assms(3)] found_done [OF assms(1,2)] save_done [OF assms(1,2)] by auto

end

definition stateDoc :: "codec \<Rightarrow> accessDiskState \<Rightarrow> string option" where
  "stateDoc J s = map_option (printJson J) (encState J s)"

interpretation fileStore: durable_store "fileSave J F path m" "\<lambda>fs. okFs path fs \<and> m \<noteq> Some path" "stateDoc J" "stateText path" "lossTexts path"
  for J F path m
proof unfold_locales
  fix fs s r fs' e t
  assume ok: "okFs path fs \<and> m \<noteq> Some path"
  have cs: "(r \<noteq> None \<and> quiet path fs fs') \<or> (saveOutcome J path s fs fs' \<and> (r = None \<longrightarrow> marked m fs'))"
    if "fileSave J F path m s fs = (r, fs')" for r
    using fileSave_cases [OF that] ok by blast
  show "okFs path fs' \<and> m \<noteq> Some path" if "fileSave J F path m s fs = (r, fs')"
    using cs [OF that] ok by (auto simp: quiet_def saveOutcome_def)
  show "stateDoc J s \<noteq> None \<and> stateText path fs' = stateDoc J s" if "fileSave J F path m s fs = (None, fs')"
    using cs [OF that] by (auto simp: saveOutcome_def stateDoc_def)
  show "stateText path fs' = stateText path fs \<or> stateDoc J s \<noteq> None \<and> stateText path fs' = stateDoc J s"
    if "fileSave J F path m s fs = (Some e, fs')"
    using cs [OF that] ok by (auto simp: saveOutcome_def stateDoc_def quiet_def)
  show "set (lossTexts path fs') = {stateDoc J s}" if "fileSave J F path m s fs = (None, fs')"
    using cs [OF that] by (auto simp: saveOutcome_def stateDoc_def marked_def lossTexts_def stateText_def)
  show "t \<in> set (lossTexts path fs) \<or> stateDoc J s \<noteq> None \<and> t = stateDoc J s"
    if "fileSave J F path m s fs = (r, fs')" "t \<in> set (lossTexts path fs')"
    using cs [OF that(1)] that(2) ok by (auto simp: saveOutcome_def stateDoc_def quiet_def)
qed

lemma powerLoss_state:
  assumes "okFs path fs" and "powerLoss fs fs'"
  shows "okFs path fs' \<and> stateText path fs' \<in> set (lossTexts path fs)"
proof -
  have d: "dir fs' \<in> set (disk fs)" "disk fs' = [dir fs']" "length (inodes fs') = length (inodes fs)"
    and same: "\<And>i. i < length (inodes fs) \<Longrightarrow> synced (inodes fs ! i) \<Longrightarrow> inodes fs' ! i = inodes fs ! i"
    using assms(2) by (auto simp: powerLoss_def)
  have ok: "dirOk (length (inodes fs)) (dir fs')" using assms(1) d(1) by (auto simp: okFs_def)
  have st: "inodes fs' ! i = inodes fs ! i \<and> synced (inodes fs ! i)" if "map_of (dir fs') path = Some i" for i
    using that same [of i] assms(1) d(1) ok by (auto simp: okFs_def dirOk_def)
  then have "fileAt path fs' (dir fs') = fileAt path fs (dir fs')" by (cases "map_of (dir fs') path") (auto simp: fileAt_def)
  then have "stateText path fs' \<in> set (lossTexts path fs)" using d(1) by (auto simp: stateText_def lossTexts_def)
  moreover have "okFs path fs'" using ok st by (auto simp: okFs_def d dirOk_def)
  ultimately show ?thesis by simp
qed

section \<open>Round trip of the document\<close>

definition timeLaw :: "codec \<Rightarrow> time \<Rightarrow> bool" where
  "timeLaw J t \<longleftrightarrow> (case printTime J t of None \<Rightarrow> True | Some s \<Rightarrow> parseTime J s = Some t)"

lemmas field_simps_json = isField_def lowerByte_def byteval_def

lemma decTime_enc: "timeLaw J t \<Longrightarrow> encTime J t = Some j \<Longrightarrow> decTime J j old = Some t"
  by (auto simp: timeLaw_def encTime_def decTime_def)

lemma decPeer_enc:
  assumes "encPeer J r = Some j" and "timeLaw J (CreatedAt r)" "timeLaw J (LastSeen r)" "timeLaw J (EndpointSeenAt r)"
  shows "decPeer J j = Some r"
proof -
  obtain a b c where t: "encTime J (CreatedAt r) = Some a" "encTime J (LastSeen r) = Some b" "encTime J (EndpointSeenAt r) = Some c"
    using assms(1) by (auto simp: encPeer_def split: option.splits)
  note d = decTime_enc [OF assms(2) t(1)] decTime_enc [OF assms(3) t(2)] decTime_enc [OF assms(4) t(3)]
  have f: "decPeerField J ''key_id'' (JStr s) p = Some (p\<lparr>KeyID := s\<rparr>)"
    "decPeerField J ''auth_generation'' (JStr s) p = Some (p\<lparr>AuthGeneration := s\<rparr>)"
    "decPeerField J ''created_at'' a p = Some (p\<lparr>CreatedAt := CreatedAt r\<rparr>)"
    "decPeerField J ''last_seen'' b p = Some (p\<lparr>LastSeen := LastSeen r\<rparr>)"
    "decPeerField J ''endpoint'' (JStr s) p = Some (p\<lparr>Endpoint := s\<rparr>)"
    "decPeerField J ''endpoint_seen_at'' c p = Some (p\<lparr>EndpointSeenAt := EndpointSeenAt r\<rparr>)" for s p
    by (simp_all add: decPeerField_def field_simps_json d decStr_def)
  show ?thesis
    using assms(1) by (auto simp: encPeer_def t decPeer_def decStruct_def omitEmpty_def f)
qed

lemma decQuota_enc:
  assumes "encQuota J q = Some j" and "timeLaw J (BlockedUntil q)" "timeLaw J (QLastSeen q)" and "int64 (UsedBytes q)"
  shows "decQuota J j = Some q"
proof -
  obtain a b where t: "encTime J (BlockedUntil q) = Some a" "encTime J (QLastSeen q) = Some b"
    using assms(1) by (auto simp: encQuota_def split: option.splits)
  note d = decTime_enc [OF assms(2) t(1)] decTime_enc [OF assms(3) t(2)]
  have f: "decQuotaField J ''usage_date'' (JStr s) p = Some (p\<lparr>UsageDate := s\<rparr>)"
    "decQuotaField J ''used_bytes'' (JInt (UsedBytes q)) p = Some (p\<lparr>UsedBytes := UsedBytes q\<rparr>)"
    "decQuotaField J ''blocked_until'' a p = Some (p\<lparr>BlockedUntil := BlockedUntil q\<rparr>)"
    "decQuotaField J ''last_seen'' b p = Some (p\<lparr>QLastSeen := QLastSeen q\<rparr>)" for s p
    by (simp_all add: decQuotaField_def field_simps_json d decStr_def decInt_def assms(4))
  show ?thesis using assms(1) by (auto simp: encQuota_def t decQuota_def decStruct_def f)
qed

lemma decMembers_those:
  assumes "those (map (\<lambda>(k, v). map_option (\<lambda>j. (k, j)) (f v)) kvs) = Some ms"
    and "\<And>k v j. (k, v) \<in> set kvs \<Longrightarrow> f v = Some j \<Longrightarrow> g j = Some v"
  shows "decMembers (\<lambda>name v m. map_option (\<lambda>x. put m name x) (g v)) ms acc = Some (foldl (\<lambda>m (k, v). put m k v) acc kvs)"
  using assms
proof (induction kvs arbitrary: ms acc)
  case (Cons kv kvs)
  obtain k v where kv: "kv = (k, v)" by fastforce
  from Cons.prems(1) obtain j ms' where j: "f v = Some j" and ms: "ms = (k, j) # ms'"
      and rest: "those (map (\<lambda>(k, v). map_option (\<lambda>j. (k, j)) (f v)) kvs) = Some ms'"
    by (auto simp: kv split: option.splits)
  have "g j = Some v" using Cons.prems(2) [of k v j] j by (simp add: kv)
  with Cons.IH [OF rest, of "put acc k v"] Cons.prems(2) show ?case by (auto simp: ms kv)
qed simp

lemma wfm_puts: "wfm m \<Longrightarrow> wfm (foldl (\<lambda>m (k, v). put m k v) m xs)"
  by (induction xs arbitrary: m) (auto simp: split_beta)

lemma map_of_sorted:
  fixes m :: "(string, 'v) gomap"
  assumes "wfm m"
  shows "wfm (sort_key fst m) \<and> map_of (sort_key fst m) = map_of m"
proof -
  have "distinct (map fst (sort_key fst m))"
    using assms unfolding wfm_def by (metis distinct_map distinct_sort inj_on_def set_sort)
  then show ?thesis using assms by (simp add: wfm_def map_of_inject_set)
qed

lemma decMap_enc:
  assumes "encMap f (Some m) = Some j" and "wfm m" and "\<And>k v j. map_of m k = Some v \<Longrightarrow> f v = Some j \<Longrightarrow> g j = Some v"
  shows "\<exists>m'. decMap g j (Some []) = Some (Some m') \<and> wfm m' \<and> map_of m' = map_of m"
proof -
  let ?kvs = "sort_key fst m"
  obtain ms where ms: "those (map (\<lambda>(k, v). map_option (\<lambda>j. (k, j)) (f v)) ?kvs) = Some ms" and j: "j = JObj ms"
    using assms(1) by (auto simp: encMap_def)
  have "g i = Some v" if "(k, v) \<in> set ?kvs" "f v = Some i" for k v i
    using that assms(2,3) by (auto simp: wfm_map_of)
  from decMembers_those [OF ms this, where acc = "[]"]
  have "decMap g j (Some []) = Some (Some (foldl (\<lambda>m (k, v). put m k v) [] ?kvs))" by (simp add: decMap_def j)
  moreover have "map_of (foldl (\<lambda>m (k, v). put m k v) [] ?kvs) = map_of m"
    using map_of_foldl_put_id [of ?kvs "\<lambda>v. v"] map_of_sorted [OF assms(2)] by (auto simp: fun_eq_iff option.map_ident)
  moreover have "wfm (foldl (\<lambda>m (k, v). put m k v) [] ?kvs)" by (simp add: wfm_puts)
  ultimately show ?thesis by blast
qed

text \<open>A state that can be written: its numbers are 64-bit integers, its maps are not nil and hold every
  key once, and its times are ones the text form gives back.\<close>

definition writable :: "codec \<Rightarrow> accessDiskState \<Rightarrow> bool" where
  "writable J s \<longleftrightarrow> int64 (Version s) \<and> Version s \<noteq> 0 \<and> timeLaw J (IssueWindow s)
     \<and> (case (Peers s, Quotas s, IssueCounts s) of
          (Some ps, Some qs, Some cs) \<Rightarrow>
            wfm ps \<and> wfm qs \<and> wfm cs
            \<and> list_all (\<lambda>(k, r). timeLaw J (CreatedAt r) \<and> timeLaw J (LastSeen r) \<and> timeLaw J (EndpointSeenAt r)) ps
            \<and> list_all (\<lambda>(k, q). timeLaw J (BlockedUntil q) \<and> timeLaw J (QLastSeen q) \<and> int64 (UsedBytes q)) qs
            \<and> list_all (\<lambda>(k, n). int64 n) cs
        | _ \<Rightarrow> False)"

lemma decState_enc:
  assumes "writable J s" and "encState J s = Some doc"
  shows "\<exists>s'. decStruct (decStateField J) doc freshDiskState = Some s' \<and> sameState s s'"
proof -
  obtain ps qs cs where m: "Peers s = Some ps" "Quotas s = Some qs" "IssueCounts s = Some cs" "wfm ps" "wfm qs" "wfm cs"
    using assms(1) by (auto simp: writable_def split: option.splits)
  obtain jp jq w jc where j: "encMap (encPeer J) (Some ps) = Some jp" "encMap (encQuota J) (Some qs) = Some jq"
      "encTime J (IssueWindow s) = Some w" "encMap (\<lambda>n. Some (JInt n)) (Some cs) = Some jc"
    and doc: "doc = JObj [(''version'', JInt (Version s)), (''peers'', jp), (''quotas'', jq), (''issue_window'', w), (''issue_counts'', jc)]"
    using assms(2) by (auto simp: encState_def m split: option.splits)
  have times: "timeLaw J (CreatedAt r) \<and> timeLaw J (LastSeen r) \<and> timeLaw J (EndpointSeenAt r)" if "map_of ps k = Some r" for k r
    using assms(1) map_of_SomeD [OF that] by (auto simp: writable_def m list_all_iff)
  have quota: "timeLaw J (BlockedUntil q) \<and> timeLaw J (QLastSeen q) \<and> int64 (UsedBytes q)" if "map_of qs k = Some q" for k q
    using assms(1) map_of_SomeD [OF that] by (auto simp: writable_def m list_all_iff)
  have count: "int64 n" if "map_of cs k = Some n" for k n
    using assms(1) map_of_SomeD [OF that] by (auto simp: writable_def m list_all_iff)
  obtain ps' where ps': "decMap (decPeer J) jp (Some []) = Some (Some ps')" "wfm ps'" "map_of ps' = map_of ps"
    using decMap_enc [OF j(1) m(4), of "decPeer J"] decPeer_enc times by blast
  obtain qs' where qs': "decMap (decQuota J) jq (Some []) = Some (Some qs')" "wfm qs'" "map_of qs' = map_of qs"
    using decMap_enc [OF j(2) m(5), of "decQuota J"] decQuota_enc quota by blast
  obtain cs' where cs': "decMap (\<lambda>j. decInt j 0) jc (Some []) = Some (Some cs')" "wfm cs'" "map_of cs' = map_of cs"
    using decMap_enc [OF j(4) m(6), of "\<lambda>j. decInt j 0"] count by (fastforce simp: decInt_def [of "JInt _"])
  have v: "decInt (JInt (Version s)) old = Some (Version s)" and w: "decTime J w old' = Some (IssueWindow s)" for old old'
    using assms(1) decTime_enc [OF _ j(3)] by (auto simp: writable_def decInt_def)
  show ?thesis
    by (simp add: doc decStruct_def decStateField_def field_simps_json freshDiskState_def v w ps' qs' cs' sameState_def sameMap_def m)
qed

section \<open>Properties of the store\<close>

definition readsOk :: "faults \<Rightarrow> bool" where
  "readsOk F \<longleftrightarrow> (\<forall>n path. onRead F n path = None)"

lemma fileLoad_text:
  assumes "onRead F (calls fs) path = None" and "stateText path fs = Some text"
  shows "fileLoad J F path m fs = (case unmarshalState J text of Inl e \<Rightarrow> Inl e | Inr s \<Rightarrow> Inr (s, True))"
  using assms by (auto simp: fileLoad_def osReadFile_def stateText_def fileAt_def split: option.splits)

lemma unmarshal_doc:
  assumes "writable J s" and "encState J s = Some doc" and "parseJson J (printJson J doc) = Some doc"
  shows "\<exists>s'. unmarshalState J (printJson J doc) = Inr s' \<and> sameState s s'"
  using decState_enc [OF assms(1,2)] assms(1,3) by (auto simp: unmarshalState_def writable_def sameState_def)

text \<open>
  C22: a save that reports success can be read back: loading then finds the very state that was saved,
  up to the order of its maps, provided the text syntax gives the document back.
\<close>

theorem save_then_load:
  assumes "okFs path fs" and "marker \<noteq> Some path" and "writable J s" and "onRead F (calls fs') path = None"
    and "\<forall>doc. encState J s = Some doc \<longrightarrow> parseJson J (printJson J doc) = Some doc"
    and "fileSave J F path marker s fs = (None, fs')"
  shows "\<exists>s'. fileLoad J F path marker fs' = Inr (s', True) \<and> sameState s s'"
proof -
  obtain doc where doc: "encState J s = Some doc" "stateText path fs' = Some (printJson J doc)"
    using fileStore.save_done [of path fs marker J F s fs'] assms(1,2,6) by (auto simp: stateDoc_def)
  then show ?thesis
    using unmarshal_doc [OF assms(3) doc(1)] assms(4,5) fileLoad_text [OF _ doc(2), of F J marker] by auto
qed

text \<open>
  C10: no acknowledged state is lost and none is torn. After a save that reported success and any number
  of further saves, each of which may fail at any system call or write only a part of its bytes, a
  power loss leaves in the state file the whole document of that save or of a later attempt.
\<close>

theorem power_loss_keeps_state:
  assumes "okFs path fs" and "marker \<noteq> Some path" and "fileSave J F path marker s fs = (None, fs1)"
    and "powerLoss (runSaves (fileSave J F path marker) later fs1) fs2"
  shows "\<exists>s'\<in>set (s # later). \<exists>doc. encState J s' = Some doc \<and> stateText path fs2 = Some (printJson J doc)"
proof -
  let ?g = "runSaves (fileSave J F path marker) later fs1"
  have "okFs path fs1 \<and> marker \<noteq> Some path"
    using fileStore.save_good [of path fs marker J F s None fs1] assms(1-3) by simp
  then have "okFs path ?g" using fileStore.runSaves_good [of path fs1 marker J F later] by simp
  with powerLoss_state [OF _ assms(4)] have "stateText path fs2 \<in> set (lossTexts path ?g)" by simp
  from fileStore.no_lost_update [of path fs marker J F s fs1, OF _ assms(3) this] assms(1,2)
  obtain s' where "s' \<in> set (s # later)" "stateDoc J s' \<noteq> None" "stateText path fs2 = stateDoc J s'" by blast
  then show ?thesis by (intro bexI [of _ s']) (auto simp: stateDoc_def)
qed

text \<open>
  C23: once a save has succeeded, a server that starts without its state file refuses to start with an
  empty state, even when the file was lost in a power loss: the marker is on the disk.
\<close>

theorem missing_state_detected:
  assumes "okFs path fs" and "marker \<noteq> path" and "readsOk F" and "fileSave J F path (Some marker) s fs = (None, fs1)"
    and "powerLoss fs1 fs2"
  shows "fileLoad J F path (Some marker) (fs2\<lparr>dir := del (dir fs2) path\<rparr>)
    = Inl ''access state is missing after initialization''"
proof -
  have "marked (Some marker) fs1" using fileSave_cases [OF assms(4,1)] assms(2) by simp
  then have "map_of (dir fs2) marker \<noteq> None" using assms(5) by (auto simp: marked_def powerLoss_def)
  then show ?thesis using assms(2,3) by (auto simp: fileLoad_def osReadFile_def osStat_def readsOk_def)
qed


text \<open>
  A state file that lacks every field but the issue window is accepted as a state of the current
  version with no peers, quotas and counts: the fields that \<open>load\<close> checks for have been filled in
  before the file was decoded, so their absence is never seen.
\<close>

theorem partial_state_accepted:
  assumes "parseJson J text = Some (JObj [(''issue_window'', JStr t)])" and "parseTime J t = Some w" and "w \<noteq> 0"
    and "stateText path fs = Some text" and "onRead F (calls fs) path = None"
  shows "\<exists>s. fileLoad J F path marker fs = Inr (s, True)
    \<and> loadFound L now s newAccessController = (None, newAccessController\<lparr>issueWindow := w\<rparr>)"
proof -
  have "unmarshalState J text = Inr (freshDiskState\<lparr>IssueWindow := w\<rparr>)"
    using assms(1-3) by (simp add: unmarshalState_def decStruct_def decStateField_def field_simps_json decTime_def freshDiskState_def accessStateVersion_def)
  then show ?thesis
    using fileLoad_text [OF assms(5,4), of J marker] assms(3)
    by (simp add: loadFound_def freshDiskState_def IsZero_def newAccessController_def)
qed

section \<open>Witnesses\<close>

definition exTimes :: codec where
  "exTimes = \<lparr>printJson = (\<lambda>_. ''{}''), parseJson = (\<lambda>_. None),
     printTime = (\<lambda>t. if t = 0 then Some ''0'' else if t = exNow then Some ''now'' else None),
     parseTime = (\<lambda>s. if s = ''0'' then Some 0 else if s = ''now'' then Some exNow else None)\<rparr>"

definition exState :: accessDiskState where
  "exState = diskStateLocked exLib (exController 1000)"

definition exDoc :: json where
  "exDoc = (case encState exTimes exState of Some j \<Rightarrow> j | None \<Rightarrow> JNull)"

text \<open>A syntax with one document.\<close>

definition exCodec :: codec where
  "exCodec = exTimes\<lparr>parseJson := (\<lambda>_. Some exDoc)\<rparr>"

definition noFaults :: faults where
  "noFaults = \<lparr>onCall = (\<lambda>_. None), onRead = (\<lambda>_ _. None)\<rparr>"

text \<open>Two saves take the calls from 0 on; the write of the second is the call 21, and stops after a byte.\<close>

definition dying :: faults where
  "dying = \<lparr>onCall = (\<lambda>n. if n < 21 then None else Some (''killed'', 1)), onRead = (\<lambda>_ _. None)\<rparr>"

definition emptyDisk :: fsys where
  "emptyDisk = \<lparr>dir = [], disk = [[]], inodes = [], calls = 0\<rparr>"

lemma emptyDisk_ok: "okFs path emptyDisk"
  by (simp add: okFs_def emptyDisk_def dirOk_def)

lemma noFaults_reads: "readsOk noFaults"
  by (simp add: readsOk_def noFaults_def)

lemma exState_writable: "writable exCodec exState"
  by code_simp

lemma exState_doc: "encState exCodec exState = Some exDoc"
  by code_simp

lemma exSave_ok: "fst (fileSave exCodec noFaults ''s'' (Some ''m'') exState emptyDisk) = None"
  by code_simp

lemma exSave_dying: "fst (fileSave exCodec dying ''s'' (Some ''m'') exState emptyDisk) = None"
  by code_simp

lemma exSave_disk:
  "fst (fileSave exCodec dying ''s'' (Some ''m'') exState (snd (fileSave exCodec dying ''s'' (Some ''m'') exState emptyDisk))) = Some ''killed''
   \<and> disk (snd (fileSave exCodec dying ''s'' (Some ''m'') exState (snd (fileSave exCodec dying ''s'' (Some ''m'') exState emptyDisk)))) \<noteq> []"
  by code_simp

theorem save_then_load_witness:
  "\<exists>s'. fileLoad exCodec noFaults ''s'' (Some ''m'') (snd (fileSave exCodec noFaults ''s'' (Some ''m'') exState emptyDisk)) = Inr (s', True)
     \<and> sameState exState s'"
proof -
  obtain fs' where fs': "fileSave exCodec noFaults ''s'' (Some ''m'') exState emptyDisk = (None, fs')"
    using prod.collapse [of "fileSave exCodec noFaults ''s'' (Some ''m'') exState emptyDisk"]
    by (metis exSave_ok)
  have "onRead noFaults (calls fs') ''s'' = None" by (simp add: noFaults_def)
  then show ?thesis
    using save_then_load [OF emptyDisk_ok _ exState_writable _ _ fs'] by (simp add: fs' exState_doc) (simp add: exCodec_def exTimes_def)
qed

text \<open>The second of two saves dies while it writes; the power fails afterwards.\<close>

theorem power_loss_keeps_state_witness:
  "let g = snd (fileSave exCodec dying ''s'' (Some ''m'') exState (snd (fileSave exCodec dying ''s'' (Some ''m'') exState emptyDisk)))
   in \<exists>doc. encState exCodec exState = Some doc
     \<and> stateText ''s'' (g\<lparr>dir := last (disk g), disk := [last (disk g)]\<rparr>) = Some (printJson exCodec doc)"
proof -
  obtain fs1 where fs1: "fileSave exCodec dying ''s'' (Some ''m'') exState emptyDisk = (None, fs1)"
    by (metis exSave_dying prod.collapse)
  define g where "g = snd (fileSave exCodec dying ''s'' (Some ''m'') exState fs1)"
  have "runSaves (fileSave exCodec dying ''s'' (Some ''m'')) [exState] fs1 = g" by (simp add: g_def)
  moreover have "disk g \<noteq> []" using exSave_disk by (simp add: g_def fs1)
  then have "powerLoss g (g\<lparr>dir := last (disk g), disk := [last (disk g)]\<rparr>)" by (simp add: powerLoss_def)
  ultimately show ?thesis
    using power_loss_keeps_state [OF emptyDisk_ok _ fs1, of "[exState]"] by (simp add: fs1 Let_def g_def)
qed

theorem missing_state_detected_witness:
  "let fs1 = snd (fileSave exCodec noFaults ''s'' (Some ''m'') exState emptyDisk)
   in fileLoad exCodec noFaults ''s'' (Some ''m'') (fs1\<lparr>dir := del (dir fs1) ''s''\<rparr>) = Inl ''access state is missing after initialization''"
proof -
  obtain fs1 where fs1: "fileSave exCodec noFaults ''s'' (Some ''m'') exState emptyDisk = (None, fs1)"
    by (metis exSave_ok prod.collapse)
  have "disk fs1 = [dir fs1]" using fileSave_cases [OF fs1 emptyDisk_ok] by (simp add: marked_def)
  then have "powerLoss fs1 fs1" by (simp add: powerLoss_def)
  then show ?thesis
    using missing_state_detected [OF emptyDisk_ok _ noFaults_reads fs1, of fs1] by (simp add: fs1 Let_def)
qed


theorem partial_state_accepted_witness:
  "\<exists>s. fileLoad (exTimes\<lparr>parseJson := (\<lambda>_. Some (JObj [(''issue_window'', JStr ''now'')]))\<rparr>) noFaults ''s'' None
       \<lparr>dir = [(''s'', 0)], disk = [[(''s'', 0)]], inodes = [\<lparr>bytes = ''{}'', synced = True\<rparr>], calls = 0\<rparr> = Inr (s, True)
     \<and> loadFound exLib exNow s newAccessController = (None, newAccessController\<lparr>issueWindow := exNow\<rparr>)"
  by (rule partial_state_accepted [of _ "''{}''" "''now''"])
    (simp_all add: exTimes_def exNow_def stateText_def fileAt_def noFaults_def)

end
