(* ===== verification/Config.thy ===== *)
theory Config
  imports AccessStore
begin

text \<open>
  The environment variables of \<open>internal/flags.go\<close> and the paths built from them, and the private key
  file of \<open>internal/wireguard.go\<close>.

  An environment is a function from names to values, empty where a variable is not set, as
  \<open>os.Getenv\<close> reads it. A panic of \<open>Must\<close> is \<open>None\<close>.
\<close>

type_synonym environ = "string \<Rightarrow> string"

section \<open>Paths\<close>

text \<open>\<open>filepath.Clean\<close>: the elements that are kept, the last one first.\<close>

fun cleanParts :: "bool \<Rightarrow> string list \<Rightarrow> string list \<Rightarrow> string list" where
  "cleanParts rooted acc [] = acc"
| "cleanParts rooted acc (p # ps) =
     (if p = [] \<or> p = ''.'' then cleanParts rooted acc ps
      else if p = ''..'' then
        (case acc of
           [] \<Rightarrow> cleanParts rooted (if rooted then [] else [p]) ps
         | q # qs \<Rightarrow> cleanParts rooted (if q = ''..'' then p # acc else qs) ps)
      else cleanParts rooted (p # acc) ps)"

fun joinSlash :: "string list \<Rightarrow> string" where
  "joinSlash [] = []"
| "joinSlash [p] = p"
| "joinSlash (p # ps) = p @ ''/'' @ joinSlash ps"

definition Clean :: "string \<Rightarrow> string" where
  "Clean path =
     (let rooted = path \<noteq> [] \<and> hd path = CHR ''/'';
          body = joinSlash (rev (cleanParts rooted [] (Split path CHR ''/'')))
      in if rooted then CHR ''/'' # body else if body = [] then ''.'' else body)"

definition JoinPath :: "string list \<Rightarrow> string" where
  "JoinPath elems = (let es = dropWhile (\<lambda>e. e = []) elems in if es = [] then [] else Clean (joinSlash es))"

definition Base :: "string \<Rightarrow> string" where
  "Base path =
     (let p = rev (dropWhile (\<lambda>c. c = CHR ''/'') (rev path))
      in if path = [] then ''.'' else if p = [] then ''/'' else last (Split p CHR ''/''))"

section \<open>Flags\<close>

definition GetListenPort :: "environ \<Rightarrow> int option" where
  "GetListenPort env = (if env ''TUNWG_PORT'' \<noteq> [] then ParseInt (env ''TUNWG_PORT'') else Some 0)"

definition Keystorage :: "environ \<Rightarrow> string option \<Rightarrow> string option" where
  "Keystorage env userConfigDir =
     (if env ''TUNWG_PATH'' = [] then map_option (\<lambda>d. JoinPath [d, ''tunwg'']) userConfigDir else Some (env ''TUNWG_PATH''))"

definition getKeyName :: "environ \<Rightarrow> string option \<Rightarrow> string option" where
  "getKeyName env executable = (if env ''TUNWG_KEY'' = [] then map_option Base executable else Some (env ''TUNWG_KEY''))"

definition ApiDomain :: "environ \<Rightarrow> string" where
  "ApiDomain env = (if env ''TUNWG_API'' \<noteq> [] then env ''TUNWG_API'' else ''l.tunwg.com'')"

definition AuthKey :: "environ \<Rightarrow> string" where "AuthKey env = env ''TUNWG_AUTH''"
definition AuthSecret :: "environ \<Rightarrow> string" where "AuthSecret env = env ''TUNWG_AUTH_SECRET''"

definition QuotaBytes :: "environ \<Rightarrow> int option" where
  "QuotaBytes env = (if env ''TUNWG_QUOTA_BYTES'' \<noteq> [] then ParseInt (env ''TUNWG_QUOTA_BYTES'') else Some 0)"

definition ServerIp :: "environ \<Rightarrow> string" where "ServerIp env = env ''TUNWG_IP''"

definition SSLCertificateEmail :: "environ \<Rightarrow> string" where
  "SSLCertificateEmail env = (if env ''TUNWG_SSL_EMAIL'' \<noteq> [] then env ''TUNWG_SSL_EMAIL'' else ''certs@tunwg.com'')"

definition UseRelay :: "environ \<Rightarrow> bool" where "UseRelay env \<longleftrightarrow> env ''TUNWG_RELAY'' \<noteq> []"

definition TestOnlyRunLocalhost :: "environ \<Rightarrow> bool" where
  "TestOnlyRunLocalhost env \<longleftrightarrow> env ''TUNWG_TEST_LOCALHOST'' = ''true''"

text \<open>The files of the access state; \<open>store\<close> is the result of \<open>Keystorage\<close>.\<close>

definition accessStatePath :: "string \<Rightarrow> string" where
  "accessStatePath store = JoinPath [store, ''server'', ''access_state.json'']"

definition accessStateMarkerPath :: "string \<Rightarrow> string" where
  "accessStateMarkerPath store = JoinPath [store, ''server'', ''access_state.initialized'']"

definition revocationStatePath :: "string \<Rightarrow> string" where
  "revocationStatePath store = JoinPath [store, ''server'', ''revoked_keys'']"

section \<open>The private key\<close>

text \<open>\<open>os.WriteFile\<close>: create, write, close; nothing is synced.\<close>

definition osWriteFile :: "faults \<Rightarrow> string \<Rightarrow> string \<Rightarrow> fsys \<Rightarrow> string option \<times> fsys" where
  "osWriteFile F path data fs =
     (case osCreate F path fs of
        (Inl e, fs1) \<Rightarrow> (Some e, fs1)
      | (Inr i, fs1) \<Rightarrow>
          (case osWrite F i data fs1 of (err, fs2) \<Rightarrow>
           (case osCall F fs2 of (closeErr, fs3) \<Rightarrow> (if err = None then closeErr else err, fs3))))"

text \<open>\<open>fresh\<close> is the result of \<open>wgtypes.GeneratePrivateKey\<close>.\<close>

definition generateKey ::
  "faults \<Rightarrow> string + wgKey \<Rightarrow> string \<Rightarrow> string \<Rightarrow> fsys \<Rightarrow> (string + wgKey) \<times> fsys" where
  "generateKey F fresh store name fs =
     (let path = JoinPath [store, ''keys'', name]
      in case osReadFile F path fs of
           Inr data \<Rightarrow> (case NewKey data of None \<Rightarrow> Inl ''incorrect key size'' | Some k \<Rightarrow> Inr k, fs)
         | Inl (IOError e) \<Rightarrow> (Inl e, fs)
         | Inl NotExist \<Rightarrow>
             (case fresh of
                Inl e \<Rightarrow> (Inl e, fs)
              | Inr privkey \<Rightarrow>
                  (case osCall F fs of
                     (Some e, fs1) \<Rightarrow> (Inl e, fs1)
                   | (None, fs1) \<Rightarrow>
                       (case osWriteFile F path privkey fs1 of
                          (Some e, fs2) \<Rightarrow> (Inl e, fs2)
                        | (None, fs2) \<Rightarrow> (Inr privkey, fs2)))))"

text \<open>
  The identity of an instance is stable: once a key has been made for a name, every later start that
  can read the file obtains the same key, whatever the generator would give.
\<close>

theorem key_is_stable:
  assumes "generateKey F fresh store name fs = (Inr k, fs')" and "length k = 32" and "readsOk F"
  shows "generateKey F fresh' store name fs' = (Inr k, fs')"
proof -
  let ?p = "JoinPath [store, ''keys'', name]"
  have r: "\<forall>n path. onRead F n path = None" using assms(3) by (simp add: readsOk_def)
  show ?thesis
  proof (cases "map_of (dir fs) ?p")
    case (Some i)
    then show ?thesis using assms(1) r by (auto simp: generateKey_def Let_def osReadFile_def split: option.splits)
  next
    case None
    then have "fs' = snd (osWriteFile F ?p k (snd (osCall F fs)))" "fst (osWriteFile F ?p k (snd (osCall F fs))) = None"
      using assms(1) r by (auto simp: generateKey_def Let_def osReadFile_def split: sum.splits prod.splits option.splits)
    then have "map_of (dir fs') ?p = Some (length (inodes fs))" "inodes fs' ! length (inodes fs) = \<lparr>bytes = k, synced = False\<rparr>"
      using None by (auto simp: osWriteFile_def osCreate_def osCall_def osWrite_def Let_def nth_append split: option.splits if_splits)
    then show ?thesis using assms(2) r by (simp add: generateKey_def Let_def osReadFile_def NewKey_def)
  qed
qed

theorem key_is_stable_witness:
  "let fs' = snd (generateKey noFaults (Inr (replicate 32 (CHR ''k''))) ''/data'' ''a'' emptyDisk)
   in generateKey noFaults (Inr (replicate 32 (CHR ''z''))) ''/data'' ''a'' fs' = (Inr (replicate 32 (CHR ''k'')), fs')"
proof -
  let ?g = "generateKey noFaults (Inr (replicate 32 (CHR ''k''))) ''/data'' ''a'' emptyDisk"
  have "fst ?g = Inr (replicate 32 (CHR ''k''))" by code_simp
  then have "?g = (Inr (replicate 32 (CHR ''k'')), snd ?g)" by (metis prod.collapse)
  from key_is_stable [OF this _ noFaults_reads] show ?thesis by (simp add: Let_def)
qed

text \<open>
  The key file is written in place: a write that stops early leaves a file that no later start accepts,
  and that no later start replaces.
\<close>

theorem torn_key_stays:
  assumes "map_of (dir fs) (JoinPath [store, ''keys'', name]) = None" and "readsOk F" and "readsOk F'" and "n < length k" and "length k = 32"
    and "onCall F (calls fs) = None" and "onCall F (Suc (calls fs)) = None" and "onCall F (Suc (Suc (calls fs))) = Some (e, n)"
  shows "\<exists>fs'. generateKey F (Inr k) store name fs = (Inl e, fs')
    \<and> generateKey F' fresh store name fs' = (Inl ''incorrect key size'', fs')"
  using assms
  by (simp add: generateKey_def Let_def osReadFile_def osWriteFile_def osCreate_def osCall_def osWrite_def readsOk_def NewKey_def nth_append)

end
