(* ===== verification/Api.thy ===== *)
theory Api
  imports AccessStore
begin

text \<open>
  The HTTP interface of the server (\<open>apiMux\<close> and \<open>clientIP\<close> of \<open>tunwg/tunwgs.go\<close>) and the request the
  client sends it (the messages of \<open>internal/api.go\<close>).

  A handler takes the request, the access controller and the world, and returns the response with
  both. The body of a request is the list of its bytes, or \<open>None\<close> when reading it fails. Log lines
  are left out.
\<close>

section \<open>Base64, as JSON carries byte slices\<close>

definition b64Char :: "nat \<Rightarrow> char" where
  "b64Char n = (''ABCDEFGHIJKLMNOPQRSTUVWXYZabcdefghijklmnopqrstuvwxyz0123456789+/'' ! n)"

definition b64Val :: "char \<Rightarrow> nat option" where
  "b64Val c =
     (let v = byteval c
      in if 65 \<le> v \<and> v \<le> 90 then Some (v - 65) else if 97 \<le> v \<and> v \<le> 122 then Some (v - 71)
         else if 48 \<le> v \<and> v \<le> 57 then Some (v + 4) else if v = 43 then Some 62 else if v = 47 then Some 63 else None)"

fun b64Encode :: "string \<Rightarrow> string" where
  "b64Encode [] = []"
| "b64Encode [a] = (let n = byteval a * 16 in [b64Char (n div 64), b64Char (n mod 64), CHR ''='', CHR ''=''])"
| "b64Encode [a, b] =
     (let n = (byteval a * 256 + byteval b) * 4
      in [b64Char (n div 4096), b64Char (n div 64 mod 64), b64Char (n mod 64), CHR ''=''])"
| "b64Encode (a # b # c # s) =
     (let n = byteval a * 65536 + byteval b * 256 + byteval c
      in [b64Char (n div 262144), b64Char (n div 4096 mod 64), b64Char (n div 64 mod 64), b64Char (n mod 64)] @ b64Encode s)"

text \<open>Padding may only end the text; the bits it leaves over are not looked at.\<close>

fun b64Quads :: "string \<Rightarrow> string option" where
  "b64Quads [] = Some []"
| "b64Quads (a # b # c # d # s) =
     (case (b64Val a, b64Val b) of
        (Some x, Some y) \<Rightarrow>
          if c = CHR ''='' \<and> d = CHR ''='' then (if s = [] then Some [char_of ((x * 64 + y) div 16)] else None)
          else (case b64Val c of
                  None \<Rightarrow> None
                | Some z \<Rightarrow>
                    if d = CHR ''=''
                    then (if s = [] then let n = ((x * 64 + y) * 64 + z) div 4 in Some [char_of (n div 256), char_of (n mod 256)] else None)
                    else (case b64Val d of
                            None \<Rightarrow> None
                          | Some u \<Rightarrow>
                              let n = ((x * 64 + y) * 64 + z) * 64 + u
                              in map_option (\<lambda>r. [char_of (n div 65536), char_of (n div 256 mod 256), char_of (n mod 256)] @ r) (b64Quads s)))
      | _ \<Rightarrow> None)"
| "b64Quads _ = None"

text \<open>\<open>base64.StdEncoding.Decode\<close> skips line breaks.\<close>

definition b64Decode :: "string \<Rightarrow> string option" where
  "b64Decode s = b64Quads (filter (\<lambda>c. c \<noteq> CHR 0x0A \<and> c \<noteq> CHR 0x0D) s)"

section \<open>Messages\<close>

definition decByte :: "json \<Rightarrow> char option" where
  "decByte j = (case j of JNull \<Rightarrow> Some (char_of (0::nat)) | JInt i \<Rightarrow> (if 0 \<le> i \<and> i < 256 then Some (char_of (nat i)) else None) | _ \<Rightarrow> None)"

text \<open>A byte slice: \<open>null\<close> is the nil slice, a string is Base64, an array is one of numbers.\<close>

definition decBytes :: "json \<Rightarrow> string option" where
  "decBytes j = (case j of JNull \<Rightarrow> Some [] | JStr s \<Rightarrow> b64Decode s | JArr js \<Rightarrow> those (map decByte js) | _ \<Rightarrow> None)"

definition decAddPeerReq :: "json \<Rightarrow> string option" where
  "decAddPeerReq j = decStruct (\<lambda>name v key. if isField name ''key'' then decBytes v else Some key) j []"

record addPeerResp =
  respKey :: string
  respEndpoint :: string

definition encAddPeerReq :: "string \<Rightarrow> json" where
  "encAddPeerReq key = JObj [(''Key'', JStr (b64Encode key))]"

definition encAddPeerResp :: "addPeerResp \<Rightarrow> json" where
  "encAddPeerResp r = JObj [(''Key'', JStr (b64Encode (respKey r))), (''Endpoint'', JStr (respEndpoint r))]"

definition decAddPeerResp :: "json \<Rightarrow> addPeerResp option" where
  "decAddPeerResp j =
     decStruct
       (\<lambda>name v r.
          if isField name ''key'' then map_option (\<lambda>k. r\<lparr>respKey := k\<rparr>) (decBytes v)
          else if isField name ''endpoint'' then map_option (\<lambda>e. r\<lparr>respEndpoint := e\<rparr>) (decStr v (respEndpoint r))
          else Some r)
       j \<lparr>respKey = [], respEndpoint = []\<rparr>"

section \<open>Handlers\<close>

record httpRequest =
  Method :: string
  urlPath :: string
  RemoteAddr :: string
  headerGet :: "string \<Rightarrow> string"
  reqBody :: "string option"

record httpResponse =
  statusCode :: nat
  respHeader :: "(string, string) gomap"
  respBody :: string

definition reply :: "nat \<Rightarrow> httpResponse" where
  "reply code = \<lparr>statusCode = code, respHeader = [], respBody = []\<rparr>"

definition clientIP :: "httpRequest \<Rightarrow> string" where
  "clientIP r = (case SplitHostPort (RemoteAddr r) of None \<Rightarrow> RemoteAddr r | Some (host, _) \<Rightarrow> host)"

text \<open>Go's integer division rounds towards zero.\<close>

definition quotient :: "int \<Rightarrow> int \<Rightarrow> int" where
  "quotient a b = sgn a * sgn b * (\<bar>a\<bar> div \<bar>b\<bar>)"

definition issueError :: "accessError \<Rightarrow> httpResponse" where
  "issueError e =
     (case e of
        issueRateLimitError retryAfter \<Rightarrow>
          (reply 429)\<lparr>respHeader := [(''Retry-After'', showInt (quotient (wrap64 (retryAfter + second - 1)) second))]\<rparr>
      | errAccessStateUnavailable _ \<Rightarrow> reply 503
      | _ \<Rightarrow> reply 500)"

definition handleIssue ::
  "lib \<Rightarrow> codec \<Rightarrow> 'w deps \<Rightarrow> httpRequest \<Rightarrow> accessController \<Rightarrow> 'w \<Rightarrow> httpResponse \<times> accessController \<times> 'w" where
  "handleIssue L J D r c w =
     (if authSecret D w = [] then (reply 404, c, w)
      else if Method r \<noteq> ''POST'' then (reply 405, c, w)
      else
        case issueAuthKey L D c w (clientIP r) defaultIssueLimitPerIPPerDay (24 * hour) of
          (Inl e, c', w') \<Rightarrow> (issueError e, c', w')
        | (Inr key, c', w') \<Rightarrow>
            (\<lparr>statusCode = 200, respHeader = [(''Content-Type'', ''application/json''), (''Cache-Control'', ''no-store'')],
              respBody = printJson J (JObj [(''key'', JStr key)]) @ [CHR 0x0A]\<rparr>, c', w'))"

definition maxAddBody :: nat where "maxAddBody = 4096"

definition addError :: "accessError \<Rightarrow> nat" where
  "addError e =
     (case e of
        errAccessUnauthorized \<Rightarrow> 403
      | errRevocationsUnavailable _ \<Rightarrow> 503
      | errAccessStateUnavailable _ \<Rightarrow> 503
      | errPeerBlocked \<Rightarrow> 429
      | errPeerLimitReached \<Rightarrow> 429
      | _ \<Rightarrow> 500)"

text \<open>The peer key in the body of a request, if it is one the handler accepts.\<close>

definition requestKey :: "codec \<Rightarrow> httpRequest \<Rightarrow> wgKey option" where
  "requestKey J r =
     (case reqBody r of
        None \<Rightarrow> None
      | Some body \<Rightarrow>
          if length body > maxAddBody then None
          else Option.bind (Option.bind (parseJson J body) decAddPeerReq) NewKey)"

text \<open>\<open>srvKey\<close>, \<open>srvIp\<close> and \<open>srvPort\<close> are \<open>GetPublicKey\<close>, \<open>ServerIp\<close> and \<open>GetListenPort\<close>.\<close>

definition handleAdd ::
  "lib \<Rightarrow> codec \<Rightarrow> 'w deps \<Rightarrow> wgKey \<Rightarrow> string \<Rightarrow> int \<Rightarrow> httpRequest \<Rightarrow> accessController \<Rightarrow> 'w
   \<Rightarrow> httpResponse \<times> accessController \<times> 'w" where
  "handleAdd L J D srvKey srvIp srvPort r c w =
     (if Method r \<noteq> ''POST'' then (reply 405, c, w)
      else
        case requestKey J r of
          None \<Rightarrow> (reply 400, c, w)
        | Some clientKey \<Rightarrow>
            (case registerPeer L D c w clientKey (headerGet r ''X-Authorization'') of
               ((credential, Some e), c', w') \<Rightarrow> (reply (addError e), c', w')
             | ((credential, None), c', w') \<Rightarrow>
                 (\<lparr>statusCode = 200, respHeader = [(''Content-Type'', ''application/json'')],
                   respBody = printJson J (encAddPeerResp \<lparr>respKey = srvKey, respEndpoint = JoinHostPort srvIp (showInt srvPort)\<rparr>)\<rparr>,
                  c', w')))"

text \<open>\<open>/relay\<close> up to the call of \<open>RelayServer\<close>: the response, and the port packets are sent to when the
  relay starts. \<open>hijacker\<close> says whether the connection can be taken over, \<open>hijackErr\<close> and \<open>listenErr\<close>
  are the errors of taking it over and of opening the socket.\<close>

definition handleRelay ::
  "bool \<Rightarrow> string option \<Rightarrow> string option \<Rightarrow> int \<Rightarrow> httpRequest \<Rightarrow> httpResponse \<times> int option" where
  "handleRelay hijacker hijackErr listenErr srvPort r =
     (if headerGet r ''Upgrade'' \<noteq> ''udp-relay'' then (reply 400, None)
      else if \<not> hijacker then (reply 400, None)
      else
        let switch = (reply 101)\<lparr>respHeader := [(''Connection'', ''Upgrade''), (''Upgrade'', ''udp-relay'')]\<rparr>
        in if hijackErr \<noteq> None \<or> listenErr \<noteq> None then (switch, None) else (switch, Some srvPort))"

text \<open>The routes of \<open>apiMux\<close>, for a path in clean form.\<close>

definition apiMux ::
  "lib \<Rightarrow> codec \<Rightarrow> 'w deps \<Rightarrow> wgKey \<Rightarrow> string \<Rightarrow> int \<Rightarrow> bool \<Rightarrow> httpRequest \<Rightarrow> accessController \<Rightarrow> 'w
   \<Rightarrow> httpResponse \<times> accessController \<times> 'w" where
  "apiMux L J D srvKey srvIp srvPort hijacker r c w =
     (if urlPath r = ''/issue'' then handleIssue L J D r c w
      else if urlPath r = ''/add'' then handleAdd L J D srvKey srvIp srvPort r c w
      else if urlPath r = ''/relay'' then (fst (handleRelay hijacker None None srvPort r), c, w)
      else (reply 404, c, w))"

section \<open>Messages come back as they were sent\<close>

lemma b64Val_Char:
  assumes "n < 64"
  shows "b64Val (b64Char n) = Some n" and "b64Char n \<noteq> CHR ''=''" and "b64Char n \<noteq> CHR 0x0A" and "b64Char n \<noteq> CHR 0x0D"
proof -
  let ?a = "''ABCDEFGHIJKLMNOPQRSTUVWXYZabcdefghijklmnopqrstuvwxyz0123456789+/''"
  have "map b64Val ?a = map Some [0..<64]" by (simp add: b64Val_def byteval_def upt_rec)
  from arg_cong [OF this, of "\<lambda>xs. xs ! n"] show v: "b64Val (b64Char n) = Some n"
    using assms by (simp add: b64Char_def del: upt.simps list.map)
  have "b64Val (CHR ''='') = None" "b64Val (CHR 0x0A) = None" "b64Val (CHR 0x0D) = None"
    by (simp_all add: b64Val_def byteval_def)
  with v show "b64Char n \<noteq> CHR ''=''" and "b64Char n \<noteq> CHR 0x0A" and "b64Char n \<noteq> CHR 0x0D" by force+
qed

lemma b64_digits:
  fixes n :: nat
  shows "((n div 262144 * 64 + n div 4096 mod 64) * 64 + n div 64 mod 64) * 64 + n mod 64 = n"
    and "(n div 4096 * 64 + n div 64 mod 64) * 64 + n mod 64 = n" and "n div 64 * 64 + n mod 64 = n"
proof -
  have a: "n div 64 div 64 = n div 4096" and b: "n div 4096 div 64 = n div 262144"
    using div_mult2_eq [of n 64 64] div_mult2_eq [of n 4096 64] by simp_all
  show "n div 64 * 64 + n mod 64 = n" by simp
  moreover have "n div 4096 * 64 + n div 64 mod 64 = n div 64" using div_mult_mod_eq [of "n div 64" 64] a by simp
  ultimately show "(n div 4096 * 64 + n div 64 mod 64) * 64 + n mod 64 = n" by simp
  moreover have "n div 262144 * 64 + n div 4096 mod 64 = n div 4096" using div_mult_mod_eq [of "n div 4096" 64] b by simp
  ultimately show "((n div 262144 * 64 + n div 4096 mod 64) * 64 + n div 64 mod 64) * 64 + n mod 64 = n" by simp
qed

lemma b64_bounds:
  fixes a b c :: nat
  assumes "a < 256" "b < 256" "c < 256"
  shows "a * 16 div 64 < 64" and "(a * 256 + b) * 4 div 4096 < 64" and "(a * 65536 + b * 256 + c) div 262144 < 64"
  using assms by (simp_all add: div_less_iff_less_mult)

lemmas byte_bounds = b64_bounds [OF byteval_less byteval_less byteval_less]

lemma char_of_low_byte: "m mod 256 = byteval b \<Longrightarrow> char_of m = b"
  using char_of_mod_256 [of m] by (simp add: byteval_def)

text \<open>Both facts about the encoding at once: it decodes, and it has no line break.\<close>

lemma b64_Encode:
  "b64Quads (b64Encode s) = Some s \<and> filter (\<lambda>c. c \<noteq> CHR 0x0A \<and> c \<noteq> CHR 0x0D) (b64Encode s) = b64Encode s"
proof (induction s rule: b64Encode.induct)
  case (2 a)
  define n where "n = byteval a * 16"
  have "n div 64 < 64" "char_of (n div 16) = a" using byte_bounds(1) [of a] by (simp_all add: n_def byteval_def)
  then show ?case using b64_digits(3) [of n] unfolding b64Encode.simps Let_def n_def [symmetric] by (simp add: b64Val_Char)
next
  case (3 a b)
  define n where "n = (byteval a * 256 + byteval b) * 4"
  have "n div 4096 < 64" "n div 4 = byteval a * 256 + byteval b" using byte_bounds(2) [of a b] by (simp_all add: n_def)
  moreover have "(byteval a * 256 + byteval b) div 256 = byteval a" "(byteval a * 256 + byteval b) mod 256 = byteval b" by simp_all
  moreover have "char_of (of_char a * 256 + of_char b :: nat) = b" using char_of_low_byte [of "of_char a * 256 + of_char b" b] by (simp add: byteval_def)
  ultimately show ?case
    using b64_digits(2) [of n] unfolding b64Encode.simps Let_def n_def [symmetric] by (simp add: b64Val_Char byteval_def)
next
  case (4 a b c s)
  define n where "n = byteval a * 65536 + byteval b * 256 + byteval c"
  define h where "h = 256 * byteval a + byteval b"
  have n: "n = 256 * h + byteval c" by (simp add: n_def h_def)
  have "n div 256 = h" "n mod 256 = byteval c" by (simp_all add: n)
  then have q: "n div 256 = 256 * byteval a + byteval b" "n mod 256 = byteval c" by (simp_all add: h_def)
  have "n div 65536 = n div 256 div 256" using div_mult2_eq [of n 256 256] by simp
  then have "n div 65536 = byteval a" "n div 256 mod 256 = byteval b" "n mod 256 = byteval c" using q by simp_all
  moreover have "char_of (n div 256) = b" "char_of n = c" using calculation by (simp_all only: char_of_low_byte)
  moreover have "n div 262144 < 64" using byte_bounds(3) [of a b c] by (simp add: n_def)
  ultimately show ?case
    using 4 b64_digits(1) [of n] unfolding b64Encode.simps Let_def n_def [symmetric] by (simp add: b64Val_Char byteval_def)
qed simp

lemma b64_roundtrip: "b64Decode (b64Encode s) = Some s"
  by (simp add: b64Decode_def b64_Encode)

lemma message_fields: "isField ''Key'' ''key''" "\<not> isField ''Endpoint'' ''key''" "isField ''Endpoint'' ''endpoint''"
  by code_simp+

text \<open>
  The two messages of a registration are understood as they were meant: the server reads from the
  client's request the key the client sent, and the client reads from the response the server's key
  and endpoint.
\<close>

theorem messages_roundtrip:
  assumes "parseJson J (printJson J (encAddPeerReq key)) = Some (encAddPeerReq key)"
    and "parseJson J (printJson J (encAddPeerResp resp)) = Some (encAddPeerResp resp)" and "length key = 32"
    and "reqBody r = Some (printJson J (encAddPeerReq key))" and "length (printJson J (encAddPeerReq key)) \<le> maxAddBody"
  shows "requestKey J r = Some key
    \<and> Option.bind (parseJson J (printJson J (encAddPeerResp resp))) decAddPeerResp = Some resp"
  using assms
  by (simp add: requestKey_def encAddPeerReq_def decAddPeerReq_def encAddPeerResp_def decAddPeerResp_def decStruct_def
      message_fields decBytes_def decStr_def b64_roundtrip NewKey_def)

section \<open>What the answers say\<close>

text \<open>
  C24: \<open>/add\<close> answers 200 exactly when the peer was registered with the credential of the request; a
  request that is not a well-formed POST is refused before anything happens; and the status of every
  other refusal is the class of its error, with no change to any record unless the device failed.
\<close>

theorem add_statuses:
  assumes "handleAdd L J D srvKey srvIp srvPort r c w = (resp, c', w')"
  shows "(statusCode resp = 200 \<longleftrightarrow> Method r = ''POST'' \<and>
        (\<exists>key cr. requestKey J r = Some key \<and> registerPeer L D c w key (headerGet r ''X-Authorization'') = ((cr, None), c', w')))
    \<and> (Method r \<noteq> ''POST'' \<or> requestKey J r = None \<longleftrightarrow> statusCode resp = 405 \<or> statusCode resp = 400)
    \<and> (statusCode resp = 405 \<or> statusCode resp = 400 \<longrightarrow> c' = c \<and> w' = w)
    \<and> (statusCode resp \<in> {403, 429, 503} \<longrightarrow> map_of (peers c') = map_of (peers c) \<and> map_of (quotas c') = map_of (quotas c))"
proof (cases "Method r = ''POST'' \<and> requestKey J r \<noteq> None")
  case False
  then have "resp = reply (if Method r \<noteq> ''POST'' then 405 else 400)" "c' = c" "w' = w"
    using assms by (auto simp: handleAdd_def split: if_splits)
  with False show ?thesis by (auto simp: reply_def)
next
  case True
  then obtain key where key: "requestKey J r = Some key" by blast
  obtain cr res c1 w1 where reg: "registerPeer L D c w key (headerGet r ''X-Authorization'') = ((cr, res), c1, w1)"
    by (metis prod.collapse)
  then have out: "c' = c1" "w' = w1" "statusCode resp = (case res of None \<Rightarrow> 200 | Some e \<Rightarrow> addError e)"
    using assms True key by (auto simp: handleAdd_def reply_def split: option.splits)
  have "addError e \<notin> {200, 400, 405}" for e by (simp add: addError_def split: accessError.split)
  moreover have "map_of (peers c1) = map_of (peers c) \<and> map_of (quotas c1) = map_of (quotas c)" if "res = Some e" "addError e \<noteq> 500" for e
  proof -
    have "\<not> uncleanAdd e" using that(2) by (cases e) (auto simp: uncleanAdd_def addError_def)
    with reg that(1) show ?thesis by (cases rule: registerPeer_outcome) auto
  qed
  ultimately show ?thesis using True key reg out by (cases res) auto
qed

lemma quotient_ceil:
  assumes "second \<le> d" and "d \<le> 24 * hour"
  defines "n \<equiv> quotient (wrap64 (d + second - 1)) second"
  shows "1 \<le> n" and "n \<le> 86400" and "d \<le> n * second"
proof -
  have w: "wrap64 (d + second - 1) = d + second - 1"
    using assms by (intro wrap64_id) (simp add: int64_def MinInt64_def MaxInt64_def)
  then have n: "n = (d + second - 1) div second" using assms by (simp add: n_def quotient_def)
  show "1 \<le> n" "n \<le> 86400"
    using assms(1,2) zdiv_mono1 [of second "d + second - 1" second] zdiv_mono1 [of "d + second - 1" "24 * hour + second - 1" second]
    by (simp_all add: n)
  show "d \<le> n * second" using assms(1) minus_mod_eq_div_mult [of "d + second - 1" second] pos_mod_bound [of second "d + second - 1"]
    by (simp add: n)
qed

text \<open>
  C25: \<open>/issue\<close> does not exist on a server without a secret, and a refusal for the rate carries a
  \<open>Retry-After\<close> of a whole number of seconds, at least one and at most a day, after which the window
  of the controller has run out: rolled over at that time, it counts no key for the client.
\<close>

theorem issue_answers:
  assumes "handleIssue L J D r c w = (resp, c', w')" and "stateErr c = None" and "nowTime D w' \<noteq> 0"
  shows "(authSecret D w = [] \<longrightarrow> statusCode resp = 404 \<and> c' = c \<and> w' = w)
    \<and> (statusCode resp = 429 \<longrightarrow>
        (\<exists>n. respHeader resp = [(''Retry-After'', showInt n)] \<and> 1 \<le> n \<and> n \<le> 86400
           \<and> (\<forall>t \<ge> nowTime D w' + n * second. issueCount (rollIssueWindow t (24 * hour) c') (clientIP r) = 0)))"
proof (cases "authSecret D w = [] \<or> Method r \<noteq> ''POST''")
  case True
  with assms(1) show ?thesis by (auto simp: handleIssue_def reply_def split: if_splits)
next
  case False
  obtain res c1 w1 where i: "issueAuthKey L D c w (clientIP r) defaultIssueLimitPerIPPerDay (24 * hour) = (res, c1, w1)"
    by (metis prod_cases3)
  with assms(1) False have out: "c' = c1" "w' = w1"
      "resp = (case res of Inl e \<Rightarrow> issueError e | Inr key \<Rightarrow>
        \<lparr>statusCode = 200, respHeader = [(''Content-Type'', ''application/json''), (''Cache-Control'', ''no-store'')],
          respBody = printJson J (JObj [(''key'', JStr key)]) @ [CHR 0x0A]\<rparr>)"
    by (auto simp: handleIssue_def split: sum.splits)
  have "\<exists>n. respHeader resp = [(''Retry-After'', showInt n)] \<and> 1 \<le> n \<and> n \<le> 86400
      \<and> (\<forall>t \<ge> nowTime D w' + n * second. issueCount (rollIssueWindow t (24 * hour) c') (clientIP r) = 0)" if s: "statusCode resp = 429"
  proof -
    obtain d where d: "res = Inl (issueRateLimitError d)"
      using s out(3) by (auto simp: issueError_def reply_def split: sum.splits accessError.splits)
    obtain key where l: "issueAuthKeyLocked L D (authSecret D w) key (clientIP r) defaultIssueLimitPerIPPerDay (24 * hour) c (snd (issueKey D w)) = (res, c1, w1)"
      using i d False by (auto simp: issueAuthKey_def Let_def split: sum.splits prod.splits)
    from l assms(2) d obtain "w1 = snd (issueKey D w)" "c1 = rollIssueWindow (nowTime D w1) (24 * hour) c"
        "d = max second (Sub (issueWindow c1 + 24 * hour) (nowTime D w1))"
      using issue_lost [OF l assms(2)] by (cases rule: issue_cases) (auto simp: max_def lostWrite_def)
    note c1 = this
    have t: "issueWindow c1 \<le> nowTime D w1" "nowTime D w1 < issueWindow c1 + 24 * hour" "issueWindow c1 \<noteq> 0"
      using roll_facts [of "24 * hour" "nowTime D w1" c] assms(3) out(2) c1(2) by (simp_all add: MaxInt64_def)
    have d': "second \<le> d" "d \<le> 24 * hour" "issueWindow c1 + 24 * hour - nowTime D w1 \<le> d"
      using t c1(3) by (simp_all add: Sub_def MinInt64_def MaxInt64_def)
    define n where "n = quotient (wrap64 (d + second - 1)) second"
    note q = quotient_ceil [OF d'(1,2), folded n_def]
    have "issueCount (rollIssueWindow t (24 * hour) c1) (clientIP r) = 0" if "nowTime D w1 + n * second \<le> t" for t
      using that q(3) d'(3) by (auto simp: rollIssueWindow_def issueCount_def Sub_def MinInt64_def MaxInt64_def)
    moreover have "respHeader resp = [(''Retry-After'', showInt n)]" using out(3) d by (simp add: issueError_def reply_def n_def)
    ultimately show ?thesis using q out by blast
  qed
  with False show ?thesis by blast
qed

section \<open>Witnesses\<close>

definition exKey :: wgKey where "exKey = replicate 32 (CHR ''k'')"

definition exResp :: addPeerResp where
  "exResp = \<lparr>respKey = replicate 32 (CHR ''s''), respEndpoint = ''192.0.2.1:443''\<rparr>"

text \<open>A syntax with two documents, the request and its response.\<close>

definition exWire :: codec where
  "exWire = exTimes\<lparr>printJson := (\<lambda>j. if j = encAddPeerReq exKey then ''request'' else ''response''),
     parseJson := (\<lambda>s. if s = ''request'' then Some (encAddPeerReq exKey) else Some (encAddPeerResp exResp))\<rparr>"

lemma exWire_texts:
  "printJson exWire (encAddPeerReq exKey) = ''request''" "printJson exWire (encAddPeerResp exResp) = ''response''"
  "parseJson exWire ''request'' = Some (encAddPeerReq exKey)" "parseJson exWire ''response'' = Some (encAddPeerResp exResp)"
  by (simp_all add: exWire_def encAddPeerReq_def encAddPeerResp_def)

definition exPost :: "string \<Rightarrow> httpRequest" where
  "exPost path = \<lparr>Method = ''POST'', urlPath = path, RemoteAddr = ''192.0.2.9:4711'', headerGet = (\<lambda>_. ''kid''), reqBody = Some ''request''\<rparr>"

theorem messages_roundtrip_witness:
  "requestKey exWire (exPost ''/add'') = Some exKey
   \<and> Option.bind (parseJson exWire (printJson exWire (encAddPeerResp exResp))) decAddPeerResp = Some exResp"
proof -
  show ?thesis
    by (rule messages_roundtrip) (simp_all add: exWire_texts exPost_def maxAddBody_def, simp add: exKey_def)
qed

theorem add_statuses_witness:
  "statusCode (fst (handleAdd exLib exWire (exDeps ''s'' 5000) exKey ''192.0.2.1'' 443 (exPost ''/add'') (exController 1000) exNow)) = 200
   \<and> (\<exists>c' w' cr. registerPeer exLib (exDeps ''s'' 5000) (exController 1000) exNow exKey ''kid'' = ((cr, None), c', w'))"
proof -
  let ?h = "handleAdd exLib exWire (exDeps ''s'' 5000) exKey ''192.0.2.1'' 443 (exPost ''/add'') (exController 1000) exNow"
  have h: "?h = (fst ?h, fst (snd ?h), snd (snd ?h))" by simp
  have k: "requestKey exWire (exPost ''/add'') = Some exKey"
    by (simp add: requestKey_def exPost_def maxAddBody_def exWire_def)
      (simp add: encAddPeerReq_def decAddPeerReq_def decStruct_def message_fields decBytes_def b64_roundtrip NewKey_def exKey_def)
  let ?r = "registerPeer exLib (exDeps ''s'' 5000) (exController 1000) exNow exKey ''kid''"
  have "snd (fst ?r) = None" by code_simp
  then obtain cr c1 w1 where r: "?r = ((cr, None), c1, w1)" by (metis prod.collapse)
  then have "snd ?h = (c1, w1)" using k by (simp add: handleAdd_def exPost_def)
  with add_statuses [OF h] k r show ?thesis by (auto simp: exPost_def)
qed

theorem issue_answers_witness:
  "\<exists>resp c'. handleIssue exLib exWire (exDeps ''s'' 0) (exPost ''/issue'')
        ((exController 1000)\<lparr>issueCounts := [(''192.0.2.9'', 20)]\<rparr>) (exNow + hour) = (resp, c', exNow + hour)
     \<and> statusCode resp = 429 \<and> respHeader resp = [(''Retry-After'', ''82800'')]
     \<and> issueCount (rollIssueWindow (exNow + 24 * hour) (24 * hour) c') ''192.0.2.9'' = 0"
proof -
  let ?c = "(exController 1000)\<lparr>issueCounts := [(''192.0.2.9'', 20)]\<rparr>"
  let ?h = "handleIssue exLib exWire (exDeps ''s'' 0) (exPost ''/issue'') ?c (exNow + hour)"
  have f: "statusCode (fst ?h) = 429" "respHeader (fst ?h) = [(''Retry-After'', ''82800'')]" "snd (snd ?h) = exNow + hour"
      "clientIP (exPost ''/issue'') = ''192.0.2.9''" by code_simp+
  have h: "?h = (fst ?h, fst (snd ?h), exNow + hour)" using f(3) by (metis prod.collapse)
  have "stateErr ?c = None" "nowTime (exDeps ''s'' 0) (exNow + hour) = exNow + hour" "exNow + hour \<noteq> 0"
    by (simp_all add: exController_def newAccessController_def exDeps_def exNow_def)
  with issue_answers [OF h] f obtain n where n: "showInt n = ''82800''" "n \<le> 86400" "1 \<le> n"
      "\<forall>t \<ge> exNow + hour + n * second. issueCount (rollIssueWindow t (24 * hour) (fst (snd ?h))) ''192.0.2.9'' = 0" by auto
  have "int64 n" using n(2,3) by (simp add: int64_def MaxInt64_def MinInt64_def)
  then have "ParseInt ''82800'' = Some n" using ParseInt_showInt [of n] n(1) by simp
  moreover have "ParseInt ''82800'' = Some 82800" by code_simp
  ultimately have "n = 82800" by simp
  then show ?thesis using n(4) h f by (intro exI [of _ "fst ?h"] exI [of _ "fst (snd ?h)"]) simp
qed

end
