(* ===== verification/SniRoutes.thy ===== *)
theory SniRoutes
  imports NetText
begin

text \<open>
  \<open>tunwg/sni_routes.go\<close>: the static SNI routes of the server, their syntax and their checks, and
  the proxy built from them.

  The reverse proxy library (\<open>tcpproxy\<close>) is outside the repository: a proxy is the ordered list
  of the SNI rules the code adds for port 443, and what the library does with such a list is the
  parameter \<open>serve\<close>, with the documented rule that the first matching route wins as its law.
\<close>

record sniRoute =
  host :: string
  target :: string

record sniConfig =
  routes :: "sniRoute list"
  proxyProtocol :: bool

datatype sniError = NotBoolean | LineProblem nat string

definition normalizeSNIHost :: "unicode \<Rightarrow> string \<Rightarrow> string" where
  "normalizeSNIHost U h = ToLower U (TrimSuffix h ''.'')"

text \<open>The runes of a label outside ASCII fail the range check, as their bytes do here.\<close>

definition dnsChar :: "char \<Rightarrow> bool" where
  "dnsChar c \<longleftrightarrow> 97 \<le> byteval c \<and> byteval c \<le> 122 \<or> isDigit c \<or> c = CHR ''-''"

definition validLabel :: "string \<Rightarrow> bool" where
  "validLabel l \<longleftrightarrow> l \<noteq> [] \<and> length l \<le> 63 \<and> hd l \<noteq> CHR ''-'' \<and> last l \<noteq> CHR ''-'' \<and> list_all dnsChar l"

definition validDNSName :: "string \<Rightarrow> bool" where
  "validDNSName h \<longleftrightarrow> h \<noteq> [] \<and> length h \<le> 253 \<and> list_all validLabel (Split h CHR ''.'')"

definition validSNITarget :: "unicode \<Rightarrow> string \<Rightarrow> bool" where
  "validSNITarget U t =
     (case SplitHostPort t of
        None \<Rightarrow> False
      | Some (h, port) \<Rightarrow>
          if h = [] then False
          else if ParseAddr h = None \<and> \<not> validDNSName (normalizeSNIHost U h) then False
          else (case ParseUint port 16 of None \<Rightarrow> False | Some n \<Rightarrow> n > 0))"

text \<open>The \<open>switch\<close> of the loop body, in its order; the empty text is no problem.\<close>

definition routeProblem :: "unicode \<Rightarrow> string \<Rightarrow> string list \<Rightarrow> bool \<Rightarrow> string \<Rightarrow> string \<Rightarrow> string" where
  "routeProblem U api seen ok h t =
     (if \<not> ok then ''expected domain=host:port''
      else if \<not> validDNSName h \<or> ParseIP h \<noteq> None then ''domain must be an exact DNS hostname''
      else if h = api \<or> HasSuffix h (CHR ''.'' # api) then ''the API domain and its subdomains are reserved for tunwg''
      else if h \<in> set seen then ''duplicate domain''
      else if \<not> validSNITarget U t then ''target must be host:port with a port in 1..65535''
      else [])"

fun parseRoutes :: "unicode \<Rightarrow> string \<Rightarrow> nat \<Rightarrow> string list \<Rightarrow> sniRoute list \<Rightarrow> string list \<Rightarrow> sniError + sniRoute list" where
  "parseRoutes U api index seen rs [] = Inr rs"
| "parseRoutes U api index seen rs (raw # lines) =
     (let line = TrimSpace raw
      in if line = [] then parseRoutes U api (index + 1) seen rs lines
         else
           let (h0, t0, ok) = Cut line CHR ''='';
               h = normalizeSNIHost U (TrimSpace h0);
               t = TrimSpace t0;
               problem = routeProblem U api seen ok h t
           in if problem \<noteq> [] then Inl (LineProblem (index + 1) problem)
              else parseRoutes U api (index + 1) (h # seen) (rs @ [\<lparr>host = h, target = t\<rparr>]) lines)"

definition parseSNIConfig :: "unicode \<Rightarrow> string \<Rightarrow> string \<Rightarrow> string \<Rightarrow> sniError + sniConfig" where
  "parseSNIConfig U rawRoutes rawProxyProtocol apiDomain =
     (let value = TrimSpace rawProxyProtocol
      in case (if value = [] then Some False else ParseBool value) of
           None \<Rightarrow> Inl NotBoolean
         | Some enabled \<Rightarrow>
             (case parseRoutes U (normalizeSNIHost U apiDomain) 0 [] [] (Split rawRoutes CHR 0x0A) of
                Inl e \<Rightarrow> Inl e
              | Inr rs \<Rightarrow> Inr \<lparr>routes = rs, proxyProtocol = enabled\<rparr>))"

section \<open>The proxy\<close>

text \<open>
  Where a connection to port 443 goes: the API of the server, a static backend with the version of
  the proxy protocol it is spoken to, or a peer of the tunnel. The tunnel's own resolution is the
  argument \<open>tunnelTarget\<close>.
\<close>

datatype 'a sniTarget = ToApi | ToBackend string nat | ToTunnel 'a

definition staticTarget :: "sniConfig \<Rightarrow> string \<Rightarrow> (string \<times> nat) option" where
  "staticTarget config h =
     map_of (foldl (\<lambda>m r. put m (host r) (target r, if proxyProtocol config then 1 else 0)) [] (routes config)) h"

definition newSNIProxy ::
  "unicode \<Rightarrow> string \<Rightarrow> sniConfig \<Rightarrow> (string \<Rightarrow> 'a option) \<Rightarrow> (string \<Rightarrow> 'a sniTarget option) list" where
  "newSNIProxy U apiDomain config tunnelTarget =
     [\<lambda>h. if normalizeSNIHost U h = normalizeSNIHost U apiDomain then Some ToApi else None]
     @ (if routes config \<noteq> []
        then [\<lambda>h. map_option (\<lambda>(t, v). ToBackend t v) (staticTarget config (normalizeSNIHost U h))] else [])
     @ [\<lambda>h. map_option ToTunnel (tunnelTarget h)]"

text \<open>The law of the library: the first route that yields a target serves the connection.\<close>

definition firstRoute :: "((string \<Rightarrow> 'a option) list \<Rightarrow> string \<Rightarrow> 'a option) \<Rightarrow> bool" where
  "firstRoute serve \<longleftrightarrow>
     (\<forall>h. serve [] h = None) \<and>
     (\<forall>r rs h. serve (r # rs) h = (case r h of None \<Rightarrow> serve rs h | Some t \<Rightarrow> Some t))"

section \<open>Accepted configurations\<close>

definition goodRoute :: "unicode \<Rightarrow> string \<Rightarrow> sniRoute \<Rightarrow> bool" where
  "goodRoute U api r \<longleftrightarrow> validDNSName (host r) \<and> ParseIP (host r) = None
     \<and> host r \<noteq> api \<and> \<not> HasSuffix (host r) (CHR ''.'' # api) \<and> validSNITarget U (target r)"

lemma routeProblem_Nil:
  "routeProblem U api seen ok h t = [] \<longleftrightarrow> ok \<and> goodRoute U api \<lparr>host = h, target = t\<rparr> \<and> h \<notin> set seen"
  by (simp add: routeProblem_def goodRoute_def)

lemma parseRoutes_good:
  assumes "parseRoutes U api index seen rs lines = Inr rs'" and "list_all (goodRoute U api) rs"
    and "distinct (map host rs)" and "set seen = host ` set rs"
  shows "list_all (goodRoute U api) rs' \<and> distinct (map host rs')"
  using assms
proof (induction U api index seen rs lines rule: parseRoutes.induct)
  case (2 U api index seen rs raw lines)
  show ?case
  proof (cases "TrimSpace raw = []")
    case True
    with 2 show ?thesis by simp
  next
    case False
    obtain h0 t0 ok where c: "Cut (TrimSpace raw) CHR ''='' = (h0, t0, ok)" by (metis prod_cases3)
    define h where "h = normalizeSNIHost U (TrimSpace h0)"
    define t where "t = TrimSpace t0"
    have np: "routeProblem U api seen ok h t = []"
      using "2.prems"(1) False by (auto simp: c h_def t_def Let_def split: if_splits)
    then have good: "goodRoute U api \<lparr>host = h, target = t\<rparr>" "h \<notin> set seen" by (simp_all add: routeProblem_Nil)
    have rest: "parseRoutes U api (index + 1) (h # seen) (rs @ [\<lparr>host = h, target = t\<rparr>]) lines = Inr rs'"
      using "2.prems"(1) False np by (simp add: c h_def t_def Let_def)
    show ?thesis
      using "2.IH"(2) [OF refl False c [symmetric] refl refl h_def t_def refl] rest "2.prems"(2-4) good np by auto
  qed
qed simp

lemma validSNITarget_port:
  assumes "validSNITarget U t"
  shows "\<exists>h port. SplitHostPort t = Some (h, port) \<and> h \<noteq> [] \<and> (\<exists>n. ParseUint port 16 = Some n \<and> 1 \<le> n \<and> n \<le> 65535)"
proof -
  obtain h port where s: "SplitHostPort t = Some (h, port)" using assms by (auto simp: validSNITarget_def split: option.splits)
  with assms have h: "h \<noteq> []" by (auto simp: validSNITarget_def)
  obtain n where n: "ParseUint port 16 = Some n" "n > 0" using assms s by (auto simp: validSNITarget_def split: if_splits option.splits)
  then have "n \<le> 65535" by (auto simp: ParseUint_def split: if_splits)
  with s h n show ?thesis by auto
qed

text \<open>
  C35: a configuration that is accepted is safe: every host is an exact DNS name and no IP address, no
  two routes share a host, no route takes over the API domain or a name under it, and every target
  is a host with a port from 1 to 65535.
\<close>

theorem sni_config_sound:
  assumes "parseSNIConfig U rawRoutes rawProxyProtocol apiDomain = Inr config"
  shows "distinct (map host (routes config)) \<and> (\<forall>r\<in>set (routes config).
     validDNSName (host r) \<and> ParseIP (host r) = None
     \<and> host r \<noteq> normalizeSNIHost U apiDomain \<and> \<not> HasSuffix (host r) (CHR ''.'' # normalizeSNIHost U apiDomain)
     \<and> (\<exists>h port. SplitHostPort (target r) = Some (h, port) \<and> h \<noteq> []
          \<and> (\<exists>n. ParseUint port 16 = Some n \<and> 1 \<le> n \<and> n \<le> 65535)))"
proof -
  obtain rs where p: "parseRoutes U (normalizeSNIHost U apiDomain) 0 [] [] (Split rawRoutes CHR 0x0A) = Inr rs" "routes config = rs"
    using assms by (auto simp: parseSNIConfig_def Let_def split: option.splits sum.splits)
  have good: "list_all (goodRoute U (normalizeSNIHost U apiDomain)) rs" "distinct (map host rs)"
    using parseRoutes_good [OF p(1)] by simp_all
  from good show ?thesis unfolding p(2) list_all_iff goodRoute_def using validSNITarget_port by blast
qed

definition exUnicode :: unicode where
  "exUnicode = \<lparr>lowerMap = (\<lambda>s. s), upperMap = (\<lambda>s. s)\<rparr>"

definition exRoutes :: string where
  "exRoutes = '' www.Example.org. = 10.0.0.5:8443'' @ [CHR 0x0A, CHR 0x0A] @ ''mail.example.org=[2001:db8::1]:443''"

definition exConfig :: sniConfig where
  "exConfig = \<lparr>routes = [\<lparr>host = ''www.example.org'', target = ''10.0.0.5:8443''\<rparr>,
      \<lparr>host = ''mail.example.org'', target = ''[2001:db8::1]:443''\<rparr>], proxyProtocol = True\<rparr>"

lemma exConfig_parsed: "parseSNIConfig exUnicode exRoutes ''true'' ''l.tunwg.com'' = Inr exConfig"
  by code_simp

theorem sni_config_sound_witness: "distinct (map host (routes exConfig))"
  using sni_config_sound [OF exConfig_parsed] by blast

lemma staticTarget_find:
  assumes "distinct (map host (routes config))"
  shows "staticTarget config h = map_option (\<lambda>r. (target r, if proxyProtocol config then 1 else 0)) (find (\<lambda>r. host r = h) (routes config))"
proof -
  have "map_of (foldl (\<lambda>m r. put m (host r) (target r, v)) m rs) h
      = (case find (\<lambda>r. host r = h) rs of None \<Rightarrow> map_of m h | Some r \<Rightarrow> Some (target r, v))"
    if "distinct (map host rs)" for m rs and v :: nat
    using that
  proof (induction rs arbitrary: m)
    case (Cons r rs)
    have "find (\<lambda>r'. host r' = h) rs = None" if "host r = h"
      using Cons.prems that by (auto simp: find_None_iff rev_image_eqI)
    with Cons show ?case by (auto split: option.splits)
  qed simp
  from this [OF assms] show ?thesis
    unfolding staticTarget_def by (auto split: option.splits)
qed

text \<open>The routing, whatever resolves the names of the tunnel.\<close>

lemma route_of_host:
  assumes "firstRoute serve" and "parseSNIConfig U rawRoutes rawProxyProtocol apiDomain = Inr config"
  shows "serve (newSNIProxy U apiDomain config tunnelTarget) h =
      (if normalizeSNIHost U h = normalizeSNIHost U apiDomain then Some ToApi
       else case find (\<lambda>r. host r = normalizeSNIHost U h) (routes config) of
              Some r \<Rightarrow> Some (ToBackend (target r) (if proxyProtocol config then 1 else 0))
            | None \<Rightarrow> map_option ToTunnel (tunnelTarget h))
    \<and> (HasSuffix (normalizeSNIHost U h) (CHR ''.'' # normalizeSNIHost U apiDomain) \<longrightarrow>
        serve (newSNIProxy U apiDomain config tunnelTarget) h = map_option ToTunnel (tunnelTarget h))"
proof -
  obtain rs where p: "parseRoutes U (normalizeSNIHost U apiDomain) 0 [] [] (Split rawRoutes CHR 0x0A) = Inr rs" "routes config = rs"
    using assms(2) by (auto simp: parseSNIConfig_def Let_def split: option.splits sum.splits)
  have good: "list_all (goodRoute U (normalizeSNIHost U apiDomain)) rs" "distinct (map host rs)"
    using parseRoutes_good [OF p(1)] by simp_all
  have st: "staticTarget config h' = map_option (\<lambda>r. (target r, if proxyProtocol config then 1 else 0)) (find (\<lambda>r. host r = h') (routes config))" for h'
    using good(2) p(2) by (intro staticTarget_find) simp
  have serve: "serve [] x = None" "serve (r # rs) x = (case r x of None \<Rightarrow> serve rs x | Some t \<Rightarrow> Some t)" for r rs x
    using assms(1) by (auto simp: firstRoute_def)
  have eq: "serve (newSNIProxy U apiDomain config tunnelTarget) h =
      (if normalizeSNIHost U h = normalizeSNIHost U apiDomain then Some ToApi
       else case find (\<lambda>r. host r = normalizeSNIHost U h) (routes config) of
              Some r \<Rightarrow> Some (ToBackend (target r) (if proxyProtocol config then 1 else 0))
            | None \<Rightarrow> map_option ToTunnel (tunnelTarget h))"
    by (auto simp: newSNIProxy_def serve st split: option.split)
  have "length (normalizeSNIHost U h) > length (normalizeSNIHost U apiDomain)"
    if "HasSuffix (normalizeSNIHost U h) (CHR ''.'' # normalizeSNIHost U apiDomain)"
    using that by (auto simp: HasSuffix_iff)
  moreover have "find (\<lambda>r. host r = normalizeSNIHost U h) (routes config) = None"
    if "HasSuffix (normalizeSNIHost U h) (CHR ''.'' # normalizeSNIHost U apiDomain)"
    using that good(1) p(2) by (auto simp: find_None_iff list_all_iff goodRoute_def)
  ultimately show ?thesis using eq by (auto split: if_splits)
qed

text \<open>
  C19: how a connection is routed, whatever the reverse proxy does beyond trying its routes in order.
  The API domain goes to the server itself; a configured host, in any spelling, goes to its backend,
  with the proxy protocol as configured; everything else goes to the tunnel. No configuration
  can keep a name under the API domain from the tunnel.
\<close>

theorem sni_routing:
  assumes "firstRoute serve" and "parseSNIConfig U rawRoutes rawProxyProtocol apiDomain = Inr config"
  shows "serve (newSNIProxy U apiDomain config tunnelTarget) h =
      (if normalizeSNIHost U h = normalizeSNIHost U apiDomain then Some ToApi
       else case find (\<lambda>r. host r = normalizeSNIHost U h) (routes config) of
              Some r \<Rightarrow> Some (ToBackend (target r) (if proxyProtocol config then 1 else 0))
            | None \<Rightarrow> map_option ToTunnel (tunnelTarget h))
    \<and> (HasSuffix (normalizeSNIHost U h) (CHR ''.'' # normalizeSNIHost U apiDomain) \<longrightarrow>
        serve (newSNIProxy U apiDomain config tunnelTarget) h = map_option ToTunnel (tunnelTarget h))"
  by (rule route_of_host [OF assms])

text \<open>A reverse proxy that serves by the first matching route.\<close>

fun serveFirst :: "(string \<Rightarrow> 'a option) list \<Rightarrow> string \<Rightarrow> 'a option" where
  "serveFirst [] h = None"
| "serveFirst (r # rs) h = (case r h of None \<Rightarrow> serveFirst rs h | Some t \<Rightarrow> Some t)"

theorem sni_routing_witness:
  "serveFirst (newSNIProxy exUnicode ''l.tunwg.com'' exConfig (\<lambda>h. Some h)) ''WWW.example.org'' = Some (ToBackend ''10.0.0.5:8443'' 1)"
proof -
  have "firstRoute (serveFirst :: (string \<Rightarrow> string sniTarget option) list \<Rightarrow> string \<Rightarrow> string sniTarget option)"
    by (simp add: firstRoute_def)
  note r = sni_routing [OF this exConfig_parsed, of "\<lambda>h. Some h" "''WWW.example.org''"]
  have "normalizeSNIHost exUnicode ''WWW.example.org'' = ''www.example.org''" "normalizeSNIHost exUnicode ''l.tunwg.com'' = ''l.tunwg.com''"
    by code_simp+
  with r show ?thesis by (simp add: exConfig_def)
qed

section \<open>Printing and parsing\<close>

lemma trimWith_id:
  assumes "s = [] \<or> hd s \<notin> hd ` set qs" and "[] \<notin> set qs"
  shows "trimWith qs s = s"
proof -
  have "find (HasPrefix s) qs = None"
    using assms by (cases s) (auto simp: find_None_iff HasPrefix_def, (metis hd_take list.sel(1) image_eqI length_greater_0_conv)+)
  then show ?thesis by (subst trimWith.simps) simp
qed

text \<open>Text that neither starts nor ends with a byte of a space is left as it is.\<close>

definition spaceEdge :: "char \<Rightarrow> bool" where
  "spaceEdge c \<longleftrightarrow> c \<in> hd ` set spaceSeqs \<union> last ` set spaceSeqs"

lemma TrimSpace_id:
  assumes "s = [] \<or> \<not> spaceEdge (hd s) \<and> \<not> spaceEdge (last s)"
  shows "TrimSpace s = s"
proof -
  have "trimWith spaceSeqs s = s"
    using assms by (intro trimWith_id) (auto simp: spaceEdge_def spaceSeqs_def)
  moreover have "trimWith (map rev spaceSeqs) (rev s) = rev s"
    using assms by (intro trimWith_id) (auto simp: spaceEdge_def hd_rev spaceSeqs_def)
  ultimately show ?thesis by (simp add: TrimSpace_def)
qed

definition printRoutes :: "sniRoute list \<Rightarrow> string" where
  "printRoutes rs = concat (map (\<lambda>r. host r @ ''='' @ target r @ [CHR 0x0A]) rs)"

lemma Split_chars: "c \<in> set s \<Longrightarrow> c = sep \<or> (\<exists>l\<in>set (Split s sep). c \<in> set l)"
  by (induction s) (auto split: list.splits)

lemma Split_last_sep: "Split (p @ [sep]) sep = Split p sep @ [[]]"
  by (induction p) (auto split: list.splits)

lemma dns_bytes:
  assumes "validDNSName h" and "c \<in> set h"
  shows "\<not> spaceEdge c" and "c \<noteq> CHR ''=''" and "c \<noteq> CHR 0x0A" and "lowerByte c = c" and "byteval c < 128"
proof -
  have "c = CHR ''.'' \<or> dnsChar c"
    using assms Split_chars [of c h "CHR ''.''"] by (auto simp: validDNSName_def validLabel_def list_all_iff)
  then have b: "45 \<le> byteval c \<and> byteval c \<le> 57 \<or> 97 \<le> byteval c \<and> byteval c \<le> 122"
    by (auto simp: dnsChar_def isDigit_def byteval_def)
  then show "byteval c < 128" by linarith
  have "byteval ` (hd ` set spaceSeqs \<union> last ` set spaceSeqs) \<subseteq> {n. n < 33 \<or> n > 127}"
    by (auto simp: spaceSeqs_def byteval_def)
  with b show "\<not> spaceEdge c" by (fastforce simp: spaceEdge_def)
  have "byteval CHR ''='' = 61" "byteval CHR 0x0A = 10" by (simp_all add: byteval_def)
  with b show "c \<noteq> CHR ''=''" "c \<noteq> CHR 0x0A" by force+
  from b show "lowerByte c = c" by (auto simp: lowerByte_def)
qed

lemma dns_normal:
  assumes "validDNSName h"
  shows "normalizeSNIHost U h = h"
proof -
  have "\<not> HasSuffix h ''.''"
    using assms Split_last_sep [of _ "CHR ''.''"] by (auto simp: HasSuffix_iff validDNSName_def validLabel_def list_all_iff)
  moreover have "map lowerByte h = h" using dns_bytes(4) [OF assms] by (simp add: map_idI)
  moreover have "ascii h" using dns_bytes(5) [OF assms] by (auto simp: ascii_def list_all_iff)
  ultimately show ?thesis by (simp add: normalizeSNIHost_def TrimSuffix_def CutSuffix_def ToLower_ascii)
qed

definition cleanText :: "string \<Rightarrow> bool" where
  "cleanText t \<longleftrightarrow> t \<noteq> [] \<and> \<not> spaceEdge (hd t) \<and> \<not> spaceEdge (last t) \<and> CHR 0x0A \<notin> set t"

lemma Split_printRoutes:
  assumes "\<forall>r\<in>set rs. validDNSName (host r) \<and> cleanText (target r)"
  shows "Split (printRoutes rs) CHR 0x0A = map (\<lambda>r. host r @ ''='' @ target r) rs @ [[]]"
  using assms
proof (induction rs)
  case (Cons r rs)
  have "CHR 0x0A \<notin> set (host r @ ''='' @ target r)"
    using Cons.prems dns_bytes(3) [of "host r"] by (auto simp: cleanText_def)
  from Split_append [OF this, of "printRoutes rs"] Cons show ?case by (simp add: printRoutes_def)
qed (simp add: printRoutes_def)

lemma parseRoutes_printed:
  assumes "\<forall>r\<in>set rs. goodRoute U api r \<and> cleanText (target r)" and "distinct (map host rs)" and "set seen \<inter> host ` set rs = {}"
  shows "parseRoutes U api index seen acc (map (\<lambda>r. host r @ ''='' @ target r) rs @ [[]]) = Inr (acc @ rs)"
  using assms
proof (induction rs arbitrary: index seen acc)
  case Nil
  have "TrimSpace [] = []" by (simp add: TrimSpace_id)
  then show ?case by simp
next
  case (Cons r rs)
  have v: "validDNSName (host r)" and t: "cleanText (target r)" using Cons.prems(1) by (auto simp: goodRoute_def)
  have ne: "host r \<noteq> []" using v by (simp add: validDNSName_def)
  have h: "TrimSpace (host r) = host r"
    using dns_bytes(1) [OF v] ne by (intro TrimSpace_id) (simp add: hd_in_set)
  have tt: "TrimSpace (target r) = target r" using t by (intro TrimSpace_id) (simp add: cleanText_def)
  have line: "TrimSpace (host r @ ''='' @ target r) = host r @ ''='' @ target r"
    using dns_bytes(1) [OF v] ne t by (intro TrimSpace_id) (simp add: hd_in_set cleanText_def)
  have cut: "Cut (host r @ ''='' @ target r) CHR ''='' = (host r, target r, True)"
    using dns_bytes(2) [OF v] by (simp add: Cut_found) (metis Cut_found)
  have np: "routeProblem U api seen True (host r) (target r) = []"
    using Cons.prems by (auto simp: routeProblem_Nil goodRoute_def)
  have "parseRoutes U api (index + 1) (host r # seen) (acc @ [r]) (map (\<lambda>r. host r @ ''='' @ target r) rs @ [[]]) = Inr ((acc @ [r]) @ rs)"
    using Cons.prems by (intro Cons.IH) auto
  moreover have "\<lparr>host = host r, target = target r\<rparr> = r" by simp
  ultimately show ?case
    using line cut h tt np dns_normal [OF v] ne by (cases r) (simp add: Let_def)
qed

text \<open>
  C36: a configuration written one route per line is read back as it was written, for any routes
  that are allowed and whose targets carry no line break and no space at their ends.
\<close>

theorem sni_config_roundtrip:
  assumes "\<forall>r\<in>set rs. goodRoute U (normalizeSNIHost U apiDomain) r \<and> cleanText (target r)" and "distinct (map host rs)"
  shows "parseSNIConfig U (printRoutes rs) (if pp then ''true'' else ''false'') apiDomain = Inr \<lparr>routes = rs, proxyProtocol = pp\<rparr>"
proof -
  have "Split (printRoutes rs) CHR 0x0A = map (\<lambda>r. host r @ ''='' @ target r) rs @ [[]]"
    using assms(1) by (intro Split_printRoutes) (simp add: goodRoute_def)
  moreover have "parseRoutes U (normalizeSNIHost U apiDomain) 0 [] [] (map (\<lambda>r. host r @ ''='' @ target r) rs @ [[]]) = Inr ([] @ rs)"
    using assms by (intro parseRoutes_printed) auto
  moreover have "TrimSpace (if pp then ''true'' else ''false'') = (if pp then ''true'' else ''false'')"
    by (intro TrimSpace_id) (auto simp: spaceEdge_def spaceSeqs_def)
  ultimately show ?thesis by (simp add: parseSNIConfig_def ParseBool_def)
qed

theorem sni_config_roundtrip_witness:
  "parseSNIConfig exUnicode (printRoutes (routes exConfig)) ''true'' ''l.tunwg.com'' = Inr exConfig"
proof -
  have "\<forall>r\<in>set (routes exConfig). goodRoute exUnicode (normalizeSNIHost exUnicode ''l.tunwg.com'') r \<and> cleanText (target r)"
    and "distinct (map host (routes exConfig))"
    by code_simp+
  from sni_config_roundtrip [OF this, of True] show ?thesis by (simp add: exConfig_def)
qed

end
