(* ===== verification/Dispatch.thy ===== *)
theory Dispatch
  imports SniRoutes
begin

text \<open>
  From a host name to a peer of the tunnel, and which names a certificate is asked for:
  \<open>getIPForDomain\<close>, \<open>tunnelSNITarget\<close> and \<open>sslRedirect\<close> of \<open>tunwg/tunwgs.go\<close>, \<open>tunnelHostPolicy\<close>
  of \<open>internal/tls.go\<close>, and \<open>GetLocalWgIp\<close> of \<open>internal/ip.go\<close>.

  The configured API domain is the argument \<open>api\<close>; the DNS resolver's CNAME lookup is the argument
  \<open>cname\<close>, a function from a name to an error or the canonical name.
\<close>

datatype dispatchError = RejectedHost string | CnameFailed string string | NoSuffix string | NotDispatchable string

definition getIPForDomain ::
  "unicode \<Rightarrow> string \<Rightarrow> (string \<Rightarrow> string + string) \<Rightarrow> string \<Rightarrow> dispatchError + AddrPort" where
  "getIPForDomain U api cname sni =
     (let sniName = ToLower U (TrimSuffix sni ''.'');
          dispatch = (\<lambda>label. case LookupEncodedIPPort U label of
             None \<Rightarrow> Inl (NotDispatchable sniName) | Some a \<Rightarrow> Inr a);
          (encodedIP, ok) = ExtractEncodedLabel U sniName api
      in if ok then dispatch encodedIP
         else if HasSuffix sniName (''.'' @ ToLower U api) then Inl (RejectedHost sniName)
         else (case cname sniName of
                 Inl err \<Rightarrow> Inl (CnameFailed sniName err)
               | Inr canonical \<Rightarrow>
                   (let (encodedIP', ok') = ExtractEncodedLabel U canonical api
                    in if \<not> ok' then Inl (NoSuffix sniName) else dispatch encodedIP')))"

text \<open>The target of a tunnelled connection: the address dialled through WireGuard and the version of
  the proxy protocol.\<close>

record dialProxy =
  dialAddr :: string
  proxyVersion :: nat

definition tunnelSNITarget ::
  "unicode \<Rightarrow> string \<Rightarrow> (string \<Rightarrow> string + string) \<Rightarrow> string \<Rightarrow> dialProxy option" where
  "tunnelSNITarget U api cname sniName =
     (case getIPForDomain U api cname sniName of
        Inl _ \<Rightarrow> None
      | Inr addr \<Rightarrow> Some \<lparr>dialAddr = AddrPortString addr, proxyVersion = 1\<rparr>)"

text \<open>
  The plain HTTP side: an ACME challenge is passed on to port 80 of the peer (the URL of the outgoing
  request, \<open>None\<close> when the host is unknown and the request is left without one), everything else is
  redirected to HTTPS.
\<close>

datatype plainAction = ProxyTo "string option" | Redirect nat string

definition acmeURL :: "unicode \<Rightarrow> string \<Rightarrow> (string \<Rightarrow> string + string) \<Rightarrow> string \<Rightarrow> string option" where
  "acmeURL U api cname h =
     (case getIPForDomain U api cname h of
        Inl _ \<Rightarrow> None
      | Inr ipport \<Rightarrow> Some (''http://'' @ AddrPortString (ipport\<lparr>Port := 80\<rparr>)))"

definition sslRedirect ::
  "unicode \<Rightarrow> string \<Rightarrow> (string \<Rightarrow> string + string) \<Rightarrow> string \<Rightarrow> string \<Rightarrow> string \<Rightarrow> plainAction" where
  "sslRedirect U api cname h path requestURI =
     (if HasPrefix path ''/.well-known/acme-challenge/'' then ProxyTo (acmeURL U api cname h)
      else Redirect 301 (''https://'' @ h @ requestURI))"

definition GetLocalWgIp :: "(string \<Rightarrow> string) \<Rightarrow> wgKey \<Rightarrow> netipAddr" where
  "GetLocalWgIp sha256 pub = GetIPForKey sha256 pub"

text \<open>The certificate policy of an instance with the WireGuard address \<open>localIp\<close>: \<open>None\<close> allows the
  host.\<close>

datatype policyError = InvalidHostname | NoEndpoint | NotThisInstance

definition tunnelHostPolicy :: "unicode \<Rightarrow> string \<Rightarrow> netipAddr \<Rightarrow> string \<Rightarrow> policyError option" where
  "tunnelHostPolicy U api localIp h0 =
     (let h = ToLower U (TrimSuffix h0 ''.'')
      in if h = ToLower U api then None
         else
           let (label, ok) = ExtractEncodedLabel U h api
           in if \<not> ok then (if HasSuffix h (''.'' @ ToLower U api) then Some InvalidHostname else None)
              else (case LookupEncodedIPPort U label of
                      None \<Rightarrow> Some NoEndpoint
                    | Some addr \<Rightarrow> if localIp \<noteq> ZeroAddr \<and> Addr addr \<noteq> localIp then Some NotThisInstance else None))"

section \<open>Names that spell an address\<close>

text \<open>A host that spells the label of \<open>a\<close> under the API domain, in any case, with or without the
  final dot.\<close>

definition spells :: "unicode \<Rightarrow> string \<Rightarrow> AddrPort \<Rightarrow> string \<Rightarrow> bool" where
  "spells U api a h \<longleftrightarrow> ascii h \<and> map lowerByte (TrimSuffix h ''.'') = GetEncodedIPPort U a @ ''.'' @ map lowerByte api"

lemma TrimSuffix_no: "\<not> HasSuffix s t \<Longrightarrow> TrimSuffix s t = s"
  by (simp add: TrimSuffix_def CutSuffix_def)

lemma ascii_TrimSuffix: "ascii h \<Longrightarrow> ascii (TrimSuffix h t)"
  by (auto simp: TrimSuffix_def CutSuffix_def ascii_def list_all_iff dest: in_set_takeD)

lemma HasSuffix_dot: "HasSuffix s ''.'' \<longleftrightarrow> s \<noteq> [] \<and> last s = CHR ''.''"
  by (cases s rule: rev_cases) (auto simp: HasSuffix_iff)

lemma spells_extract:
  assumes "wgAddr a" and "spells U api a h" and "ascii api" and "api \<noteq> []" and "last api \<noteq> CHR ''.''"
  defines "s \<equiv> ToLower U (TrimSuffix h ''.'')"
  shows "s = GetEncodedIPPort U a @ ''.'' @ ToLower U api" and "ExtractEncodedLabel U s api = (GetEncodedIPPort U a, True)"
proof -
  have "ascii h" using assms(2) by (simp add: spells_def)
  then have s: "s = map lowerByte (TrimSuffix h ''.'')" by (simp add: s_def ToLower_ascii ascii_TrimSuffix)
  then show e: "s = GetEncodedIPPort U a @ ''.'' @ ToLower U api"
    using assms(2,3) by (simp add: spells_def ToLower_ascii)
  have asc: "ascii s" using \<open>ascii h\<close> by (simp add: s ascii_TrimSuffix)
  have "last s = lowerByte (last api)" using e assms(3,4) by (simp add: ToLower_ascii last_map)
  then have "\<not> HasSuffix s ''.''"
    using assms(5) lowerByte_dot_iff [of "last api"] by (auto simp: HasSuffix_dot)
  then have "ToLower U (TrimSuffix s ''.'') = s"
    using asc by (simp add: TrimSuffix_no ToLower_ascii) (simp add: s)
  with e show "ExtractEncodedLabel U s api = (GetEncodedIPPort U a, True)"
    using wg_label.extract_encode [OF assms(1)] by simp
qed

lemma spelled_host:
  assumes "wgAddr a" and "spells U api a h" and "ascii api" and "api \<noteq> []" and "last api \<noteq> CHR ''.''"
  shows "getIPForDomain U api cname h = Inr a
    \<and> tunnelHostPolicy U api (Addr a) h = None
    \<and> (inSubnet other \<and> other \<noteq> Addr a \<longrightarrow> tunnelHostPolicy U api other h = Some NotThisInstance)"
proof -
  note x = spells_extract [OF assms]
  have "ToLower U (TrimSuffix h ''.'') \<noteq> ToLower U api" unfolding x(1) by (auto dest: arg_cong [of _ _ length])
  moreover have "LookupEncodedIPPort U (GetEncodedIPPort U a) = Some a" using assms(1) by (rule Lookup_GetEncoded)
  ultimately show ?thesis
    using x(2) by (auto simp: getIPForDomain_def tunnelHostPolicy_def inSubnet_def split: netipAddr.splits)
qed

text \<open>
  C16: the name a client prints leads back to it. For an address of the tunnel and a port, the server
  resolves the host that spells them under the API domain, in any case and with or without a final
  dot, to exactly that address and port, and never asks DNS; the client's own certificate policy
  allows the name, and that of every other instance refuses it.
\<close>

theorem dispatch_roundtrip:
  assumes "wgAddr a" and "spells U api a h" and "ascii api" and "api \<noteq> []" and "last api \<noteq> CHR ''.''"
  shows "getIPForDomain U api cname h = Inr a
    \<and> tunnelHostPolicy U api (Addr a) h = None
    \<and> (inSubnet other \<and> other \<noteq> Addr a \<longrightarrow> tunnelHostPolicy U api other h = Some NotThisInstance)"
  using assms by (rule spelled_host)

definition exAddr :: AddrPort where
  "exAddr = \<lparr>Addr = IPv6 (ipv6Subnet @ ''abcdefgh''), Port = 443\<rparr>"

theorem dispatch_roundtrip_witness:
  "getIPForDomain exUnicode ''L.tunwg.com'' (\<lambda>_. Inl ''no DNS'')
     (map upperByte (GetEncodedIPPort exUnicode exAddr) @ ''.l.Tunwg.com.'') = Inr exAddr"
proof -
  have "wgAddr exAddr" "spells exUnicode ''L.tunwg.com'' exAddr (map upperByte (GetEncodedIPPort exUnicode exAddr) @ ''.l.Tunwg.com.'')"
    "ascii ''L.tunwg.com''"
    by code_simp+
  from dispatch_roundtrip [OF this] show ?thesis by simp
qed

text \<open>
  The server dials only into the tunnel. Whatever the host name and whatever DNS answers, an
  address that \<open>getIPForDomain\<close> returns lies in the WireGuard subnet; and a name under the API domain
  is decided without DNS.
\<close>

theorem dispatch_stays_inside:
  assumes "getIPForDomain U api cname h = Inr a"
  shows "inSubnet (Addr a) \<and> (HasSuffix (ToLower U (TrimSuffix h ''.'')) (''.'' @ ToLower U api) \<longrightarrow> getIPForDomain U api cname' h = Inr a)"
  using assms Lookup_inSubnet [of U _ a]
  by (auto simp: getIPForDomain_def wgAddr_def Let_def split: prod.splits if_splits sum.splits option.splits)

theorem dispatch_stays_inside_witness: "inSubnet (Addr exAddr)"
proof -
  have "getIPForDomain exUnicode ''l.tunwg.com''
      (\<lambda>h. if h = ''app.example.org'' then Inr (GetEncodedIPPort exUnicode exAddr @ ''.l.tunwg.com.'') else Inl ''NXDOMAIN'') ''app.example.org'' = Inr exAddr"
    by code_simp
  from dispatch_stays_inside [OF this] show ?thesis by blast
qed

lemma allowed_is_dispatched:
  assumes "tunnelHostPolicy U api localIp h = None" and "inSubnet localIp"
    and "HasSuffix (ToLower U (TrimSuffix h ''.'')) (''.'' @ ToLower U api)"
  shows "\<exists>port. getIPForDomain U api cname h = Inr \<lparr>Addr = localIp, Port = port\<rparr>"
proof -
  define s where "s = ToLower U (TrimSuffix h ''.'')"
  have "s \<noteq> ToLower U api" using assms(3) by (auto simp: s_def HasSuffix_iff)
  with assms obtain label addr where l: "ExtractEncodedLabel U s api = (label, True)" "LookupEncodedIPPort U label = Some addr" "Addr addr = localIp"
    by (auto simp: tunnelHostPolicy_def s_def [symmetric] Let_def inSubnet_def split: prod.splits if_splits option.splits netipAddr.splits)
  then have "getIPForDomain U api cname h = Inr addr" by (simp add: getIPForDomain_def s_def [symmetric])
  with l(3) show ?thesis by (intro exI [of _ "Port addr"]) (cases addr, simp)
qed



end
