(* ===== verification/Client.thy ===== *)
theory Client
  imports Config Api Dispatch
begin

text \<open>
  The client: \<open>listener.go\<close>, the initialisation of \<open>internal/wireguard.go\<close> and the program
  \<open>tunwg/tunwg.go\<close>.

  \<open>process\<close> holds the package variables (the public key and the outcomes of the two \<open>sync.Once\<close>).
  The network stack, the WireGuard device, the HTTP client, the curve and bcrypt are outside the
  repository: they are arguments, functions of the world \<open>'w\<close> where they change it. Log lines are
  left out.
\<close>

record process =
  wgPubKey :: "wgKey option"
  wgError :: "string option option"
  handshaken :: bool
  monitoring :: bool

definition processStart :: process where
  "processStart = \<lparr>wgPubKey = None, wgError = None, handshaken = False, monitoring = False\<rparr>"

record 'w netOps =
  createTUN :: "netipAddr \<Rightarrow> 'w \<Rightarrow> string option \<times> 'w"
  deviceUp :: "'w \<Rightarrow> string option \<times> 'w"
  ipcSet :: "string \<Rightarrow> 'w \<Rightarrow> string option \<times> 'w"
  listenTCP :: "16 word \<Rightarrow> 'w \<Rightarrow> string option \<times> 'w"

section \<open>Initialisation\<close>

text \<open>\<open>privkey\<close> is the outcome of \<open>generateKey\<close>, \<open>port\<close> that of \<open>GetListenPort\<close>, \<open>pub\<close> the public key
  of a private one.\<close>

definition initializeOnce ::
  "'w netOps \<Rightarrow> (string \<Rightarrow> string) \<Rightarrow> (wgKey \<Rightarrow> wgKey) \<Rightarrow> string + wgKey \<Rightarrow> int \<Rightarrow> process \<Rightarrow> 'w \<Rightarrow> string option \<times> process \<times> 'w" where
  "initializeOnce N sha pub privkey port p w =
     (case privkey of
        Inl e \<Rightarrow> (Some e, p, w)
      | Inr key \<Rightarrow>
          let p1 = p\<lparr>wgPubKey := Some (pub key)\<rparr>
          in (case createTUN N (GetIPForKey sha (pub key)) w of
                (Some e, w1) \<Rightarrow> (Some e, p1, w1)
              | (None, w1) \<Rightarrow>
                  (case deviceUp N w1 of
                     (Some e, w2) \<Rightarrow> (Some e, p1, w2)
                   | (None, w2) \<Rightarrow>
                       (case ipcSet N (''private_key='' @ hexEncode key) w2 of
                          (Some e, w3) \<Rightarrow> (Some e, p1, w3)
                        | (None, w3) \<Rightarrow>
                            if port > 0
                            then (case ipcSet N (''listen_port='' @ showInt port) w3 of (err, w4) \<Rightarrow> (err, p1, w4))
                            else (None, p1, w3)))))"

definition Initialize ::
  "'w netOps \<Rightarrow> (string \<Rightarrow> string) \<Rightarrow> (wgKey \<Rightarrow> wgKey) \<Rightarrow> string + wgKey \<Rightarrow> int \<Rightarrow> process \<Rightarrow> 'w \<Rightarrow> string option \<times> process \<times> 'w" where
  "Initialize N sha pub privkey port p w =
     (case wgError p of
        Some r \<Rightarrow> (r, p, w)
      | None \<Rightarrow> (case initializeOnce N sha pub privkey port p w of (r, p1, w1) \<Rightarrow> (r, p1\<lparr>wgError := Some r\<rparr>, w1)))"

section \<open>Registering with the server\<close>

definition addRequest :: "codec \<Rightarrow> environ \<Rightarrow> wgKey \<Rightarrow> httpRequest" where
  "addRequest J env key =
     \<lparr>Method = ''POST'', urlPath = ''/add'', RemoteAddr = [],
      headerGet = (\<lambda>h. if h = ''Content-Type'' then ''application/json'' else if h = ''X-Authorization'' then AuthKey env else []),
      reqBody = Some (printJson J (encAddPeerReq key))\<rparr>"

definition serverPeerIpc :: "(string \<Rightarrow> string) \<Rightarrow> wgKey \<Rightarrow> string \<Rightarrow> string list" where
  "serverPeerIpc sha servKey endpoint =
     [''replace_peers=true'', ''public_key='' @ hexEncode servKey, ''endpoint='' @ endpoint,
      ''allowed_ip='' @ AddrString (GetIPForKey sha servKey) @ ''/128'', ''persistent_keepalive_interval=25'']"

text \<open>\<open>establishRelay\<close>: the outcomes of dialling, of writing the request, of reading the response, of
  opening the local socket and of reading the device; the result is the endpoint for WireGuard and the
  port the relay sends to.\<close>

definition relayDialAddr :: "environ \<Rightarrow> string" where
  "relayDialAddr env = (if TestOnlyRunLocalhost env then ''127.0.0.1'' else ApiDomain env) @ '':443''"

definition relayRequest :: "environ \<Rightarrow> httpRequest" where
  "relayRequest env =
     \<lparr>Method = ''GET'', urlPath = ''/relay'', RemoteAddr = [],
      headerGet = (\<lambda>h. if h = ''Connection'' then ''Upgrade'' else if h = ''Upgrade'' then ''udp-relay'' else []), reqBody = Some []\<rparr>"

definition establishRelay ::
  "string option \<Rightarrow> string option \<Rightarrow> string + nat \<times> string \<Rightarrow> string + string \<Rightarrow> string + wgDevice \<Rightarrow> string + string \<times> int" where
  "establishRelay dialErr writeErr response localAddr dev =
     (case dialErr of
        Some e \<Rightarrow> Inl e
      | None \<Rightarrow>
          (case writeErr of
             Some e \<Rightarrow> Inl e
           | None \<Rightarrow>
               (case response of
                  Inl e \<Rightarrow> Inl e
                | Inr (status, body) \<Rightarrow>
                    if status \<noteq> 101 then Inl (''unexpected relay status: '' @ showNat status @ '' '' @ body)
                    else (case localAddr of
                            Inl e \<Rightarrow> Inl e
                          | Inr addr \<Rightarrow> (case dev of Inl e \<Rightarrow> Inl e | Inr d \<Rightarrow> Inr (addr, ListenPort d))))))"

text \<open>\<open>addServerPeer\<close>: \<open>http\<close> performs the request and gives an error or a status with the outcome of
  reading the body, \<open>relay\<close> is \<open>establishRelay\<close>.\<close>

definition addServerPeer ::
  "codec \<Rightarrow> (string \<Rightarrow> string) \<Rightarrow> environ \<Rightarrow> wgKey \<Rightarrow> (httpRequest \<Rightarrow> 'w \<Rightarrow> (string + nat \<times> (string + string)) \<times> 'w)
   \<Rightarrow> ('w \<Rightarrow> (string + string \<times> int) \<times> 'w) \<Rightarrow> 'w netOps \<Rightarrow> 'w \<Rightarrow> string option \<times> 'w" where
  "addServerPeer J sha env key http relay N w =
     (case http (addRequest J env key) w of
        (Inl e, w1) \<Rightarrow> (Some e, w1)
      | (Inr (status, body), w1) \<Rightarrow>
          if status \<noteq> 200 then (Some (''error adding peer: '' @ showNat status), w1)
          else
            case body of
              Inl e \<Rightarrow> (Some e, w1)
            | Inr text \<Rightarrow>
                (case Option.bind (parseJson J text) decAddPeerResp of
                   None \<Rightarrow> (Some ''invalid response'', w1)
                 | Some resp \<Rightarrow>
                     (case NewKey (respKey resp) of
                        None \<Rightarrow> (Some ''incorrect key size'', w1)
                      | Some servKey \<Rightarrow>
                          if UseRelay env
                          then (case relay w1 of
                                  (Inl e, w2) \<Rightarrow> (Some e, w2)
                                | (Inr (endpoint, _), w2) \<Rightarrow> ipcSet N (joinLines (serverPeerIpc sha servKey endpoint)) w2)
                          else ipcSet N (joinLines (serverPeerIpc sha servKey (respEndpoint resp))) w1)))"

section \<open>Listeners\<close>

definition listenerPort :: "(string \<Rightarrow> string) \<Rightarrow> string \<Rightarrow> 16 word" where
  "listenerPort sha name = Uint16 (take 2 (sha name))"

definition listenerString :: "unicode \<Rightarrow> (string \<Rightarrow> string) \<Rightarrow> wgKey \<Rightarrow> 16 word \<Rightarrow> string" where
  "listenerString U sha key port = GetEncodedIPPort U \<lparr>Addr = GetLocalWgIp sha key, Port = port\<rparr>"

text \<open>\<open>init\<close> and \<open>add\<close> are \<open>Initialize\<close> and \<open>addServerPeer\<close> with everything but the state supplied.\<close>

definition startListenersOnce ::
  "(process \<Rightarrow> 'w \<Rightarrow> string option \<times> process \<times> 'w) \<Rightarrow> (wgKey \<Rightarrow> 'w \<Rightarrow> string option \<times> 'w) \<Rightarrow> process \<Rightarrow> 'w
   \<Rightarrow> string option \<times> process \<times> 'w" where
  "startListenersOnce init add p w =
     (if handshaken p then (None, p, w)
      else
        case init p w of
          (Some e, p1, w1) \<Rightarrow> (Some e, p1\<lparr>handshaken := True\<rparr>, w1)
        | (None, p1, w1) \<Rightarrow>
            (case add (case wgPubKey p1 of None \<Rightarrow> [] | Some k \<Rightarrow> k) w1 of
               (Some e, w2) \<Rightarrow> (Some e, p1\<lparr>handshaken := True\<rparr>, w2)
             | (None, w2) \<Rightarrow> (None, p1\<lparr>handshaken := True, monitoring := True\<rparr>, w2)))"

text \<open>The result is the URL that is announced, with the port that is listened on.\<close>

definition NewListener ::
  "unicode \<Rightarrow> (string \<Rightarrow> string) \<Rightarrow> environ \<Rightarrow> 'w netOps \<Rightarrow> (process \<Rightarrow> 'w \<Rightarrow> string option \<times> process \<times> 'w)
   \<Rightarrow> (wgKey \<Rightarrow> 'w \<Rightarrow> string option \<times> 'w) \<Rightarrow> string \<Rightarrow> process \<Rightarrow> 'w \<Rightarrow> (string + string \<times> 16 word) \<times> process \<times> 'w" where
  "NewListener U sha env N init add name p w =
     (case init p w of
        (Some e, p1, w1) \<Rightarrow> (Inl e, p1, w1)
      | (None, p1, w1) \<Rightarrow>
          let port = listenerPort sha name
          in (case listenTCP N port w1 of
                (Some e, w2) \<Rightarrow> (Inl e, p1, w2)
              | (None, w2) \<Rightarrow>
                  (case startListenersOnce init add p1 w2 of
                     (Some e, p2, w3) \<Rightarrow> (Inl e, p2, w3)
                   | (None, p2, w3) \<Rightarrow>
                       (Inr (''https://'' @ listenerString U sha (case wgPubKey p2 of None \<Rightarrow> [] | Some k \<Rightarrow> k) port
                               @ ''.'' @ ApiDomain env, port), p2, w3))))"

text \<open>One tick of \<open>backgroundMonitor\<close>: whether it registers again.\<close>

definition monitorTick :: "deviceError + wgDevice \<Rightarrow> time \<Rightarrow> bool" where
  "monitorTick info now =
     (case info of
        Inl _ \<Rightarrow> False
      | Inr dev \<Rightarrow>
          (case dPeers dev of [p] \<Rightarrow> Sub now (LastHandshakeTime p) > 150 * second | _ \<Rightarrow> False))"

section \<open>Client and server agree\<close>


lemma GetIPForKey_inSubnet: "8 \<le> length (sha key) \<Longrightarrow> inSubnet (GetIPForKey sha key)"
  by (simp add: GetIPForKey_def AddrFromSlice_def inSubnet_def ipv6Subnet_def)

lemma spells_printed:
  assumes "wgAddr a" and "ascii api" and "api \<noteq> []" and "last api \<noteq> CHR ''.''"
  shows "spells U api a (GetEncodedIPPort U a @ ''.'' @ api)"
proof -
  obtain h where h: "Addr a = IPv6 (ipv6Subnet @ h)" using assms(1) by (auto simp: wgAddr_def inSubnet_iff)
  let ?l = "GetEncodedIPPort U a"
  have l: "ascii ?l" "map lowerByte ?l = ?l" by (simp_all add: GetEncodedIPPort_wgAddr [OF h])
  have "\<not> HasSuffix (?l @ ''.'' @ api) ''.''" using assms(3,4) by (simp add: HasSuffix_dot)
  then have "TrimSuffix (?l @ ''.'' @ api) ''.'' = ?l @ ''.'' @ api" by (rule TrimSuffix_no)
  moreover have "ascii ''.''" "map lowerByte ''.'' = ''.''" by code_simp+
  ultimately show ?thesis using l assms(2) by (simp add: spells_def del: append.simps)
qed

text \<open>
  The URL a client announces leads to the port it listens on. The server dispatches the announced
  host to the client's tunnel address and to the very port \<open>NewListener\<close> opened for the target,
  without asking DNS, and the client may obtain the certificate for it.
\<close>

theorem announced_url_reaches_listener:
  assumes "NewListener U sha env N init add name p w = (Inr (url, port), p', w')" and "wgPubKey p' = Some key"
    and "8 \<le> length (sha key)" and "ascii (ApiDomain env)" and "last (ApiDomain env) \<noteq> CHR ''.''"
  shows "\<exists>host. url = ''https://'' @ host
    \<and> getIPForDomain U (ApiDomain env) cname host = Inr \<lparr>Addr = GetLocalWgIp sha key, Port = port\<rparr>
    \<and> tunnelHostPolicy U (ApiDomain env) (GetLocalWgIp sha key) host = None
    \<and> (\<exists>w1 w2. listenTCP N port w1 = (None, w2))"
proof -
  let ?a = "\<lparr>Addr = GetLocalWgIp sha key, Port = port\<rparr>"
  let ?h = "GetEncodedIPPort U ?a @ ''.'' @ ApiDomain env"
  have url: "url = ''https://'' @ ?h" and l: "\<exists>w1 w2. listenTCP N port w1 = (None, w2)"
    using assms(1,2) by (auto simp: NewListener_def listenerString_def Let_def split: option.splits prod.splits)
  have wg: "wgAddr ?a" using GetIPForKey_inSubnet [of sha key, OF assms(3)] by (simp add: wgAddr_def GetLocalWgIp_def)
  have ne: "ApiDomain env \<noteq> []" by (simp add: ApiDomain_def)
  note h = spelled_host [OF wg spells_printed [OF wg assms(4) ne assms(5)] assms(4) ne assms(5)]
  show ?thesis using h [where cname = cname and other = ZeroAddr] l by (intro exI [of _ ?h]) (simp add: url)
qed

text \<open>
  A failed first registration is forgotten: the \<open>Once\<close> counts it as done, so that the next call reports
  success without having registered and without a monitor.
\<close>

theorem failed_handshake_forgotten:
  assumes "startListenersOnce init add p w = (Some e, p1, w1)"
  shows "startListenersOnce init add p1 w2 = (None, p1, w2)"
  using assms by (auto simp: startListenersOnce_def split: if_splits option.splits prod.splits)

text \<open>A monitor that finds no peer, or two, does not register again, however long the connection has been lost.\<close>

lemma monitor_needs_one_peer: "monitorTick (Inr dev) now \<Longrightarrow> length (dPeers dev) = 1"
  by (simp add: monitorTick_def split: list.splits)

section \<open>Witnesses\<close>

definition exEnv :: environ where
  "exEnv = (\<lambda>v. if v = ''TUNWG_AUTH'' then ''kid'' else [])"

text \<open>A network in which every call succeeds; the world is the list of commands the device got.\<close>

definition exNet :: "string list netOps" where
  "exNet = \<lparr>createTUN = (\<lambda>_ w. (None, w)), deviceUp = (\<lambda>w. (None, w)), ipcSet = (\<lambda>s w. (None, w @ [s])), listenTCP = (\<lambda>_ w. (None, w))\<rparr>"

definition exHttp :: "httpRequest \<Rightarrow> string list \<Rightarrow> (string + nat \<times> (string + string)) \<times> string list" where
  "exHttp r w = (Inr (200, Inr ''response''), w)"


theorem announced_url_reaches_listener_witness:
  "\<exists>url port p'. NewListener exUnicode (\<lambda>s. s @ ''01234567'') exEnv exNet (\<lambda>p w. (None, p\<lparr>wgPubKey := Some ''key''\<rparr>, w)) (\<lambda>_ w. (None, w))
        ''http://localhost:80'' processStart [] = (Inr (url, port), p', [])
     \<and> (\<exists>host. url = ''https://'' @ host
         \<and> getIPForDomain exUnicode ''l.tunwg.com'' (\<lambda>_. Inl ''no DNS'') host = Inr \<lparr>Addr = GetLocalWgIp (\<lambda>s. s @ ''01234567'') ''key'', Port = port\<rparr>)"
proof -
  let ?sha = "\<lambda>s. s @ ''01234567''"
  let ?n = "NewListener exUnicode ?sha exEnv exNet (\<lambda>p w. (None, p\<lparr>wgPubKey := Some ''key''\<rparr>, w)) (\<lambda>_ w. (None, w)) ''http://localhost:80'' processStart []"
  obtain url port p' where n: "?n = (Inr (url, port), p', [])" and k: "wgPubKey p' = Some ''key''"
    by (simp add: NewListener_def exNet_def startListenersOnce_def processStart_def Let_def)
  have api: "ApiDomain exEnv = ''l.tunwg.com''" "ascii ''l.tunwg.com''" by code_simp+
  then show ?thesis using announced_url_reaches_listener [OF n k, of "\<lambda>_. Inl ''no DNS''"] n by auto
qed

end
