(* ===== verification/Relay.thy ===== *)
theory Relay
  imports Prelude
begin

text \<open>
  \<open>RelayServer\<close> of \<open>internal/relay.go\<close>, the relay of WireGuard packets over a TCP connection, which the
  server runs for \<open>/relay\<close> and the client runs when it cannot use UDP.

  Its two loops are two threads over shared sockets, so the model is a step relation: \<open>prog\<close> holds
  the steps of the program, one per system call, and \<open>netStep\<close> those of the peers and the network. The TCP connection
  delivers a stream of bytes, cut anywhere; the socket delivers datagrams. \<open>tcpGot\<close> and \<open>udpGot\<close>
  record what has arrived so far, for the theorems only.
\<close>

datatype upPc = UpLoop | UpDefer | UpDone
datatype downPc = DnLoop | DnClose | DnWait | DnReturned string

record relay =
  tcpIn :: string
  tcpGot :: string
  tcpEnd :: "string option"
  tcpBroken :: bool
  tcpOpen :: bool
  udpIn :: "string list"
  udpGot :: "string list"
  udpBroken :: bool
  udpOpen :: bool
  udpOut :: "string list"
  tcpOut :: string
  up :: upPc
  down :: downPc
  doneCh :: "string list"
  deferred :: nat

definition bufSize :: nat where "bufSize = 4096"

definition relayStart :: relay where
  "relayStart =
     \<lparr>tcpIn = [], tcpGot = [], tcpEnd = None, tcpBroken = False, tcpOpen = True, udpIn = [], udpGot = [], udpBroken = False,
      udpOpen = True, udpOut = [], tcpOut = [], up = UpLoop, down = DnLoop, doneCh = [], deferred = 0\<rparr>"

section \<open>Steps\<close>

text \<open>\<open>up\<close> is the goroutine, \<open>down\<close> the loop of the caller. Every turn of the goroutine defers one more
  \<open>udpConn.Close\<close>; they run after the error has been sent on \<open>doneCh\<close>.\<close>

inductive prog :: "relay \<Rightarrow> relay \<Rightarrow> bool" where
  up_forward: "up s = UpLoop \<Longrightarrow> tcpOpen s \<Longrightarrow> udpOpen s \<Longrightarrow> \<not> udpBroken s \<Longrightarrow> 0 < n \<Longrightarrow> n \<le> bufSize \<Longrightarrow> n \<le> length (tcpIn s) \<Longrightarrow>
    prog s (s\<lparr>tcpIn := drop n (tcpIn s), udpOut := udpOut s @ [take n (tcpIn s)], deferred := Suc (deferred s)\<rparr>)"
| up_read_fails: "up s = UpLoop \<Longrightarrow> \<not> tcpOpen s \<and> err = ''closed'' \<or> tcpIn s = [] \<and> tcpEnd s = Some err \<Longrightarrow>
    prog s (s\<lparr>up := UpDefer, doneCh := [err], deferred := Suc (deferred s)\<rparr>)"
| up_write_fails: "up s = UpLoop \<Longrightarrow> tcpOpen s \<Longrightarrow> \<not> udpOpen s \<or> udpBroken s \<Longrightarrow> 0 < n \<Longrightarrow> n \<le> bufSize \<Longrightarrow> n \<le> length (tcpIn s) \<Longrightarrow>
    prog s (s\<lparr>tcpIn := drop n (tcpIn s), up := UpDefer, doneCh := [err], deferred := Suc (deferred s)\<rparr>)"
| up_deferred: "up s = UpDefer \<Longrightarrow> prog s (s\<lparr>up := UpDone, udpOpen := False, deferred := 0\<rparr>)"
| down_forward: "down s = DnLoop \<Longrightarrow> udpOpen s \<Longrightarrow> udpIn s = d # ds \<Longrightarrow> tcpOpen s \<Longrightarrow> \<not> tcpBroken s \<Longrightarrow>
    prog s (s\<lparr>udpIn := ds, tcpOut := tcpOut s @ take bufSize d\<rparr>)"
| down_read_fails: "down s = DnLoop \<Longrightarrow> \<not> udpOpen s \<or> udpBroken s \<Longrightarrow> prog s (s\<lparr>down := DnClose\<rparr>)"
| down_write_fails: "down s = DnLoop \<Longrightarrow> udpOpen s \<Longrightarrow> udpIn s = d # ds \<Longrightarrow> \<not> tcpOpen s \<or> tcpBroken s \<Longrightarrow>
    prog s (s\<lparr>udpIn := ds, down := DnClose\<rparr>)"
| down_close: "down s = DnClose \<Longrightarrow> prog s (s\<lparr>tcpOpen := False, down := DnWait\<rparr>)"
| down_return: "down s = DnWait \<Longrightarrow> doneCh s = [err] \<Longrightarrow> prog s (s\<lparr>down := DnReturned err, doneCh := []\<rparr>)"

inductive netStep :: "relay \<Rightarrow> relay \<Rightarrow> bool" where
  tcp_bytes: "tcpEnd s = None \<Longrightarrow> netStep s (s\<lparr>tcpIn := tcpIn s @ bs, tcpGot := tcpGot s @ bs\<rparr>)"
| tcp_ends: "netStep s (s\<lparr>tcpEnd := Some err\<rparr>)"
| tcp_breaks: "netStep s (s\<lparr>tcpBroken := True\<rparr>)"
| udp_datagram: "netStep s (s\<lparr>udpIn := udpIn s @ [d], udpGot := udpGot s @ [d]\<rparr>)"
| udp_breaks: "netStep s (s\<lparr>udpBroken := True\<rparr>)"

definition relay_step :: "relay \<Rightarrow> relay \<Rightarrow> bool" where
  "relay_step s s' \<longleftrightarrow> prog s s' \<or> netStep s s'"

inductive_cases prog_elim: "prog s s'"
inductive_cases env_elim: "netStep s s'"

section \<open>Invariant\<close>

definition upWf :: "relay \<Rightarrow> bool" where
  "upWf s \<longleftrightarrow> (up s = UpLoop \<longrightarrow> udpOpen s \<and> doneCh s = [] \<and> deferred s = length (udpOut s) \<and> concat (udpOut s) @ tcpIn s = tcpGot s)
     \<and> (up s = UpDone \<longrightarrow> \<not> udpOpen s)
     \<and> (\<exists>rest. concat (udpOut s) @ rest = tcpGot s) \<and> list_all (\<lambda>d. d \<noteq> [] \<and> length d \<le> bufSize) (udpOut s)"

definition downWf :: "relay \<Rightarrow> bool" where
  "downWf s \<longleftrightarrow> (down s = DnLoop \<or> down s = DnClose \<longrightarrow> tcpOpen s) \<and> (down s = DnWait \<longrightarrow> \<not> tcpOpen s)
     \<and> (case down s of DnReturned err \<Rightarrow> \<not> tcpOpen s \<and> up s \<noteq> UpLoop | _ \<Rightarrow> up s \<noteq> UpLoop \<longrightarrow> (\<exists>err. doneCh s = [err]))"

definition downData :: "relay \<Rightarrow> bool" where
  "downData s \<longleftrightarrow> (\<exists>ds rest. ds @ rest = udpGot s \<and> tcpOut s = concat (map (take bufSize) ds) \<and> (down s = DnLoop \<longrightarrow> rest = udpIn s))"

lemma upWf_step: "upWf s \<Longrightarrow> relay_step s s' \<Longrightarrow> upWf s'"
  unfolding relay_step_def
proof (erule disjE)
  assume wf: "upWf s" and "prog s s'"
  from this(2) show "upWf s'"
  proof cases
    case (up_forward n)
    have "concat (udpOut s) @ take n (tcpIn s) @ drop n (tcpIn s) = tcpGot s" using wf up_forward(2) by (simp add: upWf_def)
    moreover have "take n (tcpIn s) \<noteq> []" "length (take n (tcpIn s)) \<le> bufSize" using up_forward by auto
    ultimately show ?thesis using wf up_forward(2) unfolding up_forward(1) upWf_def by (auto intro: exI [of _ "drop n (tcpIn s)"])
  qed (use wf in \<open>auto simp: upWf_def\<close>)
next
  assume wf: "upWf s" and "netStep s s'"
  from this(2) show "upWf s'"
  proof cases
    case (tcp_bytes bs)
    obtain rest where "concat (udpOut s) @ rest = tcpGot s" using wf by (auto simp: upWf_def)
    then have "concat (udpOut s) @ rest @ bs = tcpGot s @ bs" by (metis append_assoc)
    then have "\<exists>rest. concat (udpOut s) @ rest = tcpGot s @ bs" by blast
    then show ?thesis using wf unfolding tcp_bytes(1) upWf_def by (auto simp: append_assoc [symmetric] simp del: append_assoc)
  qed (use wf in \<open>auto simp: upWf_def\<close>)
qed

lemma downWf_step: "downWf s \<Longrightarrow> upWf s \<Longrightarrow> relay_step s s' \<Longrightarrow> downWf s'"
  unfolding relay_step_def
proof (erule disjE)
  assume wf: "downWf s" "upWf s" and "prog s s'"
  from this(3) show "downWf s'"
    by cases (use wf in \<open>auto simp: downWf_def upWf_def split: downPc.splits\<close>)
next
  assume wf: "downWf s" and "netStep s s'"
  from this(2) show "downWf s'"
    by cases (use wf in \<open>auto simp: downWf_def split: downPc.splits\<close>)
qed

lemma downData_step: "downData s \<Longrightarrow> relay_step s s' \<Longrightarrow> downData s'"
  unfolding relay_step_def
proof (erule disjE)
  assume wf: "downData s" and "prog s s'"
  then obtain xs rest where xs: "xs @ rest = udpGot s" "tcpOut s = concat (map (take bufSize) xs)" "down s = DnLoop \<longrightarrow> rest = udpIn s"
    by (auto simp: downData_def)
  from \<open>prog s s'\<close> show "downData s'"
  proof cases
    case (down_forward d ds)
    then have "(xs @ [d]) @ ds = udpGot s" "tcpOut s @ take bufSize d = concat (map (take bufSize) (xs @ [d]))"
      using xs by simp_all
    then show ?thesis unfolding down_forward(1) downData_def by (intro exI [of _ "xs @ [d]"] exI [of _ ds]) simp
  qed (use xs in \<open>auto simp: downData_def\<close>)
next
  assume wf: "downData s" and "netStep s s'"
  then obtain xs rest where xs: "xs @ rest = udpGot s" "tcpOut s = concat (map (take bufSize) xs)" "down s = DnLoop \<longrightarrow> rest = udpIn s"
    by (auto simp: downData_def)
  from \<open>netStep s s'\<close> show "downData s'"
  proof cases
    case (udp_datagram d)
    then show ?thesis using xs unfolding udp_datagram(1) downData_def by (intro exI [of _ xs] exI [of _ "rest @ [d]"]) (simp add: append_assoc [symmetric] del: append_assoc)
  qed (use xs in \<open>auto simp: downData_def\<close>)
qed

interpretation relay: invariant_system "\<lambda>s. s = relayStart" relay_step "\<lambda>s. upWf s \<and> downWf s \<and> downData s"
proof
  fix s t
  show "s = relayStart \<Longrightarrow> upWf s \<and> downWf s \<and> downData s" by (simp add: relayStart_def upWf_def downWf_def downData_def)
  show "upWf s \<and> downWf s \<and> downData s \<Longrightarrow> relay_step s t \<Longrightarrow> upWf t \<and> downWf t \<and> downData t"
    using upWf_step downWf_step downData_step by blast
qed

section \<open>Properties\<close>


text \<open>The steps of the program count down: bytes and datagrams that wait, then what is left of the two loops.\<close>

definition upLeft :: "upPc \<Rightarrow> nat" where
  "upLeft p = (case p of UpLoop \<Rightarrow> 2 | UpDefer \<Rightarrow> 1 | UpDone \<Rightarrow> 0)"

definition downLeft :: "downPc \<Rightarrow> nat" where
  "downLeft p = (case p of DnLoop \<Rightarrow> 3 | DnClose \<Rightarrow> 2 | DnWait \<Rightarrow> 1 | DnReturned _ \<Rightarrow> 0)"

definition workLeft :: "relay \<Rightarrow> nat" where
  "workLeft s = length (tcpIn s) + length (udpIn s) + upLeft (up s) + downLeft (down s)"

lemma prog_decreases: "prog s s' \<Longrightarrow> workLeft s' < workLeft s"
  by (erule prog_elim) (simp_all add: workLeft_def upLeft_def downLeft_def)


text \<open>
  As long as the relay runs, the goroutine holds one deferred \<open>Close\<close> for every packet it has
  forwarded: the number of deferred calls grows with the traffic and is given back only at the end.
\<close>

theorem relay_defers_per_packet:
  assumes "reach (\<lambda>s. s = relayStart) relay_step s" and "up s = UpLoop"
  shows "deferred s = length (udpOut s)"
  using relay.reach_inv [OF assms(1)] assms(2) by (simp add: upWf_def)

section \<open>Witnesses\<close>

text \<open>Two packets sent as one segment come out as one datagram; then the peer closes.\<close>

definition exGot :: relay where "exGot = relayStart\<lparr>tcpIn := ''aabb'', tcpGot := ''aabb''\<rparr>"
definition exSent :: relay where "exSent = exGot\<lparr>tcpIn := [], udpOut := [''aabb''], deferred := 1\<rparr>"
definition exFailed :: relay where "exFailed = exSent\<lparr>tcpEnd := Some ''EOF'', up := UpDefer, doneCh := [''EOF''], deferred := 2\<rparr>"

lemma exSent_reach: "reach (\<lambda>s. s = relayStart) relay_step exSent"
proof -
  have "relay_step relayStart exGot"
    using netStep.tcp_bytes [of relayStart "''aabb''"] by (simp add: relay_step_def exGot_def relayStart_def)
  then have "reach (\<lambda>s. s = relayStart) relay_step exGot" by (intro reach_step [OF reach_start]) simp_all
  moreover have "relay_step exGot exSent"
    using prog.up_forward [of exGot 4] by (simp add: relay_step_def exGot_def exSent_def relayStart_def bufSize_def)
  ultimately show ?thesis by (rule reach_step)
qed

lemma exFailed_reach: "reach (\<lambda>s. s = relayStart) relay_step exFailed"
proof -
  have "relay_step exSent (exSent\<lparr>tcpEnd := Some ''EOF''\<rparr>)" by (simp add: relay_step_def netStep.tcp_ends)
  with exSent_reach have "reach (\<lambda>s. s = relayStart) relay_step (exSent\<lparr>tcpEnd := Some ''EOF''\<rparr>)" by (rule reach_step)
  moreover have "relay_step (exSent\<lparr>tcpEnd := Some ''EOF''\<rparr>) exFailed"
    using prog.up_read_fails [of "exSent\<lparr>tcpEnd := Some ''EOF''\<rparr>" "''EOF''"]
    by (simp add: relay_step_def exFailed_def exSent_def exGot_def relayStart_def numeral_2_eq_2)
  ultimately show ?thesis by (rule reach_step)
qed



theorem relay_defers_per_packet_witness: "deferred exSent = length (udpOut exSent)"
  by (rule relay_defers_per_packet [OF exSent_reach]) (simp add: exSent_def exGot_def relayStart_def)

end
