(* ===== verification/Program.thy ===== *)
theory Program
  imports Client SniRoutes Relay
begin

text \<open>
  The two programs: \<open>main\<close> and the password check of \<open>tunwg/tunwg.go\<close>, the start-up sequence
  \<open>tunwgServer\<close> of \<open>tunwg/tunwgs.go\<close>, and the controller it runs on (\<open>globalAccess\<close> of
  \<open>tunwg/access_store.go\<close>).
\<close>

section \<open>Arguments\<close>

text \<open>\<open>forwardFlag\<close> and \<open>portFlag\<close> are the values of the flags \<open>-forward\<close> and \<open>-p\<close> in the arguments that
  are left. A client forwards to its targets, with the environment it continues in.\<close>

datatype runMode = RunServer environ | RunClient "string list" environ | Fatal string

definition setenv :: "environ \<Rightarrow> string \<Rightarrow> string \<Rightarrow> environ" where
  "setenv env name value = env(name := value)"

definition clientTargets :: "string \<Rightarrow> nat \<Rightarrow> environ \<Rightarrow> runMode" where
  "clientTargets forwardFlag portFlag env =
     (if (forwardFlag = []) = (portFlag = 0)
      then Fatal ''specify one of port to forward (-p) or urls to forward (--forward)''
      else if portFlag > 0
      then RunClient [''http://localhost:'' @ showNat portFlag]
             (if env ''TUNWG_KEY'' = [] then setenv env ''TUNWG_KEY'' (CHR ''p'' # showNat portFlag) else env)
      else RunClient (Split forwardFlag CHR '','') env)"

definition main :: "(string list \<Rightarrow> string \<times> nat) \<Rightarrow> string list \<Rightarrow> environ \<Rightarrow> runMode" where
  "main flags args env =
     (let client = (\<lambda>as. case flags as of (forwardFlag, portFlag) \<Rightarrow> clientTargets forwardFlag portFlag env)
      in if env ''TUNWG_RUN_SERVER'' = ''true'' then RunServer env
         else if length args > 1 \<and> (args ! 1 = ''tunwgs'' \<or> args ! 1 = ''/bin/tunwgs'')
         then RunServer (if env ''TUNWG_KEY'' = [] then setenv env ''TUNWG_KEY'' ''tunwgs'' else env)
         else if length args > 1 \<and> args ! 1 = ''tunwg'' then client (take 1 args @ drop 2 args)
         else client args)"

text \<open>The loop of a client over its targets; \<open>listen\<close> is \<open>NewListener\<close>, an error is a call of \<open>fatal\<close>.\<close>

fun startTargets ::
  "(string \<Rightarrow> process \<Rightarrow> 'w \<Rightarrow> (string + string \<times> 16 word) \<times> process \<times> 'w) \<Rightarrow> string list \<Rightarrow> process \<Rightarrow> 'w
   \<Rightarrow> (string + (string \<times> 16 word) list) \<times> process \<times> 'w" where
  "startTargets listen [] p w = (Inr [], p, w)"
| "startTargets listen (t # ts) p w =
     (case listen t p w of
        (Inl e, p1, w1) \<Rightarrow> (Inl e, p1, w1)
      | (Inr u, p1, w1) \<Rightarrow>
          (case startTargets listen ts p1 w1 of
             (Inl e, p2, w2) \<Rightarrow> (Inl e, p2, w2)
           | (Inr us, p2, w2) \<Rightarrow> (Inr (u # us), p2, w2)))"

section \<open>The password check\<close>

text \<open>\<open>bcrypt hash password\<close> says whether \<open>CompareHashAndPassword\<close> succeeds. \<open>Inl\<close> is the call of \<open>fatal\<close>,
  \<open>Inr None\<close> the missing validator.\<close>

definition authValidator :: "(string \<Rightarrow> string \<Rightarrow> bool) \<Rightarrow> string \<Rightarrow> string + (string \<Rightarrow> string \<Rightarrow> bool) option" where
  "authValidator bcrypt limit =
     (if limit = [] then Inr None
      else
        let (euser, epass, found) = Cut limit CHR '':''
        in if \<not> found then Inl ''invalid value for --limit. Use htpasswd format''
           else if HasPrefix epass ''$2'' then Inr (Some (\<lambda>username password. username = euser \<and> bcrypt epass password))
           else Inr (Some (\<lambda>username password. username = euser \<and> password = epass)))"

text \<open>A request as \<open>RoundTrip\<close> sees it: the client address, the credentials of basic authentication, and
  the two readings of the clock.\<close>

record trip =
  forwardedFor :: string
  basicAuth :: "(string \<times> string) option"
  checkedAt :: time
  passedAt :: time

definition freshPass :: "duration \<Rightarrow> (string, time) gomap \<Rightarrow> trip \<Rightarrow> bool" where
  "freshPass limitOncePerIP ipValid r \<longleftrightarrow> forwardedFor r \<noteq> [] \<and> limitOncePerIP \<noteq> 0
     \<and> (case map_of ipValid (forwardedFor r) of None \<Rightarrow> False | Some pass \<Rightarrow> Before (checkedAt r) (pass + limitOncePerIP))"

definition loggedIn :: "(string \<Rightarrow> string \<Rightarrow> bool) \<Rightarrow> trip \<Rightarrow> bool" where
  "loggedIn validator r \<longleftrightarrow> (case basicAuth r of None \<Rightarrow> False | Some (user, pass) \<Rightarrow> validator user pass)"

text \<open>\<open>True\<close> is a request that is passed on, \<open>False\<close> the answer 401.\<close>

definition RoundTrip ::
  "(string \<Rightarrow> string \<Rightarrow> bool) \<Rightarrow> duration \<Rightarrow> trip \<Rightarrow> (string, time) gomap \<Rightarrow> bool \<times> (string, time) gomap" where
  "RoundTrip validator limitOncePerIP r ipValid =
     (if freshPass limitOncePerIP ipValid r then (True, ipValid)
      else if \<not> loggedIn validator r then (False, ipValid)
      else (True, if forwardedFor r \<noteq> [] \<and> limitOncePerIP \<noteq> 0 then put ipValid (forwardedFor r) (passedAt r) else ipValid))"

fun serveTrips ::
  "(string \<Rightarrow> string \<Rightarrow> bool) \<Rightarrow> duration \<Rightarrow> trip list \<Rightarrow> (string, time) gomap \<Rightarrow> (trip \<times> bool) list" where
  "serveTrips validator limit [] m = []"
| "serveTrips validator limit (r # rs) m =
     (case RoundTrip validator limit r m of (ok, m') \<Rightarrow> (r, ok) # serveTrips validator limit rs m')"

text \<open>An entry of the map is the time of a login from that address.\<close>

definition passesFrom :: "(string \<Rightarrow> string \<Rightarrow> bool) \<Rightarrow> trip list \<Rightarrow> (string, time) gomap \<Rightarrow> bool" where
  "passesFrom validator past m \<longleftrightarrow>
     (\<forall>ip t. map_of m ip = Some t \<longrightarrow> (\<exists>r\<in>set past. forwardedFor r = ip \<and> passedAt r = t \<and> loggedIn validator r))"

lemma serveTrips_justified:
  assumes "passesFrom validator past m" and "serveTrips validator limit rs m = xs @ (r, True) # ys"
  shows "loggedIn validator r \<or> forwardedFor r \<noteq> [] \<and> limit \<noteq> 0
    \<and> (\<exists>r0\<in>set (past @ map fst xs). forwardedFor r0 = forwardedFor r \<and> loggedIn validator r0 \<and> checkedAt r < passedAt r0 + limit)"
  using assms
proof (induction rs arbitrary: past m xs)
  case (Cons q rs)
  obtain ok m' where q: "RoundTrip validator limit q m = (ok, m')" by fastforce
  show ?case
  proof (cases xs)
    case Nil
    then have "q = r" "ok" using Cons.prems(2) q by simp_all
    then show ?thesis
      using q Cons.prems(1) Nil by (auto simp: RoundTrip_def freshPass_def passesFrom_def Before_def split: if_splits option.splits)
  next
    case (Cons x xs')
    have "passesFrom validator (past @ [q]) m'"
      using q \<open>passesFrom validator past m\<close> by (auto simp: RoundTrip_def passesFrom_def split: if_splits) blast+
    moreover have "x = (q, ok)" "serveTrips validator limit rs m' = xs' @ (r, True) # ys"
      using \<open>serveTrips validator limit (q # rs) m = xs @ (r, True) # ys\<close> q Cons by simp_all
    ultimately show ?thesis using Cons.IH [of "past @ [q]" m' xs'] Cons by simp
  qed
qed simp

text \<open>
  Behind a password, a request is passed on only when it carries valid credentials itself, or when
  the once-per-address mode is on and an earlier request of the same run, from the same address,
  carried valid credentials less than the configured time before.
\<close>

theorem password_guards_requests:
  assumes "serveTrips validator limit rs [] = xs @ (r, True) # ys"
  shows "loggedIn validator r \<or> forwardedFor r \<noteq> [] \<and> limit \<noteq> 0
    \<and> (\<exists>r0\<in>set (map fst xs). forwardedFor r0 = forwardedFor r \<and> loggedIn validator r0 \<and> checkedAt r < passedAt r0 + limit)"
  using serveTrips_justified [of validator "[]" "[]", OF _ assms] by (simp add: passesFrom_def)

theorem password_guards_requests_witness:
  "let login = \<lparr>forwardedFor = ''192.0.2.5'', basicAuth = Some (''u'', ''p''), checkedAt = 10, passedAt = 11\<rparr>;
       later = \<lparr>forwardedFor = ''192.0.2.5'', basicAuth = None, checkedAt = 20, passedAt = 20\<rparr>;
       validator = (\<lambda>u p. u = ''u'' \<and> p = ''p'')
   in serveTrips validator 60 [login, later] [] = [(login, True), (later, True)]
     \<and> (\<exists>r0\<in>set [login]. loggedIn validator r0 \<and> checkedAt later < passedAt r0 + 60)"
proof -
  define login where "login = \<lparr>forwardedFor = ''192.0.2.5'', basicAuth = Some (''u'', ''p''), checkedAt = 10, passedAt = 11\<rparr>"
  define later where "later = \<lparr>forwardedFor = ''192.0.2.5'', basicAuth = None, checkedAt = 20, passedAt = 20\<rparr>"
  let ?v = "\<lambda>u p. u = ''u'' \<and> p = ''p''"
  have s: "serveTrips ?v 60 [login, later] [] = [(login, True)] @ (later, True) # []"
    by (simp add: login_def later_def RoundTrip_def freshPass_def loggedIn_def Before_def put_def del_def)
  from password_guards_requests [OF s] have "\<exists>r0\<in>set [login]. loggedIn ?v r0 \<and> checkedAt later < passedAt r0 + 60"
    by (auto simp: loggedIn_def later_def)
  with s show ?thesis by (simp add: login_def later_def)
qed

section \<open>The proxy of a client\<close>

text \<open>
  The reverse proxy a client runs for each target. Headers are lists of values under canonical names.
  \<open>prepare\<close> is what \<open>httputil.ReverseProxy\<close> does to the headers of a request first (the
  hop-by-hop headers); it then drops the forwarding headers of the caller, since \<open>Rewrite\<close> is set.
  \<open>transport\<close> is \<open>http.DefaultTransport.RoundTrip\<close>.
\<close>

type_synonym headers = "(string, string list) gomap"

record proxyRequest =
  urlScheme :: string
  urlHost :: string
  urlRest :: string
  reqHost :: string
  remoteAddr :: string
  overTLS :: bool
  reqHeaders :: headers

definition headerValue :: "headers \<Rightarrow> string \<Rightarrow> string" where
  "headerValue h name = (case map_of h name of Some (v # _) \<Rightarrow> v | _ \<Rightarrow> [])"

definition SetXForwarded :: "proxyRequest \<Rightarrow> headers \<Rightarrow> headers" where
  "SetXForwarded q h =
     (let h1 = (case SplitHostPort (remoteAddr q) of
                  None \<Rightarrow> del h ''X-Forwarded-For''
                | Some (ip, _) \<Rightarrow>
                    put h ''X-Forwarded-For''
                      [case map_of h ''X-Forwarded-For'' of
                         Some (p # prior) \<Rightarrow> concat (p # map (\<lambda>x. '', '' @ x) prior) @ '', '' @ ip
                       | _ \<Rightarrow> ip])
      in put (put h1 ''X-Forwarded-Host'' [reqHost q]) ''X-Forwarded-Proto'' [if overTLS q then ''https'' else ''http''])"

text \<open>\<open>upstream\<close> is the scheme and the host of the URL forwarded to.\<close>

definition rewrite :: "string \<times> string \<Rightarrow> (headers \<Rightarrow> headers) \<Rightarrow> proxyRequest \<Rightarrow> proxyRequest" where
  "rewrite upstream prepare q =
     (let dropped = foldl del (prepare (reqHeaders q)) [''Forwarded'', ''X-Forwarded-For'', ''X-Forwarded-Host'', ''X-Forwarded-Proto'']
      in q\<lparr>urlScheme := fst upstream, urlHost := snd upstream, reqHeaders := SetXForwarded q dropped\<rparr>)"

definition BasicAuth :: "headers \<Rightarrow> (string \<times> string) option" where
  "BasicAuth h =
     (let auth = headerValue h ''Authorization''
      in if map lowerByte (take 6 auth) \<noteq> ''basic '' then None
         else (case b64Decode (drop 6 auth) of
                 None \<Rightarrow> None
               | Some c \<Rightarrow> (case Cut c CHR '':'' of (user, pass, ok) \<Rightarrow> if ok then Some (user, pass) else None)))"

definition tripOf :: "proxyRequest \<Rightarrow> time \<times> time \<Rightarrow> trip" where
  "tripOf out clock =
     \<lparr>forwardedFor = headerValue (reqHeaders out) ''X-Forwarded-For'', basicAuth = BasicAuth (reqHeaders out),
      checkedAt = fst clock, passedAt = snd clock\<rparr>"

definition unauthorized :: httpResponse where
  "unauthorized = \<lparr>statusCode = 401, respHeader = [(''WWW-Authenticate'', ''Basic realm=access'')], respBody = ''Unauthorized''\<rparr>"

definition badGateway :: httpResponse where
  "badGateway = \<lparr>statusCode = 502, respHeader = [], respBody = ''Invalid response from forwarded server''\<rparr>"

text \<open>The answer, and the request the target was sent, if any.\<close>

definition proxyHandler ::
  "(string \<Rightarrow> string \<Rightarrow> bool) option \<Rightarrow> duration \<Rightarrow> string \<times> string \<Rightarrow> (headers \<Rightarrow> headers)
   \<Rightarrow> (proxyRequest \<Rightarrow> 'w \<Rightarrow> (string + httpResponse) \<times> 'w) \<Rightarrow> proxyRequest \<Rightarrow> time \<times> time \<Rightarrow> (string, time) gomap \<Rightarrow> 'w
   \<Rightarrow> httpResponse \<times> proxyRequest option \<times> (string, time) gomap \<times> 'w" where
  "proxyHandler validator limit upstream prepare transport q clock m w =
     (let out = rewrite upstream prepare q;
          (ok, m1) = (case validator of None \<Rightarrow> (True, m) | Some v \<Rightarrow> RoundTrip v limit (tripOf out clock) m)
      in if \<not> ok then (unauthorized, None, m1, w)
         else (case transport out w of
                 (Inl _, w1) \<Rightarrow> (badGateway, Some out, m1, w1)
               | (Inr resp, w1) \<Rightarrow> (resp, Some out, m1, w1)))"

fun serveProxy ::
  "(string \<Rightarrow> string \<Rightarrow> bool) option \<Rightarrow> duration \<Rightarrow> string \<times> string \<Rightarrow> (headers \<Rightarrow> headers)
   \<Rightarrow> (proxyRequest \<Rightarrow> 'w \<Rightarrow> (string + httpResponse) \<times> 'w) \<Rightarrow> (proxyRequest \<times> time \<times> time) list \<Rightarrow> (string, time) gomap \<Rightarrow> 'w
   \<Rightarrow> ((proxyRequest \<times> time \<times> time) \<times> httpResponse \<times> proxyRequest option) list" where
  "serveProxy validator limit upstream prepare transport [] m w = []"
| "serveProxy validator limit upstream prepare transport (e # es) m w =
     (case proxyHandler validator limit upstream prepare transport (fst e) (snd e) m w of
        (resp, sent, m1, w1) \<Rightarrow> (e, resp, sent) # serveProxy validator limit upstream prepare transport es m1 w1)"

text \<open>
  In the test mode on one machine, \<open>enableLocahostServerTesting\<close> replaces the transport by one that dials the API
  domain at the local address. \<open>ReplaceAll\<close> is Go's for a text to replace that is not empty, as no API domain is.
\<close>

function ReplaceAll :: "string \<Rightarrow> string \<Rightarrow> string \<Rightarrow> string" where
  "ReplaceAll s old new =
     (if old \<noteq> [] \<and> HasPrefix s old then new @ ReplaceAll (drop (length old) s) old new
      else case s of [] \<Rightarrow> [] | c # s' \<Rightarrow> c # ReplaceAll s' old new)"
  by pat_completeness auto
termination
proof (relation "measure (\<lambda>(s, old, new). length s)")
  fix s old new :: string
  assume "old \<noteq> [] \<and> HasPrefix s old"
  then have "0 < length old" "length old \<le> length s" by (simp_all add: HasPrefix_def)
  then have "length s - length old < length s" by linarith
  then show "((drop (length old) s, old, new), s, old, new) \<in> measure (\<lambda>(s, old, new). length s)" by simp
qed simp_all

declare ReplaceAll.simps [simp del]

definition localDialAddr :: "environ \<Rightarrow> string \<Rightarrow> string" where
  "localDialAddr env addr = ReplaceAll addr (ApiDomain env) ''127.0.0.1''"

lemma localDialAddr_api: "localDialAddr env (ApiDomain env @ rest) = ''127.0.0.1'' @ localDialAddr env rest"
proof -
  have "ApiDomain env \<noteq> []" by (simp add: ApiDomain_def)
  then show ?thesis by (simp add: localDialAddr_def ReplaceAll.simps [of "ApiDomain env @ rest"] HasPrefix_def)
qed

text \<open>
  The rest of \<open>main\<close> for a client: the password check is made before any listener is opened, and every listener
  serves behind it, with \<open>proxyHandler\<close>. \<open>listen\<close> is \<open>NewListener\<close> in the environment the client continues in.
\<close>

definition clientProgram ::
  "(string \<Rightarrow> string \<Rightarrow> bool) \<Rightarrow> string \<Rightarrow> (environ \<Rightarrow> string \<Rightarrow> process \<Rightarrow> 'w \<Rightarrow> (string + string \<times> 16 word) \<times> process \<times> 'w)
   \<Rightarrow> string list \<Rightarrow> environ \<Rightarrow> 'w
   \<Rightarrow> (string + (string \<times> 16 word) list \<times> (string \<Rightarrow> string \<Rightarrow> bool) option) \<times> process \<times> 'w" where
  "clientProgram bcrypt limit listen targets env w =
     (case authValidator bcrypt limit of
        Inl e \<Rightarrow> (Inl e, processStart, w)
      | Inr validator \<Rightarrow>
          (case startTargets (listen env) targets processStart w of
             (Inl e, p1, w1) \<Rightarrow> (Inl e, p1, w1)
           | (Inr listeners, p1, w1) \<Rightarrow> (Inr (listeners, validator), p1, w1)))"

text \<open>A client that was given a limit never serves without a check; one with a malformed limit opens nothing.\<close>

lemma clientProgram_guarded:
  "clientProgram bcrypt limit listen targets env w = (Inr (listeners, validator), p, w') \<Longrightarrow> limit \<noteq> [] \<Longrightarrow> validator \<noteq> None"
  "limit \<noteq> [] \<Longrightarrow> CHR '':'' \<notin> set limit \<Longrightarrow> snd (snd (clientProgram bcrypt limit listen targets env w)) = w"
  by (auto simp: clientProgram_def authValidator_def Cut_def Let_def split: sum.splits prod.splits if_splits)

text \<open>Who sent a request, by its connection, and whether it carries valid credentials.\<close>

definition sender :: "proxyRequest \<Rightarrow> string" where
  "sender q = (case SplitHostPort (remoteAddr q) of None \<Rightarrow> [] | Some (ip, _) \<Rightarrow> ip)"

definition entitled :: "(string \<Rightarrow> string \<Rightarrow> bool) \<Rightarrow> (headers \<Rightarrow> headers) \<Rightarrow> proxyRequest \<Rightarrow> bool" where
  "entitled v prepare q \<longleftrightarrow> (case BasicAuth (prepare (reqHeaders q)) of None \<Rightarrow> False | Some (user, pass) \<Rightarrow> v user pass)"

lemma headerValue_put:
  "headerValue (put h k [x]) name = (if name = k then x else headerValue h name)"
  by (simp add: headerValue_def map_of_put)

lemma headerValue_del: "headerValue (del h k) name = (if name = k then [] else headerValue h name)"
  by (simp add: headerValue_def map_of_del)

lemma SetXForwarded_headers:
  "headerValue (SetXForwarded q h) ''Authorization'' = headerValue h ''Authorization''"
  "map_of h ''X-Forwarded-For'' = None \<Longrightarrow> headerValue (SetXForwarded q h) ''X-Forwarded-For'' = sender q"
  by (cases "SplitHostPort (remoteAddr q)";
      auto simp: SetXForwarded_def sender_def headerValue_put headerValue_del split: option.splits list.splits)+

lemma rewrite_headers:
  "headerValue (reqHeaders (rewrite upstream prepare q)) ''Authorization'' = headerValue (prepare (reqHeaders q)) ''Authorization''"
  "headerValue (reqHeaders (rewrite upstream prepare q)) ''X-Forwarded-For'' = sender q"
  by (simp_all add: rewrite_def SetXForwarded_headers headerValue_del map_of_del)

lemma tripOf_rewrite:
  "forwardedFor (tripOf (rewrite upstream prepare q) clock) = sender q"
  "loggedIn v (tripOf (rewrite upstream prepare q) clock) = entitled v prepare q"
  by (simp_all add: tripOf_def rewrite_headers loggedIn_def entitled_def BasicAuth_def)

lemma serveProxy_trips:
  "map (\<lambda>(e, resp, sent). (tripOf (rewrite upstream prepare (fst e)) (snd e), sent \<noteq> None))
     (serveProxy (Some v) limit upstream prepare transport es m w)
   = serveTrips v limit (map (\<lambda>e. tripOf (rewrite upstream prepare (fst e)) (snd e)) es) m"
  by (induction es arbitrary: m w) (auto simp: proxyHandler_def Let_def split: prod.splits sum.splits)

lemma serveProxy_sent:
  "(e, resp, Some out) \<in> set (serveProxy v limit upstream prepare transport es m w) \<Longrightarrow> out = rewrite upstream prepare (fst e)"
  by (induction es arbitrary: m w) (auto simp: proxyHandler_def Let_def split: prod.splits sum.splits if_splits)

text \<open>
  C29: behind a password the target of a client hears only from those who know it. A request that reaches
  it goes to the configured scheme and host and names the address it really came from, whatever
  forwarding headers its sender chose; and it carries valid credentials itself, or, with the
  once-per-address mode on, the same address has sent valid credentials less than the configured time
  before, in a request this run has already served.
\<close>

theorem proxy_guards_target:
  assumes "serveProxy (Some v) limit upstream prepare transport es [] w = xs @ (e, resp, Some out) # ys"
  shows "(urlScheme out, urlHost out) = upstream \<and> urlRest out = urlRest (fst e)
    \<and> headerValue (reqHeaders out) ''X-Forwarded-For'' = sender (fst e)
    \<and> (entitled v prepare (fst e)
       \<or> sender (fst e) \<noteq> [] \<and> limit \<noteq> 0
         \<and> (\<exists>e0\<in>set (map fst xs). sender (fst e0) = sender (fst e) \<and> entitled v prepare (fst e0) \<and> fst (snd e) < snd (snd e0) + limit))"
proof -
  let ?t = "\<lambda>e. tripOf (rewrite upstream prepare (fst e)) (snd e)"
  let ?p = "\<lambda>(e, resp, sent). (?t e, sent \<noteq> None)"
  have clocks: "checkedAt (?t e) = fst (snd e)" "passedAt (?t e) = snd (snd e)" for e by (simp_all add: tripOf_def)
  have trips: "map fst (map ?p xs) = map ?t (map fst xs)" by (simp add: case_prod_beta comp_def)
  have out: "out = rewrite upstream prepare (fst e)"
    by (rule serveProxy_sent [of e resp out "Some v" limit upstream prepare transport es "[]" w]) (simp add: assms)
  have "serveTrips v limit (map ?t es) [] = map ?p xs @ (?t e, True) # map ?p ys"
    unfolding serveProxy_trips [of upstream prepare v limit transport es "[]" w, symmetric] assms by simp
  from serveTrips_justified [of v "[]" "[]", OF _ this]
  have "loggedIn v (?t e) \<or> forwardedFor (?t e) \<noteq> [] \<and> limit \<noteq> 0
      \<and> (\<exists>r0\<in>set (map fst (map ?p xs)). forwardedFor r0 = forwardedFor (?t e) \<and> loggedIn v r0 \<and> checkedAt (?t e) < passedAt r0 + limit)"
    by (simp add: passesFrom_def)
  then have "entitled v prepare (fst e)
      \<or> sender (fst e) \<noteq> [] \<and> limit \<noteq> 0
        \<and> (\<exists>e0\<in>set (map fst xs). sender (fst e0) = sender (fst e) \<and> entitled v prepare (fst e0) \<and> fst (snd e) < snd (snd e0) + limit)"
    unfolding trips set_map bex_simps(7) tripOf_rewrite clocks .
  moreover have "headerValue (reqHeaders out) ''X-Forwarded-For'' = sender (fst e)"
    using tripOf_rewrite(1) [of upstream prepare "fst e" "snd e"] by (simp add: out tripOf_def)
  moreover have "(urlScheme out, urlHost out) = upstream" "urlRest out = urlRest (fst e)"
    by (simp_all add: out rewrite_def Let_def)
  ultimately show ?thesis by blast
qed

text \<open>A login, and a request from the same address that claims to come from another one.\<close>

definition exProxyIn :: "headers \<Rightarrow> proxyRequest" where
  "exProxyIn h =
     \<lparr>urlScheme = [], urlHost = [], urlRest = ''/x'', reqHost = ''app'', remoteAddr = ''192.0.2.5:80'', overTLS = True, reqHeaders = h\<rparr>"

theorem proxy_guards_target_witness:
  "let login = (exProxyIn [(''Authorization'', [''Basic dTpw''])], 10, 11);
       later = (exProxyIn [(''X-Forwarded-For'', [''198.51.100.9''])], 20, 20);
       v = (\<lambda>u p. u = ''u'' \<and> p = ''p'');
       served = serveProxy (Some v) 60 (''http'', ''localhost:80'') id (\<lambda>q w. (Inr (reply 200), w)) [login, later] [] ()
   in \<exists>out. snd (snd (served ! 1)) = Some out \<and> headerValue (reqHeaders out) ''X-Forwarded-For'' = ''192.0.2.5''"
proof -
  define login :: "proxyRequest \<times> time \<times> time" where "login = (exProxyIn [(''Authorization'', [''Basic dTpw''])], 10, 11)"
  define later :: "proxyRequest \<times> time \<times> time" where "later = (exProxyIn [(''X-Forwarded-For'', [''198.51.100.9''])], 20, 20)"
  define v :: "string \<Rightarrow> string \<Rightarrow> bool" where "v = (\<lambda>u p. u = ''u'' \<and> p = ''p'')"
  let ?s = "serveProxy (Some v) 60 (''http'', ''localhost:80'') id (\<lambda>q w. (Inr (reply 200), w)) [login, later] [] ()"
  have "map (\<lambda>(e, resp, sent). sent \<noteq> None) ?s = [True, True]"
    unfolding login_def later_def v_def by code_simp
  moreover have "map fst ?s = [login, later]" by (simp split: prod.splits)
  ultimately obtain r1 o1 r2 o2 where s: "?s = [(login, r1, Some o1)] @ (later, r2, Some o2) # []"
    by (auto simp: map_eq_Cons_conv)
  have "sender (fst later) = ''192.0.2.5''" unfolding later_def by code_simp
  with proxy_guards_target [OF s] have "headerValue (reqHeaders o2) ''X-Forwarded-For'' = ''192.0.2.5''" by simp
  with s show ?thesis by (simp add: login_def later_def v_def)
qed

section \<open>The controller of the server\<close>

text \<open>
  The world of the server: its files, its WireGuard device, its clock and its source of randomness.
  \<open>globalAccess\<close> is the set of interfaces \<open>newAccessController\<close> is called with. A device
  text that makes \<open>Must\<close> panic is an error of \<open>Snapshot\<close> here; both end the process.
\<close>

record 'd world =
  wFs :: fsys
  wDev :: 'd
  wClock :: time
  wRand :: "string + string"

definition deviceErrorText :: "deviceError \<Rightarrow> string" where
  "deviceErrorText e =
     (case e of ipcGetError m \<Rightarrow> m | badLine l \<Rightarrow> ''failed to parse line: '' @ l | lineTooLong \<Rightarrow> ''bufio.Scanner: token too long'' | panicMust \<Rightarrow> ''panic'')"

definition globalAccess ::
  "lib \<Rightarrow> codec \<Rightarrow> faults \<Rightarrow> (string \<Rightarrow> string \<Rightarrow> string) \<Rightarrow> (string \<Rightarrow> 'd \<Rightarrow> string option \<times> 'd) \<Rightarrow> ('d \<Rightarrow> string + string)
   \<Rightarrow> environ \<Rightarrow> string \<Rightarrow> int \<Rightarrow> 'd world deps" where
  "globalAccess L J F hmac setIpc getIpc env store quota =
     \<lparr>LoadState = (\<lambda>w. fileLoad J F (accessStatePath store) (Some (accessStateMarkerPath store)) (wFs w)),
      SaveState = (\<lambda>s w. case fileSave J F (accessStatePath store) (Some (accessStateMarkerPath store)) s (wFs w) of
        (r, fs) \<Rightarrow> (r, w\<lparr>wFs := fs\<rparr>)),
      AddPeer = (\<lambda>k ep w. case allowUserKey (sha256 L) setIpc k ep (wDev w) of (r, d) \<Rightarrow> (r, w\<lparr>wDev := d\<rparr>)),
      RemovePeer = (\<lambda>k w. case removePeer setIpc k (wDev w) of (r, d) \<Rightarrow> (r, w\<lparr>wDev := d\<rparr>)),
      Snapshot = (\<lambda>w. case GetWgDeviceInfo (getIpc (wDev w)) of Inl e \<Rightarrow> Inl (deviceErrorText e) | Inr dev \<Rightarrow> Inr (dPeers dev)),
      LoadRevocations = (\<lambda>w. revocationLoad F (revocationStatePath store) (wFs w)),
      nowTime = wClock,
      authSecret = (\<lambda>w. AuthSecret env),
      legacyKey = (\<lambda>w. AuthKey env),
      validateKey = (\<lambda>w k. ValidateAuthKey hmac (AuthSecret env) k),
      issueKey = (\<lambda>w. (IssueAuthKey hmac (AuthSecret env) (wRand w), w)),
      quotaBytes = (\<lambda>w. quota)\<rparr>"

lemma Split_parts: "Split (p @ sep # s) sep = Split p sep @ Split s sep"
  by (induction p) (auto split: list.splits)

lemma cleanParts_last: "b \<notin> {[], ''.'', ''..''} \<Longrightarrow> cleanParts rooted acc (ps @ [b]) = b # cleanParts rooted acc ps"
  by (induction rooted acc ps rule: cleanParts.induct) (auto split: list.splits)

lemma last_joinSlash: "b \<noteq> [] \<Longrightarrow> joinSlash (ps @ [b]) \<noteq> [] \<and> last (joinSlash (ps @ [b])) = last b"
  by (induction ps rule: joinSlash.induct) auto

lemma Split_joinSlash: "CHR ''/'' \<notin> set b \<Longrightarrow> \<exists>ys. Split (joinSlash (ps @ [b])) CHR ''/'' = ys @ [b]"
proof (induction ps rule: joinSlash.induct)
  case (2 p)
  then show ?case by (simp add: Split_parts Split_single)
next
  case (3 p q ps)
  then obtain ys where "Split (joinSlash ((q # ps) @ [b])) CHR ''/'' = ys @ [b]" by blast
  then show ?case using Split_parts [of p "CHR ''/''" "joinSlash ((q # ps) @ [b])"] by (simp del: Split.simps)
qed (simp add: Split_single)

text \<open>A cleaned path ends with its last element, when that is an ordinary name.\<close>

lemma last_JoinPath:
  assumes "b \<notin> {[], ''.'', ''..''}" and "CHR ''/'' \<notin> set b"
  shows "last (JoinPath (ps @ [b])) = last b"
proof -
  define qs where "qs = dropWhile (\<lambda>e. e = []) ps"
  have es: "dropWhile (\<lambda>e. e = []) (ps @ [b]) = qs @ [b]"
    unfolding qs_def using assms(1) by (induction ps) auto
  obtain ys where ys: "Split (joinSlash (qs @ [b])) CHR ''/'' = ys @ [b]" using Split_joinSlash [OF assms(2)] by blast
  have "joinSlash (rev (cleanParts r [] (ys @ [b]))) \<noteq> [] \<and> last (joinSlash (rev (cleanParts r [] (ys @ [b])))) = last b" for r
    using cleanParts_last [OF assms(1), of r "[]" ys] last_joinSlash assms(1) by simp
  then show ?thesis by (simp add: JoinPath_def Let_def es Clean_def ys)
qed

lemma state_paths_differ: "accessStateMarkerPath store \<noteq> accessStatePath store"
proof -
  have "last (accessStatePath store) = CHR ''n''" "last (accessStateMarkerPath store) = CHR ''d''"
    using last_JoinPath [of "''access_state.json''" "[store, ''server'']"] last_JoinPath [of "''access_state.initialized''" "[store, ''server'']"]
    by (simp_all add: accessStatePath_def accessStateMarkerPath_def)
  then show ?thesis by auto
qed

text \<open>
  C4: what the server persisted survives its end. Take any state of the controller that satisfies its
  invariant and was saved to the files of the server; cut the power, start a new process at any
  later time: \<open>load\<close> finds the state, fails only if it cannot write, and brings back every peer
  record and every quota, rolled over to the new day.
\<close>

theorem restart_after_power_loss:
  fixes L J F hmac setIpc getIpc env store quota
  defines "D \<equiv> globalAccess L J F hmac setIpc getIpc env store quota"
  assumes "wfc L c" and "issueWindow c \<noteq> 0" and "keyTextOk L (map fst (peers c))" and "stateErr c = None"
    and "okFs (accessStatePath store) (wFs w)" and "persistLocked L D c w = (None, c1, w1)"
    and "powerLoss (wFs w1) fs2" and "readsOk F" and "writable J (diskStateLocked L c)"
    and "\<forall>doc. encState J (diskStateLocked L c) = Some doc \<longrightarrow> parseJson J (printJson J doc) = Some doc"
  shows "\<exists>r c' w'. load L D newAccessController (w1\<lparr>wFs := fs2, wClock := t\<rparr>) = (r, c', w')
    \<and> (\<forall>e. r = Some e \<longrightarrow> (\<exists>err. e = errAccessStateUnavailable err))
    \<and> map_of (peers c') = map_of (peers c)
    \<and> (\<forall>owner. map_of (quotas c') owner = map_option (\<lambda>q. normalizeQuotaState L q t) (map_of (quotas c) owner))"
proof -
  let ?p = "accessStatePath store" and ?m = "Some (accessStateMarkerPath store)" and ?w2 = "w1\<lparr>wFs := fs2, wClock := t\<rparr>"
  let ?s = "diskStateLocked L c"
  have ne: "?m \<noteq> Some ?p" using state_paths_differ by simp
  have save: "fileSave J F ?p ?m ?s (wFs w) = (None, wFs w1)"
    using assms(5,7) by (auto simp: persistLocked_def D_def globalAccess_def Let_def split: prod.splits option.splits)
  have ok: "okFs ?p (wFs w) \<and> ?m \<noteq> Some ?p" using assms(6) ne by simp
  have "okFs ?p (wFs w1)" using fileStore.save_good [OF ok save] by simp
  then have "stateText ?p fs2 \<in> set (lossTexts ?p (wFs w1))" using powerLoss_state [OF _ assms(8)] by simp
  then obtain doc where doc: "encState J ?s = Some doc" "stateText ?p fs2 = Some (printJson J doc)"
    using fileStore.found_done [OF ok save] fileStore.save_done [OF ok save] by (auto simp: stateDoc_def)
  obtain s' where s': "unmarshalState J (printJson J doc) = Inr s'" "sameState ?s s'"
    using unmarshal_doc [OF assms(10) doc(1)] assms(11) doc(1) by auto
  have "LoadState D ?w2 = Inr (s', True)"
    using fileLoad_text [OF _ doc(2), of F J ?m] s'(1) assms(9) by (simp add: D_def globalAccess_def readsOk_def)
  from load_recovers [OF assms(2-4) this s'(2), of newAccessController] show ?thesis
    by (auto simp: D_def globalAccess_def)
qed

section \<open>Starting the server\<close>

definition loadSNIConfig :: "unicode \<Rightarrow> environ \<Rightarrow> sniError + sniConfig" where
  "loadSNIConfig U env = parseSNIConfig U (env ''TUNWG_SNI_ROUTES'') (env ''TUNWG_SNI_PROXY_PROTOCOL'') (ApiDomain env)"

datatype serverOutcome = ServerFatal string | ServerPanic | Serving sniConfig

text \<open>\<open>tunwgServer\<close> up to the point where it listens; \<open>init\<close> is \<open>Initialize\<close>.\<close>

definition tunwgServer ::
  "unicode \<Rightarrow> lib \<Rightarrow> 'w deps \<Rightarrow> environ \<Rightarrow> (process \<Rightarrow> 'w \<Rightarrow> string option \<times> process \<times> 'w) \<Rightarrow> process \<Rightarrow> accessController \<Rightarrow> 'w
   \<Rightarrow> serverOutcome \<times> process \<times> accessController \<times> 'w" where
  "tunwgServer U L D env init p c w =
     (case GetListenPort env of
        None \<Rightarrow> (ServerPanic, p, c, w)
      | Some port \<Rightarrow>
          if port \<le> 0 then (ServerFatal ''TUNWG_PORT needs to be set'', p, c, w)
          else if ServerIp env = [] then (ServerFatal ''TUNWG_IP needs to be set'', p, c, w)
          else
            (case loadSNIConfig U env of
               Inl _ \<Rightarrow> (ServerFatal ''invalid static SNI configuration'', p, c, w)
             | Inr cfg \<Rightarrow>
                 (case init p w of
                    (Some e, p1, w1) \<Rightarrow> (ServerFatal ''failed to initialize'', p1, c, w1)
                  | (None, p1, w1) \<Rightarrow>
                      (case load L D c w1 of
                         (Some e, c1, w2) \<Rightarrow> (ServerFatal ''access state unavailable'', p1, c1, w2)
                       | (None, c1, w2) \<Rightarrow>
                           (case restorePeers L D c1 w2 of
                              (Some e, c2, w3) \<Rightarrow> (ServerFatal ''failed to restore peers safely'', p1, c2, w3)
                            | (None, c2, w3) \<Rightarrow>
                                (case reconcile L D c2 w3 of
                                   (Some e, c3, w4) \<Rightarrow> (ServerFatal ''failed to reconcile access state'', p1, c3, w4)
                                 | (None, c3, w4) \<Rightarrow> (Serving cfg, p1, c3, w4)))))))"

lemma tunwgServer_serving:
  assumes "tunwgServer U L D env init p c w = (Serving cfg, p', c', w')"
  obtains port w1 where "GetListenPort env = Some port" and "0 < port" and "ServerIp env \<noteq> []" and "loadSNIConfig U env = Inr cfg"
    and "init p w = (None, p', w1)" and "startAccess L D c w1 = (None, c', w')"
  using assms by (auto simp: tunwgServer_def startAccess_def split: option.splits sum.splits prod.splits if_splits)


section \<open>Witnesses\<close>

definition exAccess :: "unit world deps" where
  "exAccess = globalAccess exLib exCodec noFaults (\<lambda>s k. k) (\<lambda>_ d. (None, d)) (\<lambda>_. Inl ''no device'') exEnv ''/data'' 0"

definition exWorld :: "unit world" where
  "exWorld = \<lparr>wFs = emptyDisk, wDev = (), wClock = exNow, wRand = Inr ''r''\<rparr>"

theorem restart_after_power_loss_witness:
  "\<exists>r c' w'. load exLib exAccess newAccessController
        ((snd (snd (persistLocked exLib exAccess (exController 1000) exWorld)))\<lparr>wClock := exNow + 48 * hour\<rparr>) = (r, c', w')
     \<and> map_of (peers c') ''p1'' = Some (exPeer ''kid'')"
proof -
  let ?P = "persistLocked exLib exAccess (exController 1000) exWorld"
  have "fst ?P = None" "disk (wFs (snd (snd ?P))) = [dir (wFs (snd (snd ?P)))]" by code_simp+
  then obtain c1 w1 where P: "?P = (None, c1, w1)" and "disk (wFs w1) = [dir (wFs w1)]" by (metis prod.collapse)
  then have loss: "powerLoss (wFs w1) (wFs w1)" by (simp add: powerLoss_def)
  have c: "issueWindow (exController 1000) \<noteq> 0" "stateErr (exController 1000) = None"
    by (simp_all add: exController_def newAccessController_def exNow_def)
  have k: "keyTextOk exLib (map fst (peers (exController 1000)))" by code_simp
  have fs: "okFs (accessStatePath ''/data'') (wFs exWorld)" using emptyDisk_ok by (simp add: exWorld_def)
  have doc: "\<forall>doc. encState exCodec (diskStateLocked exLib (exController 1000)) = Some doc \<longrightarrow> parseJson exCodec (printJson exCodec doc) = Some doc"
    using exState_doc by (simp add: exState_def) (simp add: exCodec_def)
  from restart_after_power_loss [OF exController_wf c(1) k c(2) fs P [unfolded exAccess_def] loss noFaults_reads exState_writable [unfolded exState_def] doc]
  obtain r c' w' where "load exLib exAccess newAccessController (w1\<lparr>wFs := wFs w1, wClock := exNow + 48 * hour\<rparr>) = (r, c', w')"
      "map_of (peers c') = map_of (peers (exController 1000))"
    unfolding exAccess_def by blast
  moreover have "map_of (peers (exController 1000)) ''p1'' = Some (exPeer ''kid'')" by (simp add: exController_def)
  ultimately show ?thesis by (intro exI [of _ r] exI [of _ c'] exI [of _ w']) (simp add: P)
qed

definition exServerEnv :: environ where
  "exServerEnv = (\<lambda>v. if v = ''TUNWG_PORT'' then ''51820'' else if v = ''TUNWG_IP'' then ''192.0.2.1'' else [])"


end
