(* ===== verification/AccessSystem.thy ===== *)
theory AccessSystem
  imports AccessRestart
begin

text \<open>
  The running server as a transition system: the access controller, the device and the state file in
  the world outside, and the requests and ticks that interleave on them.

  A registration and an issue hold the controller's mutex, so each is one step. A reconciliation is two:
  it reads device, clock and revocations before it takes the mutex, so that registrations can come
  between the reading, kept in \<open>inFlight\<close>, and the work on it. The environment may do anything to the
  world that leaves the peers of the device alone and does not turn the clock back.
\<close>

section \<open>What the server relies on\<close>

text \<open>
  \<open>dev\<close> is the set of keys the device has as peers. A command for a key concerns this key only, also when it
  fails half-way; a removal that succeeds removes; the snapshot misses no peer; nothing else touches the
  device. \<open>okEp\<close> says which endpoint texts the device may be given. The configuration does not change.
\<close>

definition deviceLaws :: "'w deps \<Rightarrow> ('w \<Rightarrow> wgKey set) \<Rightarrow> (string \<Rightarrow> bool) \<Rightarrow> bool" where
  "deviceLaws D dev okEp \<longleftrightarrow>
     (\<forall>k ep w r w'. okEp ep \<longrightarrow> AddPeer D k ep w = (r, w') \<longrightarrow> dev w' \<subseteq> insert k (dev w) \<and> nowTime D w \<le> nowTime D w')
     \<and> (\<forall>k w r w'. RemovePeer D k w = (r, w') \<longrightarrow> dev w' \<subseteq> dev w \<and> (r = None \<longrightarrow> k \<notin> dev w') \<and> nowTime D w \<le> nowTime D w')
     \<and> (\<forall>st w r w'. SaveState D st w = (r, w') \<longrightarrow> dev w' = dev w \<and> nowTime D w \<le> nowTime D w')
     \<and> (\<forall>w ps. Snapshot D w = Inr ps \<longrightarrow> dev w \<subseteq> PublicKey ` set ps \<and> (\<forall>p\<in>set ps. \<forall>e. PEndpoint p = Some e \<longrightarrow> okEp e))
     \<and> okEp []
     \<and> (\<forall>w w'. authSecret D w = authSecret D w' \<and> legacyKey D w = legacyKey D w' \<and> validateKey D w = validateKey D w')"

lemma device_laws:
  assumes "deviceLaws D dev okEp"
  shows law_add: "okEp ep \<Longrightarrow> AddPeer D k ep w = (r, w') \<Longrightarrow> dev w' \<subseteq> insert k (dev w) \<and> nowTime D w \<le> nowTime D w'"
    and law_remove: "RemovePeer D k w = (r, w') \<Longrightarrow> dev w' \<subseteq> dev w \<and> (r = None \<longrightarrow> k \<notin> dev w') \<and> nowTime D w \<le> nowTime D w'"
    and law_save: "SaveState D st w = (r, w') \<Longrightarrow> dev w' = dev w \<and> nowTime D w \<le> nowTime D w'"
    and law_snapshot: "Snapshot D w = Inr ps \<Longrightarrow> dev w \<subseteq> PublicKey ` set ps \<and> (\<forall>p\<in>set ps. \<forall>e. PEndpoint p = Some e \<longrightarrow> okEp e)"
    and law_empty: "okEp []"
    and law_config: "authSecret D w = authSecret D w'" "legacyKey D w = legacyKey D w'" "validateKey D w = validateKey D w'"
proof -
  note laws = assms [unfolded deviceLaws_def]
  show "okEp ep \<Longrightarrow> AddPeer D k ep w = (r, w') \<Longrightarrow> dev w' \<subseteq> insert k (dev w) \<and> nowTime D w \<le> nowTime D w'"
    by (rule conjunct1 [OF laws, rule_format])
  show "RemovePeer D k w = (r, w') \<Longrightarrow> dev w' \<subseteq> dev w \<and> (r = None \<longrightarrow> k \<notin> dev w') \<and> nowTime D w \<le> nowTime D w'"
    by (rule conjunct1 [OF conjunct2 [OF laws], THEN spec, THEN spec, THEN spec, THEN spec, THEN mp])
  show "SaveState D st w = (r, w') \<Longrightarrow> dev w' = dev w \<and> nowTime D w \<le> nowTime D w'"
    by (rule conjunct1 [OF conjunct2 [OF conjunct2 [OF laws]], rule_format])
  show "Snapshot D w = Inr ps \<Longrightarrow> dev w \<subseteq> PublicKey ` set ps \<and> (\<forall>p\<in>set ps. \<forall>e. PEndpoint p = Some e \<longrightarrow> okEp e)"
    by (rule conjunct1 [OF conjunct2 [OF conjunct2 [OF conjunct2 [OF laws]]], THEN spec, THEN spec, THEN mp])
  show "okEp []" "authSecret D w = authSecret D w'" "legacyKey D w = legacyKey D w'" "validateKey D w = validateKey D w'"
    using laws by simp_all
qed

lemma persist_device:
  assumes "deviceLaws D dev okEp" and "persistLocked L D c w = (e, c', w')"
  shows "dev w' = dev w" and "nowTime D w \<le> nowTime D w'"
  using assms(2) law_save [OF assms(1)] by (auto simp: persistLocked_def Let_def split: option.splits prod.splits)

lemma issue_quiet:
  assumes "deviceLaws D dev okEp" and "issueAuthKeyLocked L D secret key ip maxPerIP window c w = (out, c', w')"
  shows "peers c' = peers c \<and> dev w' = dev w \<and> nowTime D w \<le> nowTime D w'"
proof -
  have "peers c' = peers c \<and> (w' = w \<or> (\<exists>x e y. persistLocked L D x w = (e, y, w')))"
    using assms(2) by (auto simp: issueAuthKeyLocked_def rollIssueWindow_def Let_def split: option.splits prod.splits if_splits dest: persistLocked_maps(1))
  then show ?thesis using persist_device [OF assms(1)] by (elim conjE disjE exE) simp_all
qed

section \<open>Authentic records\<close>

text \<open>A record fits the mode; its id is one a key has been issued for, when there is a secret.\<close>

definition issuedId :: "'w deps \<Rightarrow> 'w \<Rightarrow> string \<Rightarrow> bool" where
  "issuedId D w kid \<longleftrightarrow> (authSecret D w \<noteq> [] \<longrightarrow> (\<exists>key. validateKey D w key = (kid, True)))"

definition soundRecord :: "lib \<Rightarrow> 'w deps \<Rightarrow> (string \<Rightarrow> bool) \<Rightarrow> 'w \<Rightarrow> accessPeerState \<Rightarrow> bool" where
  "soundRecord L D okEp w r \<longleftrightarrow> okEp (Endpoint r) \<and> (recordMatchesCurrentModeLocked L D w r \<longrightarrow> issuedId D w (KeyID r))"

definition soundRecords :: "lib \<Rightarrow> 'w deps \<Rightarrow> (string \<Rightarrow> bool) \<Rightarrow> accessController \<Rightarrow> 'w \<Rightarrow> bool" where
  "soundRecords L D okEp c w \<longleftrightarrow> (\<forall>k r. map_of (peers c) k = Some r \<longrightarrow> soundRecord L D okEp w r)"

text \<open>Every peer of the device has a record, and one of which \<open>P\<close> holds.\<close>

definition known :: "('w \<Rightarrow> wgKey set) \<Rightarrow> (wgKey \<Rightarrow> accessPeerState \<Rightarrow> bool) \<Rightarrow> accessController \<Rightarrow> 'w \<Rightarrow> bool" where
  "known dev P c w \<longleftrightarrow> (\<forall>k\<in>dev w. \<exists>r. map_of (peers c) k = Some r \<and> P k r)"

lemma known_mono: "known dev P c w \<Longrightarrow> dev w' \<subseteq> dev w \<Longrightarrow> (\<And>k r. P k r \<Longrightarrow> P' k r) \<Longrightarrow> known dev P' c w'"
  unfolding known_def by blast

lemma known_cong: "map_of (peers c') = map_of (peers c) \<Longrightarrow> known dev P c' w \<longleftrightarrow> known dev P c w"
  by (simp add: known_def)

lemma soundRecords_cong: "map_of (peers c') = map_of (peers c) \<Longrightarrow> soundRecords L D okEp c' w \<longleftrightarrow> soundRecords L D okEp c w"
  by (simp add: soundRecords_def)

lemma matches_world:
  "deviceLaws D dev okEp \<Longrightarrow> recordMatchesCurrentModeLocked L D w = recordMatchesCurrentModeLocked L D w'"
  "deviceLaws D dev okEp \<Longrightarrow> issuedId D w = issuedId D w'"
  by (rule ext, simp add: recordMatchesCurrentModeLocked_def issuedId_def law_config [of D dev okEp w w'])+

lemma matches_ids:
  "KeyID r' = KeyID r \<Longrightarrow> AuthGeneration r' = AuthGeneration r \<Longrightarrow>
   recordMatchesCurrentModeLocked L D w r' = recordMatchesCurrentModeLocked L D w r"
  by (simp add: recordMatchesCurrentModeLocked_def)

lemma soundRecords_world: "deviceLaws D dev okEp \<Longrightarrow> soundRecords L D okEp c w = soundRecords L D okEp c w'"
  using matches_world [of D dev okEp] by (simp add: soundRecords_def soundRecord_def) metis

section \<open>Registering\<close>

lemma authorized_sound:
  assumes "authorizeLocked L D w reqKey = (cr, None)" and "credentialMatchesCurrentModeLocked L D w cr"
  shows "recordMatchesCurrentModeLocked L D w (admittedRecord c peer cr now) \<and> issuedId D w (KeyID (admittedRecord c peer cr now))"
  using assms
  by (auto simp: authorizeLocked_def credentialMatchesCurrentModeLocked_def recordMatchesCurrentModeLocked_def admittedRecord_def issuedId_def Let_def
      split: if_splits prod.splits sum.splits)

text \<open>A registration keeps every peer of the device known, when the record it admits is one to know.\<close>

lemma admitPeer_known:
  assumes laws: "deviceLaws D dev okEp" and admit: "admitPeer L D c w peer cr now owner quota = (res, c', w')"
    and known: "known dev P c w" and "P peer (admittedRecord c peer cr now)"
  shows "known dev P c' w'"
  using admit
proof (cases rule: admitPeer_cases)
  case (added w2)
  then show ?thesis using known assms(4) law_save [OF laws added(1)] law_add [OF laws law_empty [OF laws] added(3)]
    by (auto simp: known_def touchRuntime_def storeAdmitted_def map_of_put)
next
  case (unsaved e c2)
  have "dev w' = dev w"
    by (rule persist_device(1) [OF laws unsaved(1)])
  moreover have "map_of (peers c') = map_of (peers c)"
    using unsaved(3) persistLocked_maps(1) [OF unsaved(1)]
    by (auto simp: restoreQuotaLocked_def restoreRecordLocked_def storeAdmitted_def map_of_put map_of_del split: option.splits)
  ultimately show ?thesis using known by (simp add: known_def)
next
  case (dirty w2 w3 err cleanup)
  then show ?thesis
    using known assms(4) law_save [OF laws dirty(1)] law_add [OF laws law_empty [OF laws] dirty(3)] law_remove [OF laws dirty(4)]
    by (auto simp: known_def touchRuntime_def storeAdmitted_def map_of_put)
next
  case (cleaned w2 w3 w4 err c3 e)
  have "dev w' = dev w4"
    by (rule persist_device(1) [OF laws cleaned(6)])
  then have "dev w' \<subseteq> dev w - {peer}"
    using law_save [OF laws cleaned(1)] law_add [OF laws law_empty [OF laws] cleaned(3)] law_remove [OF laws cleaned(4)] by auto
  moreover have "k \<noteq> peer \<Longrightarrow> map_of (peers c') k = map_of (peers c) k" for k
    using cleaned(5) persistLocked_maps(1) [OF cleaned(6)]
    by (auto simp: restoreQuotaLocked_def restoreRecordLocked_def storeAdmitted_def map_of_put map_of_del split: option.splits)
  ultimately show ?thesis using known unfolding known_def by (metis Diff_iff singletonI subsetD)
qed

lemma admitPeer_records:
  assumes "admitPeer L D c w peer cr now owner quota = (res, c', w')" and "map_of (peers c') k = Some r"
  shows "map_of (peers c) k = Some r \<or> k = peer \<and> r = admittedRecord c peer cr now"
  using assms(1)
proof (cases rule: admitPeer_cases)
  case (unsaved e c2)
  with persistLocked_maps(1) [OF unsaved(1)] assms(2) show ?thesis
    by (auto simp: restoreQuotaLocked_def restoreRecordLocked_def storeAdmitted_def map_of_put map_of_del split: option.splits if_splits)
next
  case (cleaned w2 w3 w4 err c3 e)
  with persistLocked_maps(1) [OF cleaned(6)] assms(2) show ?thesis
    by (auto simp: restoreQuotaLocked_def restoreRecordLocked_def storeAdmitted_def map_of_put map_of_del split: option.splits if_splits)
qed (use assms(2) in \<open>auto simp: touchRuntime_def storeAdmitted_def map_of_put split: if_splits\<close>)

lemma admitPeer_clock:
  assumes laws: "deviceLaws D dev okEp" and admit: "admitPeer L D c w peer cr now owner quota = (res, c', w')"
  shows "nowTime D w \<le> nowTime D w'"
proof -
  note p = persist_device(2) [OF laws]
  note a = law_add [OF laws law_empty [OF laws], THEN conjunct2]
  note r = law_remove [OF laws, THEN conjunct2, THEN conjunct2]
  show ?thesis using admit by (auto simp: admitPeer_def Let_def split: prod.splits option.splits dest!: p a r)
qed

section \<open>Reconciling and restoring\<close>

text \<open>What the loops of a reconciliation do to the records: those of keys outside the snapshot are
  untouched, the others keep their identity, and a record they make or change is sound.\<close>

definition refined :: "lib \<Rightarrow> 'w deps \<Rightarrow> (string \<Rightarrow> bool) \<Rightarrow> 'w \<Rightarrow> wgKey set \<Rightarrow> accessController \<Rightarrow> accessController \<Rightarrow> bool" where
  "refined L D okEp w ks c c' \<longleftrightarrow>
     (\<forall>k. k \<notin> ks \<longrightarrow> map_of (peers c') k = map_of (peers c) k)
     \<and> (\<forall>k r. map_of (peers c) k = Some r \<longrightarrow>
          (\<exists>r'. map_of (peers c') k = Some r' \<and> KeyID r' = KeyID r \<and> AuthGeneration r' = AuthGeneration r))
     \<and> (soundRecords L D okEp c w \<longrightarrow> soundRecords L D okEp c' w) \<and> (wfm (peers c) \<longrightarrow> wfm (peers c'))"

lemma refined_same: "peers c' = peers c \<Longrightarrow> refined L D okEp w ks c c'"
  by (simp add: refined_def soundRecords_def)

lemma refined_trans [trans]: "refined L D okEp w ks c c1 \<Longrightarrow> refined L D okEp w ks c1 c2 \<Longrightarrow> refined L D okEp w ks c c2"
  unfolding refined_def by (intro conjI allI impI; elim conjE; fastforce)

lemma refined_put:
  assumes "pk \<in> ks" and "peers c' = put (peers c) pk r'"
    and "\<And>r. map_of (peers c) pk = Some r \<Longrightarrow> KeyID r' = KeyID r \<and> AuthGeneration r' = AuthGeneration r"
    and "soundRecords L D okEp c w \<Longrightarrow> soundRecord L D okEp w r'"
  shows "refined L D okEp w ks c c'"
  using assms by (auto simp: refined_def soundRecords_def map_of_put)

lemma observe_endpoint_text:
  "Endpoint (observeEndpoint now p added r) \<in> {Endpoint r, [], the (PEndpoint p)}"
  "Endpoint (observeEndpoint now p added r) = the (PEndpoint p) \<Longrightarrow> Endpoint (observeEndpoint now p added r) \<notin> {Endpoint r, []} \<Longrightarrow> PEndpoint p \<noteq> None"
  by (auto simp: observeEndpoint_def split: if_splits)

lemma observe_sound:
  assumes "soundRecord L D okEp w r" and "okEp []" and "\<forall>e. PEndpoint p = Some e \<longrightarrow> okEp e"
  shows "soundRecord L D okEp w (observeEndpoint now p added (r\<lparr>LastSeen := t\<rparr>))"
  using assms by (auto simp: soundRecord_def observeEndpoint_def recordMatchesCurrentModeLocked_def)

lemma accountPeer_refined:
  assumes laws: "deviceLaws D dev okEp" and one: "accountPeer L D rd w c p = Inr (c', un)"
    and mode: "rSecretMode rd = (authSecret D w \<noteq> [])" and ep: "\<forall>e. PEndpoint p = Some e \<longrightarrow> okEp e" and p: "PublicKey p \<in> ks"
  shows "refined L D okEp w ks c c'"
proof (cases "map_of (peers c) (PublicKey p) = None \<and> (rSecretMode rd \<or> legacyKey D w \<noteq> [])")
  case True
  then show ?thesis using one by (simp add: accountPeer_def refined_same)
next
  case False
  define r where "r = accountedRecord c p (rNow rd)"
  define r' where "r' = observeEndpoint (rNow rd) p (addedAt (accountedRuntime c p (rNow rd))) (r\<lparr>LastSeen := rNow rd\<rparr>)"
  have c': "peers c' = put (peers c) (PublicKey p) r'"
    using one False by (auto simp: accountPeer_def Let_def r_def r'_def split: if_splits)
  have sound: "soundRecord L D okEp w r" if "soundRecords L D okEp c w"
    using that False mode law_empty [OF laws]
    by (auto simp: r_def accountedRecord_def soundRecords_def soundRecord_def issuedId_def split: option.splits)
  show ?thesis
  proof (rule refined_put [OF p c'])
    fix r0 assume "map_of (peers c) (PublicKey p) = Some r0"
    then show "KeyID r' = KeyID r0 \<and> AuthGeneration r' = AuthGeneration r0"
      by (simp add: r'_def r_def accountedRecord_def)
  qed (use observe_sound [OF sound law_empty [OF laws] ep] in \<open>simp add: r'_def\<close>)
qed

lemma accountLoop_refined:
  assumes "deviceLaws D dev okEp" and "accountLoop L D rd w ps c un = (e, c', un')" and "rSecretMode rd = (authSecret D w \<noteq> [])"
    and "\<forall>p\<in>set ps. PublicKey p \<in> ks \<and> (\<forall>e. PEndpoint p = Some e \<longrightarrow> okEp e)"
  shows "refined L D okEp w ks c c'"
  using assms(2,4)
proof (induction ps arbitrary: c un)
  case (Cons p ps)
  then show ?case
    by (auto split: sum.splits prod.splits if_splits intro: refined_same refined_trans [OF accountPeer_refined [OF assms(1) _ assms(3)] Cons.IH])
qed (simp add: refined_same)

lemma blockLoop_peers: "peers (blockLoop L rd c) = peers c"
  by simp

lemma judgeLoop_refined:
  assumes "deviceLaws D dev okEp" and "judgeLoop L D rd w un ps c removals = (e, c', removals')" and "\<forall>p\<in>set ps. PublicKey p \<in> ks"
  shows "refined L D okEp w ks c c'"
  using assms(2,3)
proof (induction ps arbitrary: c removals)
  case (Cons p ps)
  show ?case
  proof (cases "judgePeer L D rd w un c p")
    case (Inl e1)
    then show ?thesis using Cons.prems by (simp add: refined_same)
  next
    case (Inr res)
    obtain c1 new where res: "res = (c1, new)" by fastforce
    have "refined L D okEp w ks c c1"
    proof (cases "c1 = c")
      case True
      then show ?thesis by (simp add: refined_same)
    next
      case False
      then obtain r where r: "map_of (peers c) (PublicKey p) = Some r" "c1 = clearEndpoint c (PublicKey p) r"
        using Inr res by (auto simp: judgePeer_def Let_def split: if_splits option.splits sum.splits)
      show ?thesis
        by (rule refined_put [of "PublicKey p" ks c1 c "r\<lparr>Endpoint := [], EndpointSeenAt := 0\<rparr>"])
          (use Cons.prems(2) r law_empty [OF assms(1)] in
            \<open>auto simp: clearEndpoint_def soundRecords_def soundRecord_def recordMatchesCurrentModeLocked_def\<close>)
    qed
    also have "refined L D okEp w ks c1 c'"
      using Cons.prems Inr res by (intro Cons.IH [of c1 "removals @ new"]) simp_all
    finally show ?thesis .
  qed
qed (simp add: refined_same)

lemma refinedD:
  assumes "refined L D okEp w ks c c'"
  shows "k \<notin> ks \<Longrightarrow> map_of (peers c') k = map_of (peers c) k"
    and "map_of (peers c) k = Some r \<Longrightarrow> \<exists>r'. map_of (peers c') k = Some r' \<and> KeyID r' = KeyID r \<and> AuthGeneration r' = AuthGeneration r"
    and "soundRecords L D okEp c w \<Longrightarrow> soundRecords L D okEp c' w" and "wfm (peers c) \<Longrightarrow> wfm (peers c')"
  using assms by (simp_all add: refined_def)

text \<open>
  What is known of the reading a reconciliation works on: it is in the past, and a peer of the device it does
  not list was registered after it.
\<close>

definition matching :: "lib \<Rightarrow> 'w deps \<Rightarrow> 'w \<Rightarrow> wgKey \<Rightarrow> accessPeerState \<Rightarrow> bool" where
  "matching L D w k r \<longleftrightarrow> recordMatchesCurrentModeLocked L D w r"

definition seenOrNew :: "reconcileRead \<Rightarrow> wgKey \<Rightarrow> accessPeerState \<Rightarrow> bool" where
  "seenOrNew rd k r \<longleftrightarrow> k \<in> PublicKey ` set (rPeers rd) \<or> rNow rd \<le> LastSeen r"

definition readingOk :: "'w deps \<Rightarrow> (string \<Rightarrow> bool) \<Rightarrow> 'w \<Rightarrow> reconcileRead \<Rightarrow> bool" where
  "readingOk D okEp w rd \<longleftrightarrow> rNow rd \<le> nowTime D w \<and> rSecretMode rd = (authSecret D w \<noteq> [])
     \<and> (\<forall>p\<in>set (rPeers rd). \<forall>e. PEndpoint p = Some e \<longrightarrow> okEp e)"

lemma not_expired: "seenOrNew rd k r \<Longrightarrow> \<not> expiredPeer rd k r"
  by (auto simp: seenOrNew_def expiredPeer_def Sub_def peerStateRetention_def MinInt64_def MaxInt64_def split: if_splits)

lemma removeLoop_device:
  assumes "deviceLaws D dev okEp" and "removeLoop D rms c w = (c', w')"
  shows "peers c' = peers c \<and> dev w' \<subseteq> dev w \<and> nowTime D w \<le> nowTime D w'"
  using assms(2)
proof (induction rms arbitrary: c w)
  case (Cons rm rms)
  obtain r w1 where r: "RemovePeer D (remKey rm) w = (r, w1)" by fastforce
  note step = law_remove [OF assms(1) r]
  show ?case
  proof (cases r)
    case None
    have "peers c' = peers (c\<lparr>runtime := del (runtime c) (remKey rm)\<rparr>) \<and> dev w' \<subseteq> dev w1 \<and> nowTime D w1 \<le> nowTime D w'"
      using Cons.prems r None by (intro Cons.IH) simp
    then show ?thesis using step by auto
  next
    case (Some e)
    have "peers c' = peers c \<and> dev w' \<subseteq> dev w1 \<and> nowTime D w1 \<le> nowTime D w'"
      using Cons.prems r Some by (intro Cons.IH) simp
    then show ?thesis using step by auto
  qed
qed simp

text \<open>On a device that accepts removals, no key of the plan is left.\<close>

lemma removeLoop_enforces:
  assumes laws: "deviceLaws D dev okEp" and "removeLoop D rms c w = (c', w')" and "\<And>k v. fst (RemovePeer D k v) = None"
  shows "dev w' \<subseteq> dev w - remKey ` set rms"
  using assms(2)
proof (induction rms arbitrary: c w)
  case (Cons rm rms)
  obtain w1 where r: "RemovePeer D (remKey rm) w = (None, w1)" using assms(3) by (metis prod.collapse)
  have "dev w' \<subseteq> dev w1 - remKey ` set rms" using Cons.prems r by (intro Cons.IH) simp
  with law_remove [OF laws r] show ?case by auto
qed simp

lemma reconcile_leaves:
  assumes laws: "deviceLaws D dev okEp" and rd: "readForReconcile D w = Inr rd" and run: "reconcileLocked L D rd c w = (None, c', w')"
    and wf: "wfc L c" "okTime L (rNow rd)" "\<forall>p\<in>set (rPeers rd). okPeer p" "distinct (map PublicKey (rPeers rd))"
    and "rNow rd < nextLocalMidnight L (rNow rd)" and "\<And>k v. fst (RemovePeer D k v) = None"
  shows "dev w' \<subseteq> PublicKey ` {p \<in> set (rPeers rd). \<not> mustRemove L D rd w c p}"
proof -
  obtain c1 rms where plan: "reconcilePlan L D rd c w = (None, c1, rms)"
      "set (map remKey rms) = PublicKey ` set (filter (mustRemove L D rd w c) (rPeers rd))"
    using planned_removals [OF wf assms(8), of D w] by (elim exE conjE) (rule that)
  obtain c2 w2 where s: "persistLocked L D c1 w = (None, c2, w2)" and loop: "removeLoop D rms c2 w2 = (c', w')"
    using run plan(1) by (auto simp: reconcileLocked_def split: option.splits prod.splits)
  have "Snapshot D w = Inr (rPeers rd)" using rd by (auto simp: readForReconcile_def split: sum.splits)
  then have "dev w \<subseteq> PublicKey ` set (rPeers rd)" using law_snapshot [OF laws] by (metis (no_types))
  moreover have "dev w2 = dev w" by (rule persist_device(1) [OF laws s])
  ultimately have sub: "dev w2 \<subseteq> PublicKey ` set (rPeers rd)" by simp
  have "dev w' \<subseteq> dev w2 - remKey ` set rms" by (rule removeLoop_enforces [OF laws loop assms(9)])
  also have "remKey ` set rms = PublicKey ` {p \<in> set (rPeers rd). mustRemove L D rd w c p}" using plan(2) by simp
  finally have left: "dev w' \<subseteq> dev w2 - PublicKey ` {p \<in> set (rPeers rd). mustRemove L D rd w c p}" .
  show ?thesis
  proof
    fix k assume "k \<in> dev w'"
    note k = subsetD [OF left this, THEN DiffD1] subsetD [OF left this, THEN DiffD2]
    from subsetD [OF sub k(1)] obtain p where p: "k = PublicKey p" "p \<in> set (rPeers rd)" by (rule imageE)
    have "\<not> mustRemove L D rd w c p"
    proof
      assume "mustRemove L D rd w c p"
      then have "k \<in> PublicKey ` {p \<in> set (rPeers rd). mustRemove L D rd w c p}" using p by simp
      then show False by (rule k(2))
    qed
    with p show "k \<in> PublicKey ` {p \<in> set (rPeers rd). \<not> mustRemove L D rd w c p}" by simp
  qed
qed

lemma reconcilePlan_refined:
  assumes laws: "deviceLaws D dev okEp" and plan: "reconcilePlan L D rd c w = (e, c', removals)" and rd: "readingOk D okEp w rd"
    and wf: "wfm (peers c)"
  obtains c2 where "refined L D okEp w (PublicKey ` set (rPeers rd)) c c2"
    and "wfm (peers c')" and "\<And>k. map_of (peers c') k = map_of (peers c2) k \<or> (\<exists>r. map_of (peers c2) k = Some r \<and> expiredPeer rd k r) \<and> map_of (peers c') k = None"
proof -
  let ?ks = "PublicKey ` set (rPeers rd)"
  obtain e1 c1 un where a: "accountLoop L D rd w (rPeers rd) c [] = (e1, c1, un)" by (metis prod_cases3)
  have r1: "refined L D okEp w ?ks c c1"
    using rd by (intro accountLoop_refined [OF laws a]) (auto simp: readingOk_def)
  show thesis
  proof (cases e1)
    case (Some x)
    with a plan refinedD(4) [OF r1 wf] show thesis by (intro that [OF r1]) (simp_all add: reconcilePlan_def)
  next
    case None
    let ?rm = "map (\<lambda>k. \<lparr>remKey = k, reason = ''unauthorized''\<rparr>) un"
    obtain e2 c2 rms where j: "judgeLoop L D rd w un (rPeers rd) (blockLoop L rd c1) ?rm = (e2, c2, rms)" by (metis prod_cases3)
    note r1
    also have "refined L D okEp w ?ks c1 (blockLoop L rd c1)" by (simp add: refined_same)
    also have "refined L D okEp w ?ks (blockLoop L rd c1) c2" by (rule judgeLoop_refined [OF laws j]) simp
    finally have r2: "refined L D okEp w ?ks c c2" .
    have "peers c' = peers c2 \<or> peers c' = keep (\<lambda>k r. \<not> expiredPeer rd k r) (peers c2)"
      using plan a None j by (auto simp: reconcilePlan_def pruneQuotas_def prunePeers_def split: option.splits)
    then show thesis using refinedD(4) [OF r2 wf] by (intro that [OF r2]) (auto simp: map_of_keep wfm_keep split: option.splits if_splits)
  qed
qed

lemma reconcileLocked_device:
  assumes laws: "deviceLaws D dev okEp" and run: "reconcileLocked L D rd c w = (e, c', w')"
    and rd: "readingOk D okEp w rd" and wf: "wfm (peers c)" and sound: "soundRecords L D okEp c w"
    and known: "known dev (matching L D w) c w" and new: "known dev (seenOrNew rd) c w"
  shows "wfm (peers c') \<and> soundRecords L D okEp c' w' \<and> known dev (matching L D w') c' w' \<and> nowTime D w \<le> nowTime D w'"
proof (cases "stateErr c")
  case (Some x)
  then show ?thesis using assms by (simp add: reconcileLocked_def)
next
  case None
  obtain e1 c1 rms where p: "reconcilePlan L D rd c w = (e1, c1, rms)" by (metis prod_cases3)
  obtain c2 where r: "refined L D okEp w (PublicKey ` set (rPeers rd)) c c2" and wf1: "wfm (peers c1)"
    and pruned: "\<And>k. map_of (peers c1) k = map_of (peers c2) k \<or> (\<exists>r. map_of (peers c2) k = Some r \<and> expiredPeer rd k r) \<and> map_of (peers c1) k = None"
    using reconcilePlan_refined [OF laws p rd wf] by blast
  have sound1: "soundRecords L D okEp c1 w"
    using refinedD(3) [OF r sound] pruned unfolding soundRecords_def by (metis option.distinct(1))
  have "\<exists>r1. map_of (peers c1) k = Some r1 \<and> matching L D w k r1" if k: "k \<in> dev w" for k
  proof -
    obtain r0 where r0: "map_of (peers c) k = Some r0" "matching L D w k r0" "seenOrNew rd k r0"
      using known new k unfolding known_def by fastforce
    obtain r1 where r1: "map_of (peers c2) k = Some r1" "KeyID r1 = KeyID r0" "AuthGeneration r1 = AuthGeneration r0"
      using refinedD(2) [OF r r0(1)] by blast
    have "seenOrNew rd k r1"
      using refinedD(1) [OF r, of k] r0 r1(1) by (cases "k \<in> PublicKey ` set (rPeers rd)") (auto simp: seenOrNew_def)
    then have "map_of (peers c1) k = Some r1" using pruned [of k] r1(1) not_expired [of rd k r1] by auto
    then show ?thesis using r0(2) matches_ids [OF r1(2,3), of L D w] by (simp add: matching_def)
  qed
  then have known1: "known dev (matching L D w) c1 w" by (simp add: known_def)
  have done1: "wfm (peers c') \<and> soundRecords L D okEp c' w' \<and> known dev (matching L D w') c' w'"
    if "peers c' = peers c1" "dev w' \<subseteq> dev w"
    using that wf1 sound1 known1 matches_world(1) [OF laws, of L w w'] soundRecords_world [OF laws, of L c' w w']
    by (auto simp: known_def matching_def soundRecords_def)
  obtain e3 c3 w3 where s: "persistLocked L D c1 w = (e3, c3, w3)" by (metis prod_cases3)
  have p3: "peers c3 = peers c1" "dev w3 = dev w" "nowTime D w \<le> nowTime D w3"
    using persistLocked_maps(1) [OF s] persist_device [OF laws s] by simp_all
  show ?thesis
  proof (cases "e1 = None \<and> e3 = None")
    case True
    then have "removeLoop D rms c3 w3 = (c', w')"
      using run None p s by (simp add: reconcileLocked_def split: prod.splits)
    from removeLoop_device [OF laws this] p3 done1 show ?thesis by auto
  next
    case False
    then have "peers c' = peers c1 \<and> dev w' = dev w \<and> nowTime D w \<le> nowTime D w'"
      using run None p s p3 by (auto simp: reconcileLocked_def split: option.splits)
    then show ?thesis using done1 by simp
  qed
qed

text \<open>The part of the invariant that restoring keeps as well.\<close>

definition guarded :: "lib \<Rightarrow> 'w deps \<Rightarrow> ('w \<Rightarrow> wgKey set) \<Rightarrow> (string \<Rightarrow> bool) \<Rightarrow> accessController \<Rightarrow> 'w \<Rightarrow> bool" where
  "guarded L D dev okEp c w \<longleftrightarrow> wfm (peers c) \<and> soundRecords L D okEp c w \<and> known dev (matching L D w) c w"

lemma matches_clear [simp]:
  "recordMatchesCurrentModeLocked L D w (r\<lparr>Endpoint := e, EndpointSeenAt := t\<rparr>) = recordMatchesCurrentModeLocked L D w r"
  by (simp add: recordMatchesCurrentModeLocked_def)

lemma guarded_clear:
  assumes "guarded L D dev okEp c w" and "map_of (peers c) k = Some r" and "okEp []"
    and "peers c' = put (peers c) k (r\<lparr>Endpoint := [], EndpointSeenAt := 0\<rparr>)"
  shows "guarded L D dev okEp c' w"
  using assms
  by (auto simp: guarded_def soundRecords_def soundRecord_def known_def matching_def map_of_put)

lemma guarded_world:
  assumes "deviceLaws D dev okEp" and "guarded L D dev okEp c w" and "peers c' = peers c" and "dev w' \<subseteq> insert k (dev w)"
    and "k \<in> dev w' \<Longrightarrow> k \<notin> dev w \<Longrightarrow> \<exists>r. map_of (peers c) k = Some r \<and> recordMatchesCurrentModeLocked L D w r"
  shows "guarded L D dev okEp c' w'"
proof -
  note m = matches_world(1) [OF assms(1), of L w w']
  have "soundRecords L D okEp c' w'"
    using assms(2,3) soundRecords_world [OF assms(1), of L c w w'] by (simp add: guarded_def soundRecords_def)
  moreover have "\<exists>r. map_of (peers c') k' = Some r \<and> recordMatchesCurrentModeLocked L D w' r" if "k' \<in> dev w'" for k'
  proof (cases "k' \<in> dev w")
    case True
    then show ?thesis using assms(2,3) by (simp add: guarded_def known_def matching_def m)
  next
    case False
    with that assms(4) have "k' = k" by blast
    then show ?thesis using assms(3,5) that False by (simp add: m)
  qed
  ultimately show ?thesis using assms(2,3) by (simp add: guarded_def known_def matching_def)
qed

lemma restoreOne_guarded:
  assumes laws: "deviceLaws D dev okEp" and one: "restoreOne L D now limit revs peer r c w = Inr (ch, c1, w1)"
    and r: "map_of (peers c) peer = Some r" and g: "guarded L D dev okEp c w"
  shows "guarded L D dev okEp c1 w1 \<and> (\<forall>k. k \<noteq> peer \<longrightarrow> map_of (peers c1) k = map_of (peers c) k)"
proof -
  have "okEp (Endpoint r)" using g r by (simp add: guarded_def soundRecords_def soundRecord_def)
  note add = law_add [OF laws this]
  note clear = guarded_clear [OF g r law_empty [OF laws]]
  have rest: "(peers c1 = peers c \<or> peers c1 = put (peers c) peer (r\<lparr>Endpoint := [], EndpointSeenAt := 0\<rparr>))
      \<and> dev w1 \<subseteq> insert peer (dev w) \<and> (dev w1 \<subseteq> dev w \<or> recordMatchesCurrentModeLocked L D w r)"
    using one by (auto simp: restoreOne_def clearEndpoint_def Let_def split: if_splits option.splits sum.splits prod.splits dest: add)
  then have others: "\<forall>k. k \<noteq> peer \<longrightarrow> map_of (peers c1) k = map_of (peers c) k" by (auto simp: map_of_put)
  have g1: "guarded L D dev okEp c1 w"
  proof (cases "peers c1 = peers c")
    case True
    then show ?thesis by (intro guarded_world [OF laws g, of c1 w undefined]) auto
  next
    case False
    with rest show ?thesis by (intro clear) simp
  qed
  have new: "\<exists>r'. map_of (peers c1) peer = Some r' \<and> recordMatchesCurrentModeLocked L D w r'" if "peer \<in> dev w1" "peer \<notin> dev w"
    using that rest r by (auto simp: map_of_put)
  have "dev w1 \<subseteq> insert peer (dev w)" using rest by simp
  from guarded_world [OF laws g1 refl this new] have "guarded L D dev okEp c1 w1" .
  with others show ?thesis by blast
qed

lemma restoreLoop_guarded:
  assumes laws: "deviceLaws D dev okEp" and "restoreLoop L D now limit revs es changed c w = (e, ch, c', w')"
    and "\<forall>(k, r)\<in>set es. map_of (peers c) k = Some r" and "distinct (map fst es)" and "guarded L D dev okEp c w"
  shows "guarded L D dev okEp c' w'"
  using assms(2-5)
proof (induction es arbitrary: changed c w)
  case (Cons en es)
  obtain k r where en: "en = (k, r)" by (cases en)
  show ?case
  proof (cases "restoreOne L D now limit revs k r c w")
    case (Inl e1)
    with Cons.prems show ?thesis by (simp add: en)
  next
    case (Inr res)
    obtain ch1 c1 w1 where res: "res = (ch1, c1, w1)" by (metis prod_cases3)
    have "map_of (peers c) k = Some r" using Cons.prems(2) by (simp add: en)
    note one = restoreOne_guarded [OF laws Inr [unfolded res] this Cons.prems(4)]
    have "map_of (peers c1) k' = Some r'" if "(k', r') \<in> set es" for k' r'
    proof -
      have "k' \<noteq> k" using Cons.prems(3) that by (force simp: en)
      then show ?thesis using Cons.prems(2) one that by (auto simp: en)
    qed
    then have "\<forall>(k', r')\<in>set es. map_of (peers c1) k' = Some r'" by blast
    then show ?thesis using Cons.IH [of "changed \<or> ch1" c1 w1] Cons.prems(1,3) one by (simp add: en Inr res)
  qed
qed simp

lemma persist_guarded:
  assumes "deviceLaws D dev okEp" and "persistLocked L D c w = (e, c', w')" and "guarded L D dev okEp c w"
  shows "guarded L D dev okEp c' w'"
  using persist_device(1) [OF assms(1,2)]
  by (intro guarded_world [OF assms(1,3) persistLocked_maps(1) [OF assms(2)], of _ undefined]) auto

lemma restorePeers_guarded:
  assumes laws: "deviceLaws D dev okEp" and run: "restorePeersLocked L D now limit revs c w = (e, c', w')"
    and g: "guarded L D dev okEp c w"
  shows "guarded L D dev okEp c' w'"
proof -
  obtain e1 ch c1 w1 where l: "restoreLoop L D now limit revs (peers c) False c w = (e1, ch, c1, w1)" by (metis prod_cases4)
  have "wfm (peers c)" using g by (simp add: guarded_def)
  then have "guarded L D dev okEp c1 w1"
    using restoreLoop_guarded [OF laws l _ _ g] by (auto simp: wfm_def)
  then show ?thesis
    using run l g persist_guarded [OF laws] by (auto simp: restorePeersLocked_def split: option.splits if_splits)
qed

section \<open>The server as a transition system\<close>

text \<open>
  Start-up is over and has not failed. The device had no peer before, and the state file held sound
  records: those of an earlier run are, as the invariant below says of all records that are ever saved.
\<close>

type_synonym 'w server = "accessController \<times> 'w \<times> reconcileRead option"

definition server_start :: "lib \<Rightarrow> 'w deps \<Rightarrow> ('w \<Rightarrow> wgKey set) \<Rightarrow> (string \<Rightarrow> bool) \<Rightarrow> 'w server \<Rightarrow> bool" where
  "server_start L D dev okEp s \<longleftrightarrow>
     (\<exists>w0 c w. s = (c, w, None) \<and> startAccess L D newAccessController w0 = (None, c, w) \<and> dev w0 = {}
        \<and> (\<forall>state found ps encoded r. LoadState D w0 = Inr (state, found) \<longrightarrow> Peers state = Some ps \<longrightarrow>
             (encoded, r) \<in> set ps \<longrightarrow> soundRecord L D okEp w0 r))"

inductive server_step :: "lib \<Rightarrow> 'w deps \<Rightarrow> ('w \<Rightarrow> wgKey set) \<Rightarrow> 'w server \<Rightarrow> 'w server \<Rightarrow> bool"
  for L :: lib and D :: "'w deps" and dev :: "'w \<Rightarrow> wgKey set" where
  register: "registerPeer L D c w peer reqKey = (res, c', w') \<Longrightarrow> server_step L D dev (c, w, rd) (c', w', rd)"
| issue: "issueAuthKeyLocked L D secret key ip maxPerIP window c w = (out, c', w') \<Longrightarrow> server_step L D dev (c, w, rd) (c', w', rd)"
| read: "readForReconcile D w = Inr rd \<Longrightarrow> server_step L D dev (c, w, None) (c, w, Some rd)"
| reconcile: "reconcileLocked L D rd c w = (e, c', w') \<Longrightarrow> server_step L D dev (c, w, Some rd) (c', w', None)"
| reorder: "reordered c c' \<Longrightarrow> server_step L D dev (c, w, rd) (c', w, rd)"
| environment: "dev w' = dev w \<Longrightarrow> nowTime D w \<le> nowTime D w' \<Longrightarrow> server_step L D dev (c, w, rd) (c, w', rd)"

inductive_cases server_step_elim: "server_step L D dev (c, w, rd) t"

definition flight :: "'w deps \<Rightarrow> ('w \<Rightarrow> wgKey set) \<Rightarrow> (string \<Rightarrow> bool) \<Rightarrow> reconcileRead option \<Rightarrow> accessController \<Rightarrow> 'w \<Rightarrow> bool" where
  "flight D dev okEp inFlight c w \<longleftrightarrow> (\<forall>rd. inFlight = Some rd \<longrightarrow> readingOk D okEp w rd \<and> known dev (seenOrNew rd) c w)"

definition server_inv :: "lib \<Rightarrow> 'w deps \<Rightarrow> ('w \<Rightarrow> wgKey set) \<Rightarrow> (string \<Rightarrow> bool) \<Rightarrow> 'w server \<Rightarrow> bool" where
  "server_inv L D dev okEp s \<longleftrightarrow> (case s of (c, w, inFlight) \<Rightarrow> guarded L D dev okEp c w \<and> flight D dev okEp inFlight c w)"

lemma reading_later:
  "deviceLaws D dev okEp \<Longrightarrow> readingOk D okEp w rd \<Longrightarrow> nowTime D w \<le> nowTime D w' \<Longrightarrow> readingOk D okEp w' rd"
  using law_config(1) [of D dev okEp w w'] by (simp add: readingOk_def)

lemma step_quiet:
  assumes laws: "deviceLaws D dev okEp" and g: "guarded L D dev okEp c w" and f: "flight D dev okEp rd c w"
    and same: "peers c' = peers c" "dev w' = dev w" "nowTime D w \<le> nowTime D w'"
  shows "guarded L D dev okEp c' w' \<and> flight D dev okEp rd c' w'"
proof
  show "guarded L D dev okEp c' w'" using same by (intro guarded_world [OF laws g, of c' w' undefined]) auto
  show "flight D dev okEp rd c' w'" using f same(1,2) reading_later [OF laws _ same(3)] by (simp add: flight_def known_def)
qed

lemma registerPeer_guarded:
  assumes laws: "deviceLaws D dev okEp" and run: "registerPeer L D c w peer reqKey = (res, c', w')"
    and g: "guarded L D dev okEp c w" and f: "flight D dev okEp rd c w"
  shows "guarded L D dev okEp c' w' \<and> flight D dev okEp rd c' w'"
  using run
proof (cases rule: registerPeer_cases)
  case (refused e)
  then show ?thesis using g f by simp
next
  case (admitted cr owner quota)
  let ?r = "admittedRecord c peer cr (nowTime D w)"
  note admit = admitted(9)
  have auth: "recordMatchesCurrentModeLocked L D w ?r" "issuedId D w (KeyID ?r)"
    using authorized_sound [OF admitted(2,3), of c peer "nowTime D w"] by simp_all
  have "okEp (Endpoint ?r)"
    using g law_empty [OF laws] by (auto simp: admittedRecord_def guarded_def soundRecords_def soundRecord_def split: option.splits)
  with auth(2) have "soundRecord L D okEp w ?r" by (simp add: soundRecord_def)
  then have "soundRecords L D okEp c' w"
    using g admitPeer_records [OF admit] unfolding guarded_def soundRecords_def by metis
  moreover have "known dev (matching L D w) c' w'"
    using g auth(1) by (intro admitPeer_known [OF laws admit]) (simp_all add: guarded_def matching_def)
  moreover have "wfm (peers c')"
    using g admit by (auto simp: guarded_def admitPeer_def storeAdmitted_def touchRuntime_def restoreRecordLocked_def restoreQuotaLocked_def Let_def
        split: prod.splits option.splits dest!: persistLocked_maps(1))
  ultimately have "guarded L D dev okEp c' w'"
    using soundRecords_world [OF laws, of L c' w w'] matches_world(1) [OF laws, of L w w'] by (simp add: guarded_def matching_def known_def)
  moreover have "known dev (seenOrNew rd') c' w'" if "rd = Some rd'" for rd'
    using f that by (intro admitPeer_known [OF laws admit]) (simp_all add: flight_def readingOk_def seenOrNew_def admittedRecord_def)
  ultimately show ?thesis
    using f reading_later [OF laws _ admitPeer_clock [OF laws admit]] by (simp add: flight_def)
qed

lemma reading_fresh:
  assumes "deviceLaws D dev okEp" and "readForReconcile D w = Inr rd"
  shows "readingOk D okEp w rd" and "known dev (seenOrNew rd) c w \<longleftrightarrow> (\<forall>k\<in>dev w. \<exists>r. map_of (peers c) k = Some r)"
  using assms(2) law_snapshot [OF assms(1)]
  by (fastforce simp: readForReconcile_def readingOk_def known_def seenOrNew_def split: sum.splits)+

lemma loadPeers_from:
  "loadPeers L ps c = (e, c') \<Longrightarrow> map_of (peers c') k = Some r \<Longrightarrow> map_of (peers c) k = Some r \<or> r \<in> snd ` set ps"
proof (induction ps arbitrary: c)
  case (Cons en ps)
  obtain encoded r0 where en: "en = (encoded, r0)" by (cases en)
  show ?case
  proof (cases "e = None \<or> (\<exists>key. ParseKey L encoded = Some key \<and> loadPeers L ps (c\<lparr>peers := put (peers c) key r0\<rparr>) = (e, c'))")
    case True
    then obtain key where "loadPeers L ps (c\<lparr>peers := put (peers c) key r0\<rparr>) = (e, c')"
      using Cons.prems(1) by (auto simp: en split: option.splits if_splits)
    from Cons.IH [OF this Cons.prems(2)] show ?thesis by (auto simp: en map_of_put split: if_splits)
  next
    case False
    then have "c' = c" using Cons.prems(1) by (auto simp: en split: option.splits if_splits)
    then show ?thesis using Cons.prems(2) by simp
  qed
qed simp

lemma loadQuotas_peers: "loadQuotas L now qs c = (e, c') \<Longrightarrow> peers c' = peers c"
  by (induction qs arbitrary: c) (auto split: if_splits)

lemma loadCounts_peers: "loadCounts ics c = (e, c') \<Longrightarrow> peers c' = peers c"
  by (induction ics arbitrary: c) (auto split: if_splits)

lemma loadFound_from:
  assumes "loadFound L now state c = (e, c')" and "peers c = []" and "map_of (peers c') k = Some r"
  obtains ps where "Peers state = Some ps" and "r \<in> snd ` set ps"
proof -
  have "peers c' \<noteq> peers c" using assms(2,3) by auto
  then obtain ps qs ics c1 where s: "Peers state = Some ps" "loadQuotas L now qs c = (None, c1)"
    and rest: "(case loadPeers L ps c1 of
                  (Some e, c2) \<Rightarrow> (Some e, c2)
                | (None, c2) \<Rightarrow> loadCounts ics (c2\<lparr>issueWindow := IssueWindow state\<rparr>)) = (e, c')"
    using assms(1) loadQuotas_peers
    by (auto simp: loadFound_def split: if_splits option.splits prod.splits dest: loadQuotas_peers)
  obtain e2 c2 where l: "loadPeers L ps c1 = (e2, c2)" by fastforce
  have "peers c' = peers c2"
    using rest loadCounts_peers [of ics "c2\<lparr>issueWindow := IssueWindow state\<rparr>"] by (cases e2) (auto simp: l)
  then have "map_of (peers c2) k = Some r" using assms(3) by simp
  from loadPeers_from [OF l this] loadQuotas_peers [OF s(2)] assms(2) have "r \<in> snd ` set ps" by simp
  with s(1) show thesis by (rule that)
qed

lemma loadPeers_wfm: "loadPeers L ps c = (e, c') \<Longrightarrow> wfm (peers c) \<Longrightarrow> wfm (peers c')"
  by (induction ps arbitrary: c) (auto split: option.splits if_splits)

lemma loadFound_wfm: "loadFound L now state c = (e, c') \<Longrightarrow> wfm (peers c) \<Longrightarrow> wfm (peers c')"
  by (auto simp: loadFound_def split: if_splits option.splits prod.splits
      dest!: loadQuotas_peers loadPeers_wfm loadCounts_peers)

lemma load_peers:
  assumes "load L D newAccessController w = (None, c', w')" and "map_of (peers c') k = Some r"
  shows "\<exists>state found ps. LoadState D w = Inr (state, found) \<and> Peers state = Some ps \<and> r \<in> snd ` set ps"
proof -
  obtain state found where ls: "LoadState D w = Inr (state, found)" using assms(1) by (auto simp: load_def split: sum.splits)
  define c0 where "c0 = newAccessController\<lparr>peers := [], quotas := [], runtime := [], issueCounts := [], stateErr := None, failures := []\<rparr>"
  obtain e1 c1 where l: "(if found then loadFound L (nowTime D w) state c0 else (None, c0)) = (e1, c1)" by (metis surj_pair)
  have "peers c' = peers c1"
    using assms(1) persistLocked_maps(1) by (fastforce simp: load_def ls Let_def c0_def [symmetric] l rollIssueWindow_def split: option.splits)
  then have r: "map_of (peers c1) k = Some r" using assms(2) by simp
  then have f: "found" "loadFound L (nowTime D w) state c0 = (e1, c1)" using l by (auto simp: c0_def split: if_splits)
  obtain ps where "Peers state = Some ps" "r \<in> snd ` set ps"
    using loadFound_from [OF f(2) _ r] by (auto simp: c0_def)
  with ls show ?thesis by blast
qed

lemma load_wfm: "load L D newAccessController w = (None, c', w') \<Longrightarrow> wfm (peers c')"
  by (auto simp: load_def Let_def rollIssueWindow_def newAccessController_def split: sum.splits prod.splits option.splits if_splits
      dest!: loadFound_wfm persistLocked_maps(1))

lemma load_device: "deviceLaws D dev okEp \<Longrightarrow> load L D c w = (e, c', w') \<Longrightarrow> dev w' = dev w"
  using law_save [of D dev okEp]
  by (fastforce simp: load_def persistLocked_def Let_def split: sum.splits prod.splits option.splits)

section \<open>The invariant\<close>

lemma guarded_start:
  assumes laws: "deviceLaws D dev okEp" and start: "server_start L D dev okEp (c, w, rd)"
  shows "guarded L D dev okEp c w \<and> rd = None"
proof -
  obtain w0 where run: "startAccess L D newAccessController w0 = (None, c, w)" and none: "dev w0 = {}" "rd = None"
    and stored: "\<And>state found ps encoded r. LoadState D w0 = Inr (state, found) \<Longrightarrow> Peers state = Some ps \<Longrightarrow>
      (encoded, r) \<in> set ps \<Longrightarrow> soundRecord L D okEp w0 r"
    using start by (auto simp: server_start_def)
  obtain c1 w1 where l: "load L D newAccessController w0 = (None, c1, w1)"
    and rest: "(case restorePeers L D c1 w1 of (Some e, c2, w2) \<Rightarrow> (Some e, c2, w2) | (None, c2, w2) \<Rightarrow> reconcile L D c2 w2) = (None, c, w)"
    using run by (auto simp: startAccess_def split: prod.splits option.splits)
  have "soundRecords L D okEp c1 w0"
    using load_peers [OF l] stored unfolding soundRecords_def by fastforce
  then have g1: "guarded L D dev okEp c1 w1"
    using none load_wfm [OF l] load_device [OF laws l] soundRecords_world [OF laws, of L c1 w0 w1] by (simp add: guarded_def known_def)
  obtain c2 w2 where r: "restorePeers L D c1 w1 = (None, c2, w2)" and rc: "reconcile L D c2 w2 = (None, c, w)"
    using rest by (auto split: prod.splits option.splits)
  have g2: "guarded L D dev okEp c2 w2" using restorePeers_guarded [OF laws _ g1] r by (simp add: restorePeers_def)
  obtain rd' where rd': "readForReconcile D w2 = Inr rd'" "reconcileLocked L D rd' c2 w2 = (None, c, w)"
    using rc by (auto simp: reconcile_def split: sum.splits)
  have "known dev (seenOrNew rd') c2 w2"
    using reading_fresh(2) [OF laws rd'(1), of c2] g2 by (fastforce simp: guarded_def known_def)
  with reconcileLocked_device [OF laws rd'(2) reading_fresh(1) [OF laws rd'(1)]] g2 none(2) show ?thesis
    by (simp add: guarded_def)
qed

lemma server_step_inv:
  assumes laws: "deviceLaws D dev okEp" and step: "server_step L D dev s t" and inv: "server_inv L D dev okEp s"
  shows "server_inv L D dev okEp t"
  using step inv
proof cases
  case (register c w peer reqKey res c' w' rd)
  have "guarded L D dev okEp c w" and "flight D dev okEp rd c w" using inv register(1) by (simp_all add: server_inv_def)
  from registerPeer_guarded [OF laws register(3) this] show ?thesis by (simp add: register(2) server_inv_def)
next
  case (issue secret key ip maxPerIP window c w out c' w' rd)
  note issue_quiet [OF laws issue(3)]
  with inv issue(1) step_quiet [OF laws, of L c w rd] show ?thesis by (simp add: issue(2) server_inv_def)
next
  case (read w rd c)
  then show ?thesis
    using inv reading_fresh(1) [OF laws read(3)] reading_fresh(2) [OF laws read(3), of c] by (auto simp: server_inv_def flight_def guarded_def known_def)
next
  case (reconcile rd c w e c' w')
  then show ?thesis
    using inv reconcileLocked_device [OF laws reconcile(3)] by (simp add: server_inv_def guarded_def flight_def)
next
  case (reorder c c' w rd)
  then show ?thesis
    using inv by (simp add: reordered_def wfMaps_def server_inv_def guarded_def soundRecords_def known_def flight_def)
next
  case (environment w' w c rd)
  with inv step_quiet [OF laws, of L c w rd] show ?thesis by (simp add: server_inv_def)
qed

interpretation server: invariant_system "server_start L D dev okEp" "server_step L D dev"
    "\<lambda>s. deviceLaws D dev okEp \<longrightarrow> server_inv L D dev okEp s"
  for L and D :: "'w deps" and dev and okEp
proof
  fix s t :: "'w server"
  show "server_start L D dev okEp s \<Longrightarrow> deviceLaws D dev okEp \<longrightarrow> server_inv L D dev okEp s"
    using guarded_start [of D dev okEp L] by (auto simp: server_inv_def flight_def split: prod.splits)
  show "deviceLaws D dev okEp \<longrightarrow> server_inv L D dev okEp s \<Longrightarrow> server_step L D dev s t \<Longrightarrow>
      deviceLaws D dev okEp \<longrightarrow> server_inv L D dev okEp t"
    by (blast intro: server_step_inv)
qed

lemma device_authorized:
  assumes "deviceLaws D dev okEp" and "reach (server_start L D dev okEp) (server_step L D dev) (c, w, rd)"
  shows "\<forall>k\<in>dev w. \<exists>r. map_of (peers c) k = Some r \<and> recordMatchesCurrentModeLocked L D w r \<and> issuedId D w (KeyID r)"
    and "soundRecords L D okEp c w"
  using server.reach_inv [OF assms(2)] assms(1)
  by (auto simp: server_inv_def guarded_def known_def matching_def soundRecords_def soundRecord_def)

end
