(* ===== verification/ServerRun.thy ===== *)
theory ServerRun
  imports Program AccessSystem
begin

text \<open>
  The running server on its files and its WireGuard device: the transition system of \<open>AccessSystem\<close> with the
  interfaces \<open>globalAccess\<close> wires up in \<open>tunwg/access_store.go\<close>, from what is documented of the
  device's configuration protocol.
\<close>

section \<open>The device behind its text protocol\<close>

text \<open>
  \<open>wgPeers\<close> is the set of keys the device has as peers. A text whose first line selects a key, and that selects no
  other, changes at most that peer; \<open>remove=true\<close> removes it, if the device accepts the text; and the
  device prints all its peers, in the documented form.
\<close>

definition wgLaws :: "(string \<Rightarrow> 'd \<Rightarrow> string option \<times> 'd) \<Rightarrow> ('d \<Rightarrow> string + string) \<Rightarrow> ('d \<Rightarrow> wgKey set) \<Rightarrow> bool" where
  "wgLaws setIpc getIpc wgPeers \<longleftrightarrow>
     (\<forall>t d r d' k rest. setIpc t d = (r, d') \<longrightarrow> Split t CHR 0x0A = (''public_key='' @ hexEncode k) # rest \<longrightarrow>
        (\<forall>l\<in>set rest. \<not> HasPrefix l ''public_key='') \<longrightarrow>
        wgPeers d' \<subseteq> insert k (wgPeers d)
        \<and> (''remove=true'' \<in> set rest \<longrightarrow> wgPeers d' \<subseteq> wgPeers d \<and> (r = None \<longrightarrow> k \<notin> wgPeers d')))
     \<and> (\<forall>d t. getIpc d = Inr t \<longrightarrow>
          (\<exists>priv port us. t = uapiText priv port us \<and> list_all uapiOk us \<and> lineOk (''private_key='' @ priv)
             \<and> lineOk (''listen_port='' @ showInt port) \<and> int64 port \<and> wgPeers d = uKey ` set us))"

lemma allowUserKey_device:
  assumes "wgLaws setIpc getIpc wgPeers" and "noLine endpoint" and "allowUserKey sha setIpc key endpoint d = (r, d')"
  shows "wgPeers d' \<subseteq> insert key (wgPeers d)"
proof -
  let ?rest = "drop 1 (allowUserKeyIpc sha key endpoint)"
  have split: "Split (joinLines (allowUserKeyIpc sha key endpoint)) CHR 0x0A = (''public_key='' @ hexEncode key) # ?rest"
    unfolding allowUserKey_lines [OF assms(2)] by (simp add: allowUserKeyIpc_def)
  have "\<forall>l\<in>set ?rest. \<not> HasPrefix l ''public_key=''" by (auto simp: allowUserKeyIpc_def HasPrefix_def)
  then show ?thesis
    using conjunct1 [OF assms(1) [unfolded wgLaws_def], rule_format, OF assms(3) [unfolded allowUserKey_def WgSetIpc_def] split]
    by blast
qed

lemma removePeer_device:
  assumes "wgLaws setIpc getIpc wgPeers" and "removePeer setIpc key d = (r, d')"
  shows "wgPeers d' \<subseteq> wgPeers d \<and> (r = None \<longrightarrow> key \<notin> wgPeers d')"
proof -
  have "\<forall>l\<in>set [''remove=true'', []]. \<not> HasPrefix l ''public_key=''" by (simp add: HasPrefix_def)
  then show ?thesis
    using conjunct1 [OF assms(1) [unfolded wgLaws_def], THEN spec, THEN spec, THEN spec, THEN spec, THEN spec, THEN spec,
        THEN mp, OF assms(2) [unfolded removePeer_def], THEN mp, OF removePeer_lines]
    by simp
qed

lemma snapshot_device:
  assumes "wgLaws setIpc getIpc wgPeers" and "GetWgDeviceInfo (getIpc d) = Inr dev"
  shows "wgPeers d = PublicKey ` set (dPeers dev)" and "\<forall>p\<in>set (dPeers dev). \<forall>e. PEndpoint p = Some e \<longrightarrow> noLine e"
proof -
  obtain t where t: "getIpc d = Inr t" using assms(2) by (cases "getIpc d") (simp_all add: GetWgDeviceInfo_def)
  obtain priv port us where u: "t = uapiText priv port us" "list_all uapiOk us" "lineOk (''private_key='' @ priv)"
      "lineOk (''listen_port='' @ showInt port)" "int64 port" "wgPeers d = uKey ` set us"
    using conjunct2 [OF assms(1) [unfolded wgLaws_def]] t by blast
  have "dPeers dev = map readPeer us" using device_reads [OF u(2-5)] assms(2) t u(1) by auto
  then show "wgPeers d = PublicKey ` set (dPeers dev)" and "\<forall>p\<in>set (dPeers dev). \<forall>e. PEndpoint p = Some e \<longrightarrow> noLine e"
    using u(6) noLine_parsed by (auto simp: readPeer_def image_image Option.bind_eq_Some_conv)
qed

text \<open>The interfaces of the server keep what the transition system relies on.\<close>

lemma globalAccess_laws:
  assumes "wgLaws setIpc getIpc wgPeers"
  shows "deviceLaws (globalAccess L J F hmac setIpc getIpc env store quota) (\<lambda>w. wgPeers (wDev w)) noLine"
proof -
  let ?D = "globalAccess L J F hmac setIpc getIpc env store quota"
  have a: "wgPeers (wDev w') \<subseteq> insert k (wgPeers (wDev w)) \<and> nowTime ?D w \<le> nowTime ?D w'"
    if "noLine ep" "AddPeer ?D k ep w = (r, w')" for k ep w r w'
    using that allowUserKey_device [OF assms, of ep "sha256 L" k "wDev w"]
    by (auto simp: globalAccess_def split: prod.splits)
  have b: "wgPeers (wDev w') \<subseteq> wgPeers (wDev w) \<and> (r = None \<longrightarrow> k \<notin> wgPeers (wDev w')) \<and> nowTime ?D w \<le> nowTime ?D w'"
    if "RemovePeer ?D k w = (r, w')" for k w r w'
    using that removePeer_device [OF assms, of k "wDev w"] by (auto simp: globalAccess_def split: prod.splits)
  have c: "wgPeers (wDev w') = wgPeers (wDev w) \<and> nowTime ?D w \<le> nowTime ?D w'"
    if "SaveState ?D st w = (r, w')" for st w r w'
    using that by (auto simp: globalAccess_def split: prod.splits)
  have d: "wgPeers (wDev w) \<subseteq> PublicKey ` set ps \<and> (\<forall>p\<in>set ps. \<forall>e. PEndpoint p = Some e \<longrightarrow> noLine e)"
    if "Snapshot ?D w = Inr ps" for w ps
    using that snapshot_device [OF assms, of "wDev w"] by (auto simp: globalAccess_def split: sum.splits)
  have e: "authSecret ?D w = authSecret ?D w' \<and> legacyKey ?D w = legacyKey ?D w' \<and> validateKey ?D w = validateKey ?D w'" for w w'
    by (simp add: globalAccess_def)
  show ?thesis
    unfolding deviceLaws_def by (intro conjI) (use a b c d e in \<open>blast, blast, blast, blast, simp, blast\<close>)
qed

section \<open>Authentic peers\<close>

text \<open>
  A record of the configured secret: its generation is that of the secret, and a key signed with it exists for
  its id; or, with a shared key instead of a secret, a record of that key.
\<close>

definition authentic :: "lib \<Rightarrow> (string \<Rightarrow> string \<Rightarrow> string) \<Rightarrow> environ \<Rightarrow> accessPeerState \<Rightarrow> bool" where
  "authentic L hmac env r \<longleftrightarrow>
     (AuthSecret env \<noteq> [] \<longrightarrow>
        AuthGeneration r = authGeneration L (AuthSecret env) \<and> (\<exists>key. ValidateAuthKey hmac (AuthSecret env) key = (KeyID r, True)))
     \<and> (AuthSecret env = [] \<and> AuthKey env \<noteq> [] \<longrightarrow>
        KeyID r = ''shared'' \<and> AuthGeneration r = authGeneration L (AuthKey env))"

lemma device_authentic:
  fixes L J F hmac setIpc getIpc env store quota
  defines "D \<equiv> globalAccess L J F hmac setIpc getIpc env store quota"
  assumes "wgLaws setIpc getIpc wgPeers"
    and "reach (server_start L D (\<lambda>w. wgPeers (wDev w)) noLine) (server_step L D (\<lambda>w. wgPeers (wDev w))) (c, w, inFlight)"
  shows "(\<forall>k\<in>wgPeers (wDev w). \<exists>r. map_of (peers c) k = Some r \<and> authentic L hmac env r)
    \<and> (\<forall>k r. map_of (peers c) k = Some r \<longrightarrow> noLine (Endpoint r))"
proof -
  have laws: "deviceLaws D (\<lambda>w. wgPeers (wDev w)) noLine" unfolding D_def by (rule globalAccess_laws [OF assms(2)])
  have config: "authSecret D w = AuthSecret env" "legacyKey D w = AuthKey env" "validateKey D w = ValidateAuthKey hmac (AuthSecret env)"
    by (simp_all add: D_def globalAccess_def)
  note inv = device_authorized [OF laws assms(3)]
  have "\<forall>k r. map_of (peers c) k = Some r \<longrightarrow> noLine (Endpoint r)"
    using inv(2) by (simp add: soundRecords_def soundRecord_def)
  with inv(1) show ?thesis
    unfolding recordMatchesCurrentModeLocked_def issuedId_def authentic_def config Let_def by (fastforce split: if_splits)
qed

section \<open>A device\<close>

text \<open>The device is the list of its keys. It accepts keys of 32 bytes.\<close>

definition exSetIpc :: "string \<Rightarrow> wgKey list \<Rightarrow> string option \<times> wgKey list" where
  "exSetIpc t d =
     (let ls = Split t CHR 0x0A
      in if ''remove=true'' \<in> set ls then (None, filter (\<lambda>k. ''public_key='' @ hexEncode k \<noteq> hd ls) d)
         else (case hexPairs (drop 11 (hd ls)) of
                 None \<Rightarrow> (Some ''invalid key'', d)
               | Some k \<Rightarrow> if length k = 32 then (None, k # d) else (Some ''invalid key'', d)))"

definition exUapiOf :: "wgKey \<Rightarrow> uapiPeer" where "exUapiOf k = (exUapi 0)\<lparr>uKey := k\<rparr>"

definition exGetIpc :: "wgKey list \<Rightarrow> string + string" where
  "exGetIpc d = Inr (uapiText ''00'' 51820 (map exUapiOf (filter (\<lambda>k. length k = 32) d)))"

definition exWgPeers :: "wgKey list \<Rightarrow> wgKey set" where "exWgPeers d = set (filter (\<lambda>k. length k = 32) d)"

lemma exUapiOf_ok: "length k = 32 \<Longrightarrow> uapiOk (exUapiOf k)"
proof -
  assume k: "length k = 32"
  then have ne: "hexEncode k \<noteq> []" by (cases k) simp_all
  then obtain n where "n < 16" "last (hexEncode k) = hexDigit n" using hexEncode_chars last_in_set by metis
  then have "last (hexEncode k) \<noteq> CHR 0x0D" using hexDigit_hex(1) [of n] by (auto simp: isHex_def isDigit_def byteval_def)
  then have "lineOk (''public_key='' @ hexEncode k)"
    using ne k noLine_hexEncode [of k] by (simp add: lineOk_def noLine_def)
  moreover have "uapiLines (exUapiOf k) = (''public_key='' @ hexEncode k) # drop 1 (uapiLines (exUapi 0))"
    by (simp add: uapiLines_def exUapiOf_def exUapi_def)
  moreover have "list_all lineOk (drop 1 (uapiLines (exUapi 0)))" by code_simp
  ultimately show "uapiOk (exUapiOf k)"
    using k by (simp add: uapiOk_def exUapiOf_def exUapi_def int64_def MinInt64_def MaxInt64_def)
qed

lemma exWg_laws: "wgLaws exSetIpc exGetIpc exWgPeers"
proof -
  have add: "exWgPeers d' \<subseteq> insert k (exWgPeers d) \<and> (''remove=true'' \<in> set rest \<longrightarrow> exWgPeers d' \<subseteq> exWgPeers d \<and> (r = None \<longrightarrow> k \<notin> exWgPeers d'))"
    if "exSetIpc t d = (r, d')" "Split t CHR 0x0A = (''public_key='' @ hexEncode k) # rest" for t d r d' k rest
    using that by (auto simp: exSetIpc_def exWgPeers_def Let_def hexPairs_hexEncode split: if_splits)
  have texts: "\<exists>priv port us. t = uapiText priv port us \<and> list_all uapiOk us \<and> lineOk (''private_key='' @ priv)
      \<and> lineOk (''listen_port='' @ showInt port) \<and> int64 port \<and> exWgPeers d = uKey ` set us" if "exGetIpc d = Inr t" for d t
  proof (intro exI conjI)
    let ?us = "map exUapiOf (filter (\<lambda>k. length k = 32) d)"
    show "t = uapiText ''00'' 51820 ?us" using that by (simp add: exGetIpc_def)
    show "list_all uapiOk ?us" by (auto simp: list_all_iff exUapiOf_ok)
    show "lineOk (''private_key='' @ ''00'')" "lineOk (''listen_port='' @ showInt 51820)" "int64 51820" by code_simp+
    show "exWgPeers d = uKey ` set ?us" by (simp add: exWgPeers_def image_image exUapiOf_def)
  qed
  show ?thesis unfolding wgLaws_def using add texts by blast
qed

end
