(* ===== verification/Incoming.thy ===== *)
theory Incoming
  imports ServerRun
begin

text \<open>
  What the server does with the connections it accepts once \<open>tunwgServer\<close> of \<open>tunwg/tunwgs.go\<close> serves:
  the wiring of the proxy of \<open>tunwg/sni_routes.go\<close>, the API and the redirect; the server on all its
  connections; and the way of a visitor to the client whose name it asks for.
\<close>

section \<open>One connection\<close>

text \<open>
  A connection to port 80 is a request for a host, a path and a request URI; one to port 443 names a host in its TLS
  hello, and holds a request, which matters only if the server itself speaks TLS on it. What comes of
  it: an answer of the API, one of the redirect, a connection dialled to a backend or into the tunnel, or
  the end of the connection when no route takes it.
\<close>

datatype connection = Port80 string string string | Port443 string httpRequest

datatype served = ApiAnswer httpResponse | PlainAnswer plainAction | Backend string nat | Tunnel dialProxy | NoRoute

text \<open>
  \<open>port\<close> is the value \<open>GetListenPort\<close> had at the start; \<open>serve\<close> is the reverse proxy, \<open>cname\<close> DNS, and \<open>hijacker\<close>
  says whether the connection can be taken over.
\<close>

definition serveConnection ::
  "unicode \<Rightarrow> lib \<Rightarrow> codec \<Rightarrow> 'w deps \<Rightarrow> environ \<Rightarrow> ((string \<Rightarrow> dialProxy sniTarget option) list \<Rightarrow> string \<Rightarrow> dialProxy sniTarget option)
   \<Rightarrow> wgKey \<Rightarrow> int \<Rightarrow> sniConfig \<Rightarrow> (string \<Rightarrow> string + string) \<Rightarrow> bool \<Rightarrow> connection \<Rightarrow> accessController \<Rightarrow> 'w
   \<Rightarrow> served \<times> accessController \<times> 'w" where
  "serveConnection U L J D env serve srvKey port cfg cname hijacker conn c w =
     (case conn of
        Port80 h path requestURI \<Rightarrow> (PlainAnswer (sslRedirect U (ApiDomain env) cname h path requestURI), c, w)
      | Port443 sni r \<Rightarrow>
          (case serve (newSNIProxy U (ApiDomain env) cfg (tunnelSNITarget U (ApiDomain env) cname)) sni of
             None \<Rightarrow> (NoRoute, c, w)
           | Some ToApi \<Rightarrow>
               (case apiMux L J D srvKey (ServerIp env) port hijacker r c w of (answer, c1, w1) \<Rightarrow> (ApiAnswer answer, c1, w1))
           | Some (ToBackend addr version) \<Rightarrow> (Backend addr version, c, w)
           | Some (ToTunnel d) \<Rightarrow> (Tunnel d, c, w)))"

text \<open>A connection runs one operation of the controller, or none.\<close>

lemma handleIssue_cases:
  assumes "handleIssue L J D r c w = (resp, c', w')"
  obtains (none) "c' = c" and "w' = w"
  | (no_key) e w1 where "Method r = ''POST''" and "issueKey D w = (Inl e, w1)" and "c' = c" and "w' = w1"
  | (issued) key w1 out where "Method r = ''POST''" and "issueKey D w = (Inr key, w1)"
      and "issueAuthKeyLocked L D (authSecret D w) key (clientIP r) defaultIssueLimitPerIPPerDay (24 * hour) c w1 = (out, c', w')"
  using assms by (auto simp: handleIssue_def issueAuthKey_def Let_def split: if_splits sum.splits prod.splits)

lemma handleAdd_cases:
  assumes "handleAdd L J D srvKey srvIp srvPort r c w = (resp, c', w')"
  obtains (none) "c' = c" and "w' = w"
  | (registered) key res where "Method r = ''POST''" and "requestKey J r = Some key"
      and "registerPeer L D c w key (headerGet r ''X-Authorization'') = (res, c', w')"
  using assms by (auto simp: handleAdd_def split: if_splits option.splits prod.splits)

lemma serveConnection_cases:
  assumes "serveConnection U L J D env serve srvKey port cfg cname hijacker conn c w = (out, c', w')"
    and "firstRoute serve" and "loadSNIConfig U env = Inr cfg"
  obtains (none) "c' = c" and "w' = w"
  | (api) sni r where "conn = Port443 sni r" and "normalizeSNIHost U sni = normalizeSNIHost U (ApiDomain env)"
      and "urlPath r = ''/issue'' \<and> (\<exists>resp. handleIssue L J D r c w = (resp, c', w'))
         \<or> urlPath r = ''/add'' \<and> (\<exists>resp. handleAdd L J D srvKey (ServerIp env) port r c w = (resp, c', w'))"
proof (cases "\<exists>sni r. conn = Port443 sni r \<and> serve (newSNIProxy U (ApiDomain env) cfg (tunnelSNITarget U (ApiDomain env) cname)) sni = Some ToApi
    \<and> (urlPath r = ''/issue'' \<or> urlPath r = ''/add'')")
  case True
  then obtain sni r where c: "conn = Port443 sni r" "urlPath r = ''/issue'' \<or> urlPath r = ''/add''"
      "serve (newSNIProxy U (ApiDomain env) cfg (tunnelSNITarget U (ApiDomain env) cname)) sni = Some ToApi"
    by blast
  have "normalizeSNIHost U sni = normalizeSNIHost U (ApiDomain env)"
    using c(3) conjunct1 [OF route_of_host [OF assms(2,3) [unfolded loadSNIConfig_def]], of "tunnelSNITarget U (ApiDomain env) cname" sni]
    by (auto split: if_splits option.splits)
  with c assms(1) show thesis
    by (intro api [of sni r]) (auto simp: serveConnection_def apiMux_def split: prod.splits)
next
  case False
  then show thesis
    using assms(1) by (intro none) (auto simp: serveConnection_def apiMux_def split: connection.splits option.splits sniTarget.splits prod.splits if_splits)
qed

text \<open>A registration puts at most its own key on the device, and only with a credential that is accepted.\<close>

lemma registerPeer_device:
  assumes laws: "deviceLaws D dev okEp" and run: "registerPeer L D c w peer reqKey = (res, c', w')"
  shows "dev w' \<subseteq> insert peer (dev w)" and "dev w' \<subseteq> dev w \<or> (\<exists>cr. authorizeLocked L D w reqKey = (cr, None))"
proof -
  note save = persist_device(1) [OF laws]
  note add = law_add [OF laws law_empty [OF laws]] and remove = law_remove [OF laws]
  from run have "dev w' \<subseteq> insert peer (dev w) \<and> (dev w' \<subseteq> dev w \<or> (\<exists>cr. authorizeLocked L D w reqKey = (cr, None)))"
  proof (cases rule: registerPeer_cases)
    case (admitted cr owner quota)
    from admitted(9) have "dev w' \<subseteq> insert peer (dev w)"
    proof (cases rule: admitPeer_cases)
      case (added w2)
      with add [OF added(3)] law_save [OF laws added(1)] show ?thesis by blast
    next
      case (unsaved e c2)
      with save [OF unsaved(1)] show ?thesis by blast
    next
      case (dirty w2 w3 err cleanup)
      with add [OF dirty(3)] law_save [OF laws dirty(1)] remove [OF dirty(4)] show ?thesis by blast
    next
      case (cleaned w2 w3 w4 err c3 e)
      with add [OF cleaned(3)] law_save [OF laws cleaned(1)] remove [OF cleaned(4)] save [OF cleaned(6)] show ?thesis by blast
    qed
    with admitted(2) show ?thesis by blast
  qed auto
  then show "dev w' \<subseteq> insert peer (dev w)" and "dev w' \<subseteq> dev w \<or> (\<exists>cr. authorizeLocked L D w reqKey = (cr, None))" by blast+
qed

section \<open>What a connection can do\<close>

text \<open>A target the server dials for a connection: a backend of the configuration, or an address of the tunnel.\<close>

definition insideTarget :: "string \<Rightarrow> bool" where
  "insideTarget t \<longleftrightarrow> (\<exists>a. inSubnet (Addr a) \<and> t = AddrPortString a)"

lemma tunnelSNITarget_inside: "tunnelSNITarget U api cname h = Some d \<Longrightarrow> insideTarget (dialAddr d) \<and> proxyVersion d = 1"
  by (auto simp: tunnelSNITarget_def insideTarget_def split: sum.splits dest!: dispatch_stays_inside [THEN conjunct1])

lemma sslRedirect_inside:
  "sslRedirect U api cname h path requestURI = ProxyTo (Some url) \<Longrightarrow>
     \<exists>a. inSubnet (Addr a) \<and> Port a = 80 \<and> url = ''http://'' @ AddrPortString a \<and> HasPrefix path ''/.well-known/acme-challenge/''"
proof -
  assume run: "sslRedirect U api cname h path requestURI = ProxyTo (Some url)"
  then obtain a where a: "getIPForDomain U api cname h = Inr a" "url = ''http://'' @ AddrPortString (a\<lparr>Port := 80\<rparr>)"
    by (auto simp: sslRedirect_def acmeURL_def split: if_splits sum.splits)
  have "inSubnet (Addr a)" using dispatch_stays_inside [OF a(1)] by blast
  with run a(2) show ?thesis by (intro exI [of _ "a\<lparr>Port := 80\<rparr>"]) (simp add: sslRedirect_def split: if_splits)
qed


section \<open>The server on all its connections\<close>

text \<open>
  The server once \<open>tunwgServer\<close> serves: a connection, with any answers of DNS; the reading of device, clock
  and revocations of a reconciliation, and the work on it; Go's order of maps; and the world outside, which
  leaves the peers of the device alone.
\<close>

definition serving_start :: "accessController \<times> 'w \<Rightarrow> 'w server \<Rightarrow> bool" where
  "serving_start cw s \<longleftrightarrow> s = (fst cw, snd cw, None)"

inductive serving_step ::
  "unicode \<Rightarrow> lib \<Rightarrow> codec \<Rightarrow> 'w deps \<Rightarrow> environ \<Rightarrow> ((string \<Rightarrow> dialProxy sniTarget option) list \<Rightarrow> string \<Rightarrow> dialProxy sniTarget option)
   \<Rightarrow> wgKey \<Rightarrow> int \<Rightarrow> sniConfig \<Rightarrow> ('w \<Rightarrow> wgKey set) \<Rightarrow> 'w server \<Rightarrow> 'w server \<Rightarrow> bool"
  for U :: unicode and L :: lib and J :: codec and D :: "'w deps" and env :: environ and serve and srvKey :: wgKey
    and port :: int and cfg :: sniConfig and dev :: "'w \<Rightarrow> wgKey set" where
  connect: "serveConnection U L J D env serve srvKey port cfg cname hijacker conn c w = (out, c', w') \<Longrightarrow>
    serving_step U L J D env serve srvKey port cfg dev (c, w, rd) (c', w', rd)"
| tick_read: "readForReconcile D w = Inr rd \<Longrightarrow> serving_step U L J D env serve srvKey port cfg dev (c, w, None) (c, w, Some rd)"
| tick_work: "reconcileLocked L D rd c w = (e, c', w') \<Longrightarrow>
    serving_step U L J D env serve srvKey port cfg dev (c, w, Some rd) (c', w', None)"
| range: "reordered c c' \<Longrightarrow> serving_step U L J D env serve srvKey port cfg dev (c, w, rd) (c', w, rd)"
| outside: "dev w' = dev w \<Longrightarrow> nowTime D w \<le> nowTime D w' \<Longrightarrow>
    serving_step U L J D env serve srvKey port cfg dev (c, w, rd) (c, w', rd)"

lemma serving_is_server:
  fixes L J F hmac setIpc getIpc env store quota
  defines "D \<equiv> globalAccess L J F hmac setIpc getIpc env store quota"
  assumes "firstRoute serve" and "loadSNIConfig U env = Inr cfg" and "serving_step U L J D env serve srvKey port cfg dev s t"
  shows "t = s \<or> server_step L D dev s t"
  using assms(4)
proof cases
  case (connect cname hijacker conn c w out c' w' rd)
  have key: "issueKey D w = (k, w1) \<Longrightarrow> w1 = w" for k w1 by (auto simp: D_def globalAccess_def)
  from connect(3) assms(2,3) show ?thesis
  proof (cases rule: serveConnection_cases)
    case (api sni r)
    from api(3) have "(c', w') = (c, w) \<or> server_step L D dev (c, w, rd) (c', w', rd)"
      by (auto elim!: handleIssue_cases handleAdd_cases dest: key intro: server_step.register server_step.issue)
    with connect(1,2) show ?thesis by blast
  qed (simp add: connect(1,2))
qed (auto intro: server_step.intros)



section \<open>A visitor of a client\<close>

lemma normalize_api: "api \<noteq> [] \<Longrightarrow> last api \<noteq> CHR ''.'' \<Longrightarrow> normalizeSNIHost U api = ToLower U api"
  by (simp add: normalizeSNIHost_def TrimSuffix_no HasSuffix_dot)


section \<open>Witnesses\<close>

text \<open>A server with a secret, on an empty disk and an empty device; it reads every body as the request of \<open>exKey\<close>.\<close>

definition exServerCodec :: codec where
  "exServerCodec = exTimes\<lparr>parseJson := (\<lambda>_. Some (JObj [(''Key'', JStr ''a2tra2tra2tra2tra2tra2tra2tra2tra2tra2tra2s='')]))\<rparr>"

definition exSecretEnv :: environ where
  "exSecretEnv = (\<lambda>v. if v = ''TUNWG_AUTH_SECRET'' then ''s'' else if v = ''TUNWG_PORT'' then ''51820''
     else if v = ''TUNWG_IP'' then ''192.0.2.1'' else [])"

definition exRunAccess :: "wgKey list world deps" where
  "exRunAccess = globalAccess exLib exServerCodec noFaults (\<lambda>s k. []) exSetIpc exGetIpc exSecretEnv ''/data'' 0"

definition exRunWorld :: "wgKey list world" where
  "exRunWorld = \<lparr>wFs = emptyDisk, wDev = [], wClock = exNow, wRand = Inr ''r''\<rparr>"

definition exRun :: "serverOutcome \<times> process \<times> accessController \<times> wgKey list world" where
  "exRun = tunwgServer exUnicode exLib exRunAccess exSecretEnv (\<lambda>p w. (None, p, w)) processStart newAccessController exRunWorld"

definition exPlainConfig :: sniConfig where "exPlainConfig = \<lparr>routes = [], proxyProtocol = False\<rparr>"

text \<open>A client of the id \<open>kid\<close> registers its key over TLS.\<close>

definition exAddConnection :: connection where
  "exAddConnection = Port443 ''l.tunwg.com'' ((exPost ''/add'')\<lparr>headerGet := (\<lambda>_. ''kid.'')\<rparr>)"

definition exServed :: "served \<times> accessController \<times> wgKey list world" where
  "exServed = (case exRun of (_, _, c, w) \<Rightarrow>
     serveConnection exUnicode exLib exServerCodec exRunAccess exSecretEnv serveFirst exKey 51820 exPlainConfig (\<lambda>_. Inl ''no DNS'') True exAddConnection c w)"

lemma serveFirst_law: "firstRoute serveFirst"
  by (simp add: firstRoute_def)

lemma exRun_config: "loadSNIConfig exUnicode exSecretEnv = Inr exPlainConfig"
  by code_simp

lemma exRun_facts: "case exRun of (outcome, _, _, w) \<Rightarrow> outcome = Serving exPlainConfig \<and> wDev w = []"
  by code_simp

lemma exRun_serves: "fst exRun = Serving exPlainConfig" and exRun_device: "wDev (snd (snd (snd exRun))) = []"
  using exRun_facts by (simp_all add: split_beta)

lemma exServed_route:
  "serveFirst (newSNIProxy exUnicode (ApiDomain exSecretEnv) exPlainConfig (tunnelSNITarget exUnicode (ApiDomain exSecretEnv) (\<lambda>_. Inl ''no DNS'')))
     ''l.tunwg.com'' = Some ToApi"
  by code_simp

lemma exServed_key: "requestKey exServerCodec ((exPost ''/add'')\<lparr>headerGet := (\<lambda>_. ''kid.'')\<rparr>) = Some exKey"
  by code_simp

lemma exServed_registers: "snd exServed = snd (case exRun of (_, _, c, w) \<Rightarrow> registerPeer exLib exRunAccess c w exKey ''kid.'')"
proof -
  obtain outcome p c0 w0 where run: "exRun = (outcome, p, c0, w0)" by (metis prod.collapse)
  have "urlPath ((exPost ''/add'')\<lparr>headerGet := (\<lambda>_. ''kid.'')\<rparr>) = ''/add''" "Method ((exPost ''/add'')\<lparr>headerGet := (\<lambda>_. ''kid.'')\<rparr>) = ''POST''"
    by (simp_all add: exPost_def)
  moreover obtain cr e c w where "registerPeer exLib exRunAccess c0 w0 exKey ''kid.'' = ((cr, e), c, w)" by (metis prod.collapse)
  ultimately show ?thesis
    unfolding exServed_def run prod.case
    by (simp add: serveConnection_def exAddConnection_def exServed_route apiMux_def handleAdd_def exServed_key split: option.split)
qed

lemma exRegistered_device: "exKey \<in> set (wDev (snd (snd (case exRun of (_, _, c, w) \<Rightarrow> registerPeer exLib exRunAccess c w exKey ''kid.''))))"
  by code_simp

lemmas exServed_device = exRegistered_device [folded exServed_registers] exRun_device

lemma exServed_parts:
  obtains p c0 w0 out c w where "exRun = (Serving exPlainConfig, p, c0, w0)" and "exServed = (out, c, w)"
    and "serveConnection exUnicode exLib exServerCodec exRunAccess exSecretEnv serveFirst exKey 51820 exPlainConfig (\<lambda>_. Inl ''no DNS'') True exAddConnection c0 w0
         = (out, c, w)"
    and "exKey \<in> exWgPeers (wDev w)" and "exWgPeers (wDev w0) = {}"
proof -
  obtain p c0 w0 where r: "exRun = (Serving exPlainConfig, p, c0, w0)" using exRun_serves by (metis prod.collapse)
  obtain out c w where s: "exServed = (out, c, w)" by (metis prod.collapse)
  have "exKey \<in> exWgPeers (wDev w)" using exServed_device(1) by (simp add: s exWgPeers_def) (simp add: exKey_def)
  moreover have "exWgPeers (wDev w0) = {}" using exServed_device(2) by (simp add: r exWgPeers_def)
  moreover note s [unfolded exServed_def r prod.case]
  ultimately show thesis by (intro that [OF r s])
qed




text \<open>A device with a peer nobody has registered; the reconciliation removes it.\<close>

definition exStray :: "wgKey list world" where "exStray = exRunWorld\<lparr>wDev := [exKey]\<rparr>"

lemma exStray_read:
  "case readForReconcile exRunAccess exStray of
     Inl _ \<Rightarrow> False
   | Inr rd \<Rightarrow> map PublicKey (rPeers rd) = [exKey] \<and> list_all okPeer (rPeers rd) \<and> rNow rd = exNow \<and> rSecretMode rd"
  by code_simp

lemma exStray_reconciled: "fst (reconcile exLib exRunAccess newAccessController exStray) = None"
  by code_simp

lemma exSetIpc_removes: "fst (removePeer exSetIpc k d) = None"
  using removePeer_lines [of k] by (simp add: removePeer_def exSetIpc_def Let_def)


end
