(* ===== verification/Tls.thy ===== *)
theory Tls
  imports Config Api Dispatch
begin

text \<open>
  \<open>internal/tls.go\<close>: how an instance obtains the certificate for a TLS hello. Let's Encrypt is asked
  first; when it fails, ZeroSSL is asked with account credentials (an external account binding) that
  are fetched once and kept in a file. The host policy itself is in \<open>Dispatch\<close>.

  The managers of \<open>autocert\<close> with their certificate cache, the network and the functions of \<open>x509\<close> act
  on a world of any type and are arguments (\<open>acmeNet\<close>, \<open>x509Lib\<close>); the credentials file is a file
  of \<open>FileSystem\<close>. \<open>bindingCodec\<close> is the JSON of \<open>acme.ExternalAccountBinding\<close>, a type of another module.
  A call holds \<open>zsMu\<close> from the failure of Let's Encrypt to its end.
\<close>

section \<open>Texts\<close>

text \<open>\<open>base64.RawURLEncoding\<close>: the URL alphabet, no padding, line breaks skipped.\<close>

definition urlToStd :: "char \<Rightarrow> char" where
  "urlToStd c = (if c = CHR ''-'' then CHR ''+'' else if c = CHR ''_'' then CHR ''/'' else c)"

definition rawURLDecode :: "string \<Rightarrow> string option" where
  "rawURLDecode s =
     (let t = filter (\<lambda>c. c \<noteq> CHR 0x0A \<and> c \<noteq> CHR 0x0D) s
      in if list_ex (\<lambda>c. c \<in> {CHR ''+'', CHR ''/'', CHR ''=''}) t \<or> length t mod 4 = 1 then None
         else b64Quads (map urlToStd t @ replicate ((4 - length t mod 4) mod 4) CHR ''=''))"

text \<open>\<open>url.Values.Encode\<close> escapes every byte but letters, digits and four marks.\<close>

definition upperHex :: "nat \<Rightarrow> char" where "upperHex n = ''0123456789ABCDEF'' ! n"

definition unreserved :: "char \<Rightarrow> bool" where
  "unreserved c \<longleftrightarrow> isDigit c \<or> (97 \<le> byteval (lowerByte c) \<and> byteval (lowerByte c) \<le> 122) \<or> c \<in> {CHR ''-'', CHR ''_'', CHR ''.'', CHR ''~''}"

definition QueryEscape :: "string \<Rightarrow> string" where
  "QueryEscape s =
     concat (map (\<lambda>c. if unreserved c then [c] else if c = CHR '' '' then ''+''
                      else [CHR ''%'', upperHex (byteval c div 16), upperHex (byteval c mod 16)]) s)"

section \<open>Account credentials of ZeroSSL\<close>

record binding =
  KID :: string
  bindingKey :: string

record bindingCodec =
  marshalBinding :: "binding \<Rightarrow> string option"
  unmarshalBinding :: "string \<Rightarrow> string + binding"

record zerosslResult =
  Success :: bool
  EABKID :: string
  EABHMACKey :: string

definition decBool :: "json \<Rightarrow> bool \<Rightarrow> bool option" where
  "decBool j old = (case j of JNull \<Rightarrow> Some old | JBool b \<Rightarrow> Some b | _ \<Rightarrow> None)"

definition decZerosslResult :: "json \<Rightarrow> zerosslResult option" where
  "decZerosslResult j =
     decStruct
       (\<lambda>name v r.
          if isField name ''success'' then map_option (\<lambda>b. r\<lparr>Success := b\<rparr>) (decBool v (Success r))
          else if isField name ''eab_kid'' then map_option (\<lambda>s. r\<lparr>EABKID := s\<rparr>) (decStr v (EABKID r))
          else if isField name ''eab_hmac_key'' then map_option (\<lambda>s. r\<lparr>EABHMACKey := s\<rparr>) (decStr v (EABHMACKey r))
          else Some r)
       j \<lparr>Success = False, EABKID = [], EABHMACKey = []\<rparr>"

text \<open>The answer to the request: an error of the transport, or a status with the outcome of reading the body.\<close>

type_synonym httpOutcome = "string + nat \<times> (string + string)"

definition eabPath :: "string \<Rightarrow> string" where "eabPath store = JoinPath [store, ''certs/zerossl+eab'']"

definition zerosslBinding :: "codec \<Rightarrow> httpOutcome \<Rightarrow> string + binding" where
  "zerosslBinding J answer =
     (case answer of
        Inl e \<Rightarrow> Inl e
      | Inr (_, Inl e) \<Rightarrow> Inl e
      | Inr (status, Inr body) \<Rightarrow>
          if status \<noteq> 200 then Inl ''failed to generate zerossl EAB''
          else (case Option.bind (parseJson J body) decZerosslResult of
                  None \<Rightarrow> Inl ''invalid zerossl response''
                | Some result \<Rightarrow>
                    if \<not> Success result then Inl ''failed zerossl eab''
                    else (case rawURLDecode (EABHMACKey result) of
                            None \<Rightarrow> Inl ''illegal base64 data''
                          | Some key \<Rightarrow> Inr \<lparr>KID = EABKID result, bindingKey = key\<rparr>)))"

definition getZeroSSLEab ::
  "codec \<Rightarrow> bindingCodec \<Rightarrow> faults \<Rightarrow> environ \<Rightarrow> string \<Rightarrow> (string \<Rightarrow> string \<Rightarrow> string \<Rightarrow> 'w \<Rightarrow> httpOutcome \<times> 'w)
   \<Rightarrow> fsys \<Rightarrow> 'w \<Rightarrow> (string + binding) \<times> fsys \<times> 'w" where
  "getZeroSSLEab J B F env store post fs w =
     (let path = eabPath store
      in case osReadFile F path fs of
           Inr data \<Rightarrow> (unmarshalBinding B data, fs, w)
         | Inl (IOError e) \<Rightarrow> (Inl e, fs, w)
         | Inl NotExist \<Rightarrow>
             (case post ''https://api.zerossl.com/acme/eab-credentials-email'' ''application/x-www-form-urlencoded''
                     (''email='' @ QueryEscape (SSLCertificateEmail env)) w of
                (answer, w1) \<Rightarrow>
                  (case zerosslBinding J answer of
                     Inl e \<Rightarrow> (Inl e, fs, w1)
                   | Inr res \<Rightarrow>
                       (Inr res,
                        (case marshalBinding B res of None \<Rightarrow> fs | Some data \<Rightarrow> snd (osWriteFile F path data fs)), w1))))"

section \<open>The certificate of the test mode\<close>

record certTemplate =
  subjectName :: string
  issuerName :: string
  SerialNumber :: int
  NotBefore :: time
  NotAfter :: time

record ('w, 'k, 'c) x509Lib =
  GenerateKey :: "nat \<Rightarrow> 'w \<Rightarrow> (string + 'k) \<times> 'w"
  timeNow :: "'w \<Rightarrow> time \<times> 'w"
  CreateCertificate :: "certTemplate \<Rightarrow> certTemplate \<Rightarrow> 'k \<Rightarrow> 'w \<Rightarrow> (string + string) \<times> 'w"
  MarshalKey :: "'k \<Rightarrow> string"
  pemEncode :: "string \<Rightarrow> string \<Rightarrow> string"
  X509KeyPair :: "string \<Rightarrow> string \<Rightarrow> string + 'c"

text \<open>\<open>t.AddDate(years, 0, 0)\<close>\<close>

definition AddYears :: "location \<Rightarrow> time \<Rightarrow> int \<Rightarrow> time" where
  "AddYears loc t years =
     (let (y, m, d) = civil (localDay loc t)
      in Date loc (y + years) m (int d) (localSec loc t mod 86400) (Nanosecond t))"

definition localhostCertificate :: "location \<Rightarrow> ('w, 'k, 'c) x509Lib \<Rightarrow> 'w \<Rightarrow> (string + 'c) \<times> 'w" where
  "localhostCertificate loc X w =
     (case GenerateKey X 2048 w of
        (Inl e, w1) \<Rightarrow> (Inl e, w1)
      | (Inr privateKey, w1) \<Rightarrow>
          (let (t1, w2) = timeNow X w1;
               (t2, w3) = timeNow X w2;
               template = \<lparr>subjectName = ''localhost'', issuerName = ''localhost'', SerialNumber = 1,
                           NotBefore = t1, NotAfter = AddYears loc t2 1\<rparr>
           in case CreateCertificate X template template privateKey w3 of
                (Inl e, w4) \<Rightarrow> (Inl e, w4)
              | (Inr derBytes, w4) \<Rightarrow>
                  (X509KeyPair X (pemEncode X ''CERTIFICATE'' derBytes) (pemEncode X ''RSA PRIVATE KEY'' (MarshalKey X privateKey)), w4)))"

section \<open>The certificate for a hello\<close>

record clientHello =
  ServerName :: string
  SupportedProtos :: "string list"

text \<open>The fields of an \<open>autocert.Manager\<close>; no directory is Let's Encrypt.\<close>

record certManager =
  DirectoryURL :: "string option"
  acmeEmail :: string
  cacheDir :: string
  ExternalAccountBinding :: "binding option"
  HostPolicy :: "string \<Rightarrow> policyError option"

record ('w, 'c) acmeNet =
  managerGet :: "certManager \<Rightarrow> clientHello \<Rightarrow> 'w \<Rightarrow> (string + 'c) \<times> 'w"
  postForm :: "string \<Rightarrow> string \<Rightarrow> string \<Rightarrow> 'w \<Rightarrow> httpOutcome \<times> 'w"
  listenWg :: "nat \<Rightarrow> 'w \<Rightarrow> string option \<times> 'w"
  serveHTTP :: "certManager \<Rightarrow> 'w \<Rightarrow> 'w"
  closeServer :: "'w \<Rightarrow> 'w"
  closeListener :: "'w \<Rightarrow> 'w"

definition leManager :: "unicode \<Rightarrow> environ \<Rightarrow> string \<Rightarrow> netipAddr \<Rightarrow> certManager" where
  "leManager U env store localIp =
     \<lparr>DirectoryURL = None, acmeEmail = SSLCertificateEmail env, cacheDir = JoinPath [store, ''certs''],
      ExternalAccountBinding = None, HostPolicy = tunnelHostPolicy U (ApiDomain env) localIp\<rparr>"

definition zsManager :: "unicode \<Rightarrow> environ \<Rightarrow> string \<Rightarrow> netipAddr \<Rightarrow> binding \<Rightarrow> certManager" where
  "zsManager U env store localIp eab =
     \<lparr>DirectoryURL = Some ''https://acme.zerossl.com/v2/DV90'', acmeEmail = SSLCertificateEmail env, cacheDir = JoinPath [store, ''certs''],
      ExternalAccountBinding = Some eab, HostPolicy = tunnelHostPolicy U (ApiDomain env) localIp\<rparr>"

text \<open>\<open>zs\<close> is the binding the ZeroSSL manager was made with, \<open>None\<close> for the nil pointer.\<close>

definition GetCertificate ::
  "unicode \<Rightarrow> codec \<Rightarrow> bindingCodec \<Rightarrow> faults \<Rightarrow> environ \<Rightarrow> string \<Rightarrow> netipAddr \<Rightarrow> ('w, 'c) acmeNet
   \<Rightarrow> location \<Rightarrow> ('w, 'k, 'c) x509Lib \<Rightarrow> clientHello \<Rightarrow> binding option \<Rightarrow> fsys \<Rightarrow> 'w \<Rightarrow> (string + 'c) \<times> binding option \<times> fsys \<times> 'w" where
  "GetCertificate U J B F env store localIp N loc X hello zs fs w =
     (if TestOnlyRunLocalhost env then (case localhostCertificate loc X w of (r, w1) \<Rightarrow> (r, zs, fs, w1))
      else
        case managerGet N (leManager U env store localIp) hello w of
          (Inr cert, w1) \<Rightarrow> (Inr cert, zs, fs, w1)
        | (Inl _, w1) \<Rightarrow>
            (case getZeroSSLEab J B F env store (postForm N) fs w1 of
               (Inl e, fs1, w2) \<Rightarrow> (Inl e, zs, fs1, w2)
             | (Inr eab, fs1, w2) \<Rightarrow>
                 (let bound = (case zs of None \<Rightarrow> eab | Some b \<Rightarrow> b);
                      manager = zsManager U env store localIp bound
                  in case listenWg N 80 w2 of
                       (Some e, w3) \<Rightarrow> (Inl e, Some bound, fs1, w3)
                     | (None, w3) \<Rightarrow>
                         (case managerGet N manager hello (serveHTTP N manager w3) of
                            (r, w4) \<Rightarrow> (r, Some bound, fs1, closeListener N (closeServer N w4))))))"

section \<open>Which certificates an instance holds\<close>

text \<open>
  What \<open>autocert\<close> documents of a manager, for the host names \<open>names\<close> whose certificates the cache in
  the world holds, and the normal form \<open>norm\<close> of a server name: a call adds only names its host policy
  allows; unless the hello is a challenge, a certificate is for the name of the hello, and that name
  is in the cache afterwards. Requests, listeners and servers do not change the cache.
\<close>

definition autocertLaws :: "('w, 'c) acmeNet \<Rightarrow> ('w \<Rightarrow> string set) \<Rightarrow> (string \<Rightarrow> string) \<Rightarrow> bool" where
  "autocertLaws N names norm \<longleftrightarrow>
     (\<forall>m h w r w'. managerGet N m h w = (r, w') \<longrightarrow>
        (\<forall>n\<in>names w'. n \<in> names w \<or> HostPolicy m n = None)
        \<and> (SupportedProtos h \<noteq> [''acme-tls/1''] \<longrightarrow> (\<forall>c. r = Inr c \<longrightarrow> norm (ServerName h) \<in> names w')))
     \<and> (\<forall>u t b w. names (snd (postForm N u t b w)) = names w) \<and> (\<forall>p w. names (snd (listenWg N p w)) = names w)
     \<and> (\<forall>m w. names (serveHTTP N m w) = names w)
     \<and> (\<forall>w. names (closeServer N w) = names w) \<and> (\<forall>w. names (closeListener N w) = names w)"

lemma manager_names:
  assumes "autocertLaws N names norm" and "managerGet N m h w = (r, w')" and "\<forall>n\<in>names w. HostPolicy m n = None"
  shows "\<forall>n\<in>names w'. HostPolicy m n = None"
    and "SupportedProtos h \<noteq> [''acme-tls/1''] \<Longrightarrow> r = Inr c \<Longrightarrow> HostPolicy m (norm (ServerName h)) = None"
proof -
  note law = conjunct1 [OF assms(1) [unfolded autocertLaws_def], THEN spec, THEN spec, THEN spec, THEN spec, THEN spec, THEN mp, OF assms(2)]
  from law assms(3) show "\<forall>n\<in>names w'. HostPolicy m n = None" by blast
  with law show "SupportedProtos h \<noteq> [''acme-tls/1''] \<Longrightarrow> r = Inr c \<Longrightarrow> HostPolicy m (norm (ServerName h)) = None" by simp
qed

lemma getZeroSSLEab_names:
  assumes "autocertLaws N names norm" and "getZeroSSLEab J B F env store (postForm N) fs w = (r, fs', w')"
  shows "names w' = names w"
proof -
  have "names (snd (postForm N u t b w)) = names w" for u t b using assms(1) by (simp add: autocertLaws_def)
  then have "postForm N u t b w = (x, v) \<Longrightarrow> names v = names w" for u t b x v by (metis snd_conv)
  then show ?thesis using assms(2)
    by (auto simp: getZeroSSLEab_def Let_def split: sum.splits ioError.splits prod.splits)
qed

lemma GetCertificate_names:
  assumes "autocertLaws N names norm" and "GetCertificate U J B F env store localIp N loc X hello zs fs w = (r, zs', fs', w')"
    and "\<not> TestOnlyRunLocalhost env" and "\<forall>n\<in>names w. tunnelHostPolicy U (ApiDomain env) localIp n = None"
  shows "(\<forall>n\<in>names w'. tunnelHostPolicy U (ApiDomain env) localIp n = None)
    \<and> (SupportedProtos hello \<noteq> [''acme-tls/1''] \<longrightarrow> (\<forall>c. r = Inr c \<longrightarrow>
         tunnelHostPolicy U (ApiDomain env) localIp (norm (ServerName hello)) = None))"
proof -
  let ?P = "tunnelHostPolicy U (ApiDomain env) localIp"
  let ?le = "leManager U env store localIp"
  have pol [simp]: "HostPolicy ?le = ?P" "HostPolicy (zsManager U env store localIp b) = ?P" for b
    by (simp_all add: leManager_def zsManager_def)
  have keeps: "listenWg N p v = (x, v') \<Longrightarrow> names v' = names v" "names (serveHTTP N m v) = names v"
    "names (closeListener N (closeServer N v)) = names v" for p v x v' m
    using assms(1) unfolding autocertLaws_def by (metis snd_conv)+
  obtain r1 w1 where le: "managerGet N ?le hello w = (r1, w1)" by fastforce
  have w1: "\<forall>n\<in>names w1. ?P n = None" and c1: "SupportedProtos hello \<noteq> [''acme-tls/1''] \<Longrightarrow> r1 = Inr c \<Longrightarrow> ?P (norm (ServerName hello)) = None" for c
    using manager_names [OF assms(1) le] assms(4) by simp_all
  show ?thesis
  proof (cases r1)
    case (Inr cert)
    then show ?thesis using assms(2,3) le w1 c1 by (auto simp: GetCertificate_def)
  next
    case (Inl e)
    obtain r2 fs1 w2 where eab: "getZeroSSLEab J B F env store (postForm N) fs w1 = (r2, fs1, w2)" by (metis prod_cases3)
    have w2: "\<forall>n\<in>names w2. ?P n = None" using getZeroSSLEab_names [OF assms(1) eab] w1 by simp
    show ?thesis
    proof (cases r2)
      case (Inl e')
      then show ?thesis using assms(2,3) le eab \<open>r1 = Inl e\<close> w2 by (auto simp: GetCertificate_def)
    next
      case (Inr b)
      define m where "m = zsManager U env store localIp (case zs of None \<Rightarrow> b | Some b \<Rightarrow> b)"
      obtain x w3 where l: "listenWg N 80 w2 = (x, w3)" by fastforce
      obtain r4 w4 where z: "managerGet N m hello (serveHTTP N m w3) = (r4, w4)" by fastforce
      have "\<forall>n\<in>names (serveHTTP N m w3). HostPolicy m n = None" using w2 keeps(1) [OF l] keeps(2) by (simp add: m_def)
      from manager_names [OF assms(1) z this] have "\<forall>n\<in>names w4. ?P n = None"
        and "SupportedProtos hello \<noteq> [''acme-tls/1''] \<Longrightarrow> r4 = Inr c \<Longrightarrow> ?P (norm (ServerName hello)) = None" for c
        by (simp_all add: m_def)
      then show ?thesis
        using assms(2,3) le eab \<open>r1 = Inl e\<close> Inr l z w2 keeps(1) [OF l] keeps(3)
        by (auto simp: GetCertificate_def Let_def m_def split: option.splits)
    qed
  qed
qed

text \<open>
  C9: an instance holds certificates only for its own names. Whichever of the two authorities issues,
  the cache stays free of names the host policy refuses; and when a hello other than a challenge is
  answered with a certificate for a name under the API domain, the server of the tunnel dispatches
  that name to this very instance. No certificate is obtained for the name of another instance.
\<close>

theorem certificates_only_for_own_names:
  assumes "autocertLaws N names norm" and "GetCertificate U J B F env store localIp N loc X hello zs fs w = (r, zs', fs', w')"
    and "\<not> TestOnlyRunLocalhost env" and "\<forall>n\<in>names w. tunnelHostPolicy U (ApiDomain env) localIp n = None" and "inSubnet localIp"
  shows "(\<forall>n\<in>names w'. tunnelHostPolicy U (ApiDomain env) localIp n = None)
    \<and> (\<forall>c. r = Inr c \<and> SupportedProtos hello \<noteq> [''acme-tls/1'']
         \<and> HasSuffix (ToLower U (TrimSuffix (norm (ServerName hello)) ''.'')) (''.'' @ ToLower U (ApiDomain env)) \<longrightarrow>
         (\<exists>port. getIPForDomain U (ApiDomain env) cname (norm (ServerName hello)) = Inr \<lparr>Addr = localIp, Port = port\<rparr>))"
  using GetCertificate_names [OF assms(1-4)] allowed_is_dispatched [OF _ assms(5)] by blast

section \<open>The credentials file\<close>

lemma getZeroSSLEab_none:
  assumes "map_of (dir fs) (eabPath store) = None" and "readsOk F"
  shows "getZeroSSLEab J B F env store post fs w =
    (case post ''https://api.zerossl.com/acme/eab-credentials-email'' ''application/x-www-form-urlencoded''
            (''email='' @ QueryEscape (SSLCertificateEmail env)) w of
       (answer, w1) \<Rightarrow>
         (case zerosslBinding J answer of
            Inl e \<Rightarrow> (Inl e, fs, w1)
          | Inr res \<Rightarrow> (Inr res, (case marshalBinding B res of None \<Rightarrow> fs | Some data \<Rightarrow> snd (osWriteFile F (eabPath store) data fs)), w1)))"
  using assms by (simp add: getZeroSSLEab_def osReadFile_def readsOk_def)

lemma osWriteFile_read:
  assumes "\<forall>n. onCall F n = None" and "map_of (dir fs) path = None" and "readsOk F'"
  shows "osReadFile F' path (snd (osWriteFile F path data fs)) = Inr data"
  using assms by (simp add: osWriteFile_def osCreate_def osCall_def osWrite_def osReadFile_def readsOk_def Let_def nth_append)

text \<open>
  C39: the ZeroSSL account is asked for once. A failure leaves the file alone, whatever the service
  answers, so that the next hello asks again; a success comes from an answer with status 200, the
  success flag and a well-formed key, and once its credentials could be written, every later call,
  also of a later process, obtains the same credentials from the file and sends nothing.
\<close>

theorem credentials_fetched_once:
  assumes "map_of (dir fs) (eabPath store) = None" and "readsOk F"
    and "getZeroSSLEab J B F env store post fs w = (r, fs', w')"
  shows "(\<forall>e. r = Inl e \<longrightarrow> fs' = fs)
    \<and> (\<forall>b. r = Inr b \<longrightarrow>
         (\<exists>body j res. fst (post ''https://api.zerossl.com/acme/eab-credentials-email'' ''application/x-www-form-urlencoded''
            (''email='' @ QueryEscape (SSLCertificateEmail env)) w) = Inr (200, Inr body) \<and> parseJson J body = Some j \<and> decZerosslResult j = Some res
            \<and> Success res \<and> KID b = EABKID res \<and> rawURLDecode (EABHMACKey res) = Some (bindingKey b))
         \<and> (\<forall>data. marshalBinding B b = Some data \<and> unmarshalBinding B data = Inr b \<and> (\<forall>n. onCall F n = None) \<and> readsOk F' \<longrightarrow>
              getZeroSSLEab J B F' env' store post' fs' v = (Inr b, fs', v)))"
proof -
  obtain answer w1 where p: "post ''https://api.zerossl.com/acme/eab-credentials-email'' ''application/x-www-form-urlencoded''
      (''email='' @ QueryEscape (SSLCertificateEmail env)) w = (answer, w1)" by fastforce
  note run = assms(3) [unfolded getZeroSSLEab_none [OF assms(1,2)] p prod.case]
  show ?thesis
  proof (cases "zerosslBinding J answer")
    case (Inl e)
    then show ?thesis using run by auto
  next
    case (Inr b)
    then obtain body j res where "answer = Inr (200, Inr body)" "parseJson J body = Some j" "decZerosslResult j = Some res"
      "Success res" "KID b = EABKID res" "rawURLDecode (EABHMACKey res) = Some (bindingKey b)"
      by (auto simp: zerosslBinding_def split: sum.splits prod.splits if_splits option.splits bind_splits)
    with p have answered: "\<exists>body j res. fst (post ''https://api.zerossl.com/acme/eab-credentials-email'' ''application/x-www-form-urlencoded''
            (''email='' @ QueryEscape (SSLCertificateEmail env)) w) = Inr (200, Inr body) \<and> parseJson J body = Some j \<and> decZerosslResult j = Some res
            \<and> Success res \<and> KID b = EABKID res \<and> rawURLDecode (EABHMACKey res) = Some (bindingKey b)"
      by auto
    have "getZeroSSLEab J B F' env' store post' fs' v = (Inr b, fs', v)"
      if "marshalBinding B b = Some data" "unmarshalBinding B data = Inr b" "\<forall>n. onCall F n = None" "readsOk F'" for data
    proof -
      have "fs' = snd (osWriteFile F (eabPath store) data fs)" using run Inr that(1) by simp
      then show ?thesis using osWriteFile_read [OF that(3) assms(1) that(4)] that(2) by (simp add: getZeroSSLEab_def)
    qed
    moreover have "r = Inr b" using run Inr by simp
    ultimately show ?thesis using answered by blast
  qed
qed

text \<open>
  The file is written in place: a write that stops early is only logged, and the file it leaves makes
  every later call fail, whatever the service would answer.
\<close>

theorem torn_credentials_stay:
  assumes "map_of (dir fs) (eabPath store) = None" and "readsOk F" and "readsOk F'"
    and "onCall F (calls fs) = None" and "onCall F (Suc (calls fs)) = Some (e, n)"
    and "getZeroSSLEab J B F env store post fs w = (Inr b, fs', w')"
    and "marshalBinding B b = Some data" and "unmarshalBinding B (take n data) = Inl err"
  shows "getZeroSSLEab J B F' env' store post' fs' v = (Inl err, fs', v)"
proof -
  have "fs' = snd (osWriteFile F (eabPath store) data fs)"
    using assms(6,7) by (auto simp: getZeroSSLEab_none [OF assms(1,2)] split: prod.splits sum.splits)
  then have "osReadFile F' (eabPath store) fs' = Inr (take n data)"
    using assms(1,3-5) by (auto simp: osWriteFile_def osCreate_def osCall_def osWrite_def osReadFile_def readsOk_def Let_def nth_append)
  then show ?thesis using assms(8) by (simp add: getZeroSSLEab_def)
qed

section \<open>An instance that falls back to ZeroSSL\<close>

text \<open>The world holds the names in the certificate cache. Let's Encrypt always fails, ZeroSSL issues
  what the policy allows; a certificate is its name.\<close>

definition exAcme :: "(string list, string) acmeNet" where
  "exAcme =
     \<lparr>managerGet = (\<lambda>m h w.
        if ServerName h \<in> set w then (Inr (ServerName h), w)
        else if DirectoryURL m = None then (Inl ''rate limited'', w)
        else if HostPolicy m (ServerName h) = None then (Inr (ServerName h), ServerName h # w)
        else (Inl ''host not allowed'', w)),
      postForm = (\<lambda>u t b w. (Inr (200, Inr ''ok''), w)), listenWg = (\<lambda>p w. (None, w)),
      serveHTTP = (\<lambda>m w. w), closeServer = (\<lambda>w. w), closeListener = (\<lambda>w. w)\<rparr>"

definition exX509 :: "(string list, unit, string) x509Lib" where
  "exX509 =
     \<lparr>GenerateKey = (\<lambda>n w. (Inr (), w)), timeNow = (\<lambda>w. (0, w)), CreateCertificate = (\<lambda>t p k w. (Inr [], w)),
      MarshalKey = (\<lambda>k. []), pemEncode = (\<lambda>t b. b), X509KeyPair = (\<lambda>c k. Inr ''localhost'')\<rparr>"

definition exAnswer :: codec where
  "exAnswer =
     \<lparr>printJson = (\<lambda>_. []),
      parseJson = (\<lambda>s. if s = ''ok'' then Some (JObj [(''success'', JBool True), (''eab_kid'', JStr ''kid''), (''eab_hmac_key'', JStr ''a-_8'')]) else None),
      printTime = (\<lambda>_. None), parseTime = (\<lambda>_. None)\<rparr>"

definition exBindings :: bindingCodec where
  "exBindings =
     \<lparr>marshalBinding = (\<lambda>b. Some (KID b @ ''.'' @ bindingKey b)),
      unmarshalBinding = (\<lambda>s. case Cut s CHR ''.'' of (k, h, True) \<Rightarrow> Inr \<lparr>KID = k, bindingKey = h\<rparr> | _ \<Rightarrow> Inl ''unexpected end'')\<rparr>"

definition exHello :: clientHello where
  "exHello = \<lparr>ServerName = GetEncodedIPPort exUnicode exAddr @ ''.l.tunwg.com'', SupportedProtos = [''h2'']\<rparr>"

lemma exAcme_laws: "autocertLaws exAcme set (\<lambda>n. n)"
  by (auto simp: autocertLaws_def exAcme_def split: if_splits)

theorem certificates_only_for_own_names_witness:
  "\<exists>port. getIPForDomain exUnicode (ApiDomain (\<lambda>_. [])) (\<lambda>_. Inl ''no DNS'') (ServerName exHello) = Inr \<lparr>Addr = Addr exAddr, Port = port\<rparr>"
proof -
  let ?g = "GetCertificate exUnicode exAnswer exBindings noFaults (\<lambda>_. []) ''/data'' (Addr exAddr) exAcme (fixedZone 0) exX509 exHello None emptyDisk []"
  have run: "fst ?g = Inr (ServerName exHello)" by code_simp
  then have "?g = (Inr (ServerName exHello), fst (snd ?g), fst (snd (snd ?g)), snd (snd (snd ?g)))" by (metis prod.collapse)
  note own = certificates_only_for_own_names [OF exAcme_laws this, of "\<lambda>_. Inl ''no DNS''"]
  have "\<not> TestOnlyRunLocalhost (\<lambda>_. [])" "inSubnet (Addr exAddr)" "SupportedProtos exHello \<noteq> [''acme-tls/1'']"
    "HasSuffix (ToLower exUnicode (TrimSuffix (ServerName exHello) ''.'')) (''.'' @ ToLower exUnicode (ApiDomain (\<lambda>_. [])))"
    by code_simp+
  with own show ?thesis by simp
qed

theorem credentials_fetched_once_witness:
  "let fs' = fst (snd (getZeroSSLEab exAnswer exBindings noFaults (\<lambda>_. []) ''/data'' (postForm exAcme) emptyDisk []))
   in getZeroSSLEab exAnswer exBindings noFaults (\<lambda>_. []) ''/data'' (\<lambda>_ _ _ w. (Inl ''offline'', w)) fs' ([] :: string list)
      = (Inr \<lparr>KID = ''kid'', bindingKey = [CHR 0x6B, CHR 0xEF, CHR 0xFC]\<rparr>, fs', [])"
proof -
  let ?b = "\<lparr>KID = ''kid'', bindingKey = [CHR 0x6B, CHR 0xEF, CHR 0xFC]\<rparr>"
  let ?g = "getZeroSSLEab exAnswer exBindings noFaults (\<lambda>_. []) ''/data'' (postForm exAcme) emptyDisk []"
  have "fst ?g = Inr ?b" by code_simp
  then have g: "?g = (Inr ?b, fst (snd ?g), snd (snd ?g))" by (metis prod.collapse)
  have new: "map_of (dir emptyDisk) (eabPath ''/data'') = None" by code_simp
  have "marshalBinding exBindings ?b = Some (''kid.'' @ bindingKey ?b)" "unmarshalBinding exBindings (''kid.'' @ bindingKey ?b) = Inr ?b"
    by code_simp+
  moreover have "\<forall>n. onCall noFaults n = None" by (simp add: noFaults_def)
  ultimately show ?thesis
    using noFaults_reads credentials_fetched_once [OF new noFaults_reads g, of noFaults "\<lambda>_. []" "\<lambda>_ _ _ w. (Inl ''offline'', w)" "[] :: string list"]
    by (simp add: Let_def)
qed

end
