(* ===== verification/AccessPointers.thy ===== *)
theory AccessPointers
  imports AccessProps
begin

text \<open>
  The maps of the access controller hold pointers in Go (\<open>map[wgtypes.Key]*accessPeerState\<close>), and its methods change
  records through them; the copies \<open>cloneAccessPeer\<close> and \<open>cloneAccessQuota\<close> make are what a failed registration
  goes back to. The other theories model such a map by the records themselves. Here a map is one from keys to
  addresses, the records are cells, and \<open>registerPeer\<close> runs on them statement by statement; it has the result
  and the effects of the model without pointers, and never lets two keys share a record.

  A pointer to a record never leaves the controller, and the pointers of the map \<open>runtime\<close> are never copied.
\<close>

section \<open>Tables of pointers\<close>

record ('k, 'v) table =
  refs :: "('k, nat) gomap"
  cells :: "'v list"

definition view :: "('k, 'v) table \<Rightarrow> ('k, 'v) gomap" where
  "view t = map (\<lambda>(k, a). (k, cells t ! a)) (refs t)"

definition alloc :: "'v \<Rightarrow> ('k, 'v) table \<Rightarrow> nat \<times> ('k, 'v) table" where
  "alloc v t = (length (cells t), t\<lparr>cells := cells t @ [v]\<rparr>)"

definition modify :: "nat \<Rightarrow> ('v \<Rightarrow> 'v) \<Rightarrow> ('k, 'v) table \<Rightarrow> ('k, 'v) table" where
  "modify a f t = t\<lparr>cells := (cells t)[a := f (cells t ! a)]\<rparr>"

text \<open>\<open>cloneAccessPeer\<close> and \<open>cloneAccessQuota\<close>: \<open>None\<close> is the nil pointer.\<close>

definition clone :: "nat option \<Rightarrow> ('k, 'v) table \<Rightarrow> nat option \<times> ('k, 'v) table" where
  "clone record t =
     (case record of
        None \<Rightarrow> (None, t)
      | Some a \<Rightarrow> (case alloc (cells t ! a) t of (copy, t') \<Rightarrow> (Some copy, t')))"

definition point :: "'k \<Rightarrow> nat \<Rightarrow> ('k, 'v) table \<Rightarrow> ('k, 'v) table" where
  "point k a t = t\<lparr>refs := put (refs t) k a\<rparr>"

text \<open>\<open>restoreRecordLocked\<close> and \<open>restoreQuotaLocked\<close>.\<close>

definition restore :: "'k \<Rightarrow> nat option \<Rightarrow> ('k, 'v) table \<Rightarrow> ('k, 'v) table" where
  "restore k old t = (case old of None \<Rightarrow> t\<lparr>refs := del (refs t) k\<rparr> | Some a \<Rightarrow> point k a t)"

text \<open>A copy to go back to, and another one, or a new record, to work on.\<close>

definition stage :: "'k \<Rightarrow> 'v \<Rightarrow> ('v \<Rightarrow> 'v) \<Rightarrow> ('k, 'v) table \<Rightarrow> nat option \<times> nat \<times> ('k, 'v) table" where
  "stage k init update t =
     (let (old, t1) = clone (map_of (refs t) k) t;
          (copy, t2) = clone old t1;
          (new, t3) = (case copy of None \<Rightarrow> alloc init t2 | Some a \<Rightarrow> (a, t2))
      in (old, new, modify new update t3))"

text \<open>Every pointer is to a cell, and no two keys share one. A cell no key points to is unshared.\<close>

definition separate :: "('k, 'v) table \<Rightarrow> bool" where
  "separate t \<longleftrightarrow> distinct (map snd (refs t)) \<and> (\<forall>a\<in>snd ` set (refs t). a < length (cells t))"

definition unshared :: "nat \<Rightarrow> ('k, 'v) table \<Rightarrow> bool" where
  "unshared a t \<longleftrightarrow> a < length (cells t) \<and> a \<notin> snd ` set (refs t)"

lemma ref_mem: "(k, a) \<in> set m \<Longrightarrow> a \<in> snd ` set m"
  by force

lemma view_cong:
  "refs t' = refs t \<Longrightarrow> (\<And>a. a \<in> snd ` set (refs t) \<Longrightarrow> cells t' ! a = cells t ! a) \<Longrightarrow> view t' = view t"
  by (auto simp: view_def rev_image_eqI)

lemma map_of_view: "map_of (view t) k = map_option (\<lambda>a. cells t ! a) (map_of (refs t) k)"
  by (simp add: view_def map_of_map)

lemma del_map: "del (map (\<lambda>(k, a). (k, f a)) m) k = map (\<lambda>(k, a). (k, f a)) (del m k)"
  by (induction m) (auto simp: del_def)

lemma alloc_spec:
  assumes "separate t"
  shows "view (t\<lparr>cells := cells t @ [v]\<rparr>) = view t" and "separate (t\<lparr>cells := cells t @ [v]\<rparr>)"
    and "unshared (length (cells t)) (t\<lparr>cells := cells t @ [v]\<rparr>)"
    and "unshared a t \<Longrightarrow> unshared a (t\<lparr>cells := cells t @ [v]\<rparr>)"
  using assms by (auto simp: separate_def unshared_def nth_append intro!: view_cong)

lemma modify_spec:
  assumes "separate t" and "unshared a t"
  shows "view (modify a f t) = view t" and "separate (modify a f t)" and "unshared b (modify a f t) = unshared b t"
    and "cells (modify a f t) ! a = f (cells t ! a)" and "b \<noteq> a \<Longrightarrow> cells (modify a f t) ! b = cells t ! b"
    and "refs (modify a f t) = refs t"
  using assms by (auto simp: modify_def separate_def unshared_def nth_list_update intro!: view_cong dest: ref_mem)

text \<open>To change a record through its pointer is to change the map at one key, since no other key shares the record.\<close>

lemma modify_entry:
  assumes "separate t" and "map_of (refs t) k = Some a"
  shows "map_of (view (modify a f t)) = (map_of (view t))(k \<mapsto> f (cells t ! a))"
proof
  fix k'
  have mem: "(k, a) \<in> set (refs t)" using assms(2) by (rule map_of_SomeD)
  then have a: "a < length (cells t)" using assms(1) by (force simp: separate_def)
  have "k' = k" if "map_of (refs t) k' = Some a"
    using inj_onD [of snd "set (refs t)" "(k', a)" "(k, a)"] map_of_SomeD [OF that] mem assms(1)
    by (simp add: separate_def distinct_map)
  then show "map_of (view (modify a f t)) k' = ((map_of (view t))(k \<mapsto> f (cells t ! a))) k'"
    using assms(2) a by (cases "map_of (refs t) k'") (auto simp: map_of_view modify_def nth_list_update)
qed

lemma point_spec:
  assumes "separate t" and "unshared a t"
  shows "view (point k a t) = put (view t) k (cells t ! a)" and "separate (point k a t)"
    and "unshared b t \<Longrightarrow> b \<noteq> a \<Longrightarrow> unshared b (point k a t)" and "cells (point k a t) = cells t"
  using assms
  by (auto simp: point_def view_def put_def del_map separate_def unshared_def)
    (auto simp: del_def distinct_map inj_on_def dest: ref_mem)

lemma restore_spec:
  assumes "separate t" and "\<And>a. old = Some a \<Longrightarrow> unshared a t"
  shows "view (restore k old t) = (case map_option (\<lambda>a. cells t ! a) old of None \<Rightarrow> del (view t) k | Some v \<Rightarrow> put (view t) k v)"
    and "separate (restore k old t)"
proof -
  have "separate (t\<lparr>refs := del (refs t) k\<rparr>)"
    using assms(1) by (auto simp: separate_def del_def distinct_map inj_on_def)
  then show "view (restore k old t) = (case map_option (\<lambda>a. cells t ! a) old of None \<Rightarrow> del (view t) k | Some v \<Rightarrow> put (view t) k v)"
    and "separate (restore k old t)"
    using assms point_spec(1,2) [of t _ k] by (cases old; simp add: restore_def; simp add: view_def del_map)+
qed

lemma clone_spec:
  assumes "separate t" and "clone record t = (copy, t')" and "\<forall>a. record = Some a \<longrightarrow> a < length (cells t)"
  shows "view t' = view t" and "separate t'" and "refs t' = refs t"
    and "map_option (\<lambda>a. cells t' ! a) copy = map_option (\<lambda>a. cells t ! a) record"
    and "copy = Some a \<Longrightarrow> unshared a t' \<and> \<not> a < length (cells t)"
    and "unshared b t \<Longrightarrow> unshared b t' \<and> cells t' ! b = cells t ! b"
  using assms alloc_spec [OF assms(1)]
  by (auto simp: clone_def alloc_def unshared_def nth_append split: option.splits)

lemma stage_spec:
  assumes "separate t" and "stage k init update t = (old, new, t')"
  shows "view t' = view t" and "separate t'" and "unshared new t'"
    and "cells t' ! new = update (case map_of (view t) k of None \<Rightarrow> init | Some v \<Rightarrow> v)"
    and "map_option (\<lambda>a. cells t' ! a) old = map_of (view t) k"
    and "old = Some a \<Longrightarrow> unshared a t' \<and> a \<noteq> new"
proof -
  let ?p = "map_of (refs t) k"
  obtain o1 t1 where c1: "clone ?p t = (o1, t1)" by fastforce
  obtain copy t2 where c2: "clone o1 t1 = (copy, t2)" by fastforce
  obtain n t3 where c3: "(case copy of None \<Rightarrow> alloc init t2 | Some a \<Rightarrow> (a, t2)) = (n, t3)" by fastforce
  have out: "old = o1" "new = n" "t' = modify n update t3"
    using assms(2) unfolding stage_def Let_def c1 prod.case c2 c3 by auto
  have "\<forall>a. ?p = Some a \<longrightarrow> a < length (cells t)"
    using assms(1) by (auto simp: separate_def dest!: map_of_SomeD dest: ref_mem)
  note s1 = clone_spec [OF assms(1) c1 this]
  have "\<forall>a. o1 = Some a \<longrightarrow> a < length (cells t1)" using s1(5) by (simp add: unshared_def)
  note s2 = clone_spec [OF s1(2) c2 this]
  have old: "map_option (\<lambda>a. cells t1 ! a) o1 = map_of (view t) k" using s1(4) by (simp add: map_of_view)
  have t3: "view t3 = view t \<and> separate t3 \<and> unshared n t3
      \<and> cells t3 ! n = (case map_of (view t) k of None \<Rightarrow> init | Some v \<Rightarrow> v)
      \<and> (\<forall>a. o1 = Some a \<longrightarrow> unshared a t3 \<and> a \<noteq> n \<and> cells t3 ! a = cells t1 ! a)"
  proof (cases copy)
    case None
    then have "n = length (cells t2)" "t3 = t2\<lparr>cells := cells t2 @ [init]\<rparr>" using c3 by (simp_all add: alloc_def)
    moreover have "o1 = None" using None c2 by (auto simp: clone_def alloc_def split: option.splits)
    ultimately show ?thesis using alloc_spec(1-3) [OF s2(2), of init] s1(1) s2(1) old by simp
  next
    case (Some c)
    then have n: "n = c" "t3 = t2" using c3 by simp_all
    obtain a where a: "o1 = Some a" using Some c2 by (auto simp: clone_def split: option.splits)
    have "a < length (cells t1)" "unshared a t1" using s1(5) [OF a] by (simp_all add: unshared_def)
    moreover have "map_of (view t) k = Some (cells t1 ! a)" using old a by simp
    ultimately show ?thesis using s1(1) s2 a n Some by auto
  qed
  note m = modify_spec [where t = t3 and a = n and f = update]
  show "view t' = view t" "separate t'" "unshared new t'"
      "cells t' ! new = update (case map_of (view t) k of None \<Rightarrow> init | Some v \<Rightarrow> v)"
    using t3 m(1-4) by (simp_all add: out)
  show "map_option (\<lambda>a. cells t' ! a) old = map_of (view t) k"
    using t3 m(5) old by (cases o1) (auto simp: out)
  show "old = Some a \<Longrightarrow> unshared a t' \<and> a \<noteq> new" using t3 m(3) by (simp add: out)
qed

section \<open>Registration on pointers\<close>

text \<open>The controller, with the maps of its records as tables; the maps of records in \<open>others\<close> are not used.\<close>

record pointerController =
  peerTable :: "(wgKey, accessPeerState) table"
  quotaTable :: "(string, accessQuotaState) table"
  others :: accessController

definition deref :: "pointerController \<Rightarrow> accessController" where
  "deref h = (others h)\<lparr>peers := view (peerTable h), quotas := view (quotaTable h)\<rparr>"

definition separateMaps :: "pointerController \<Rightarrow> bool" where
  "separateMaps h \<longleftrightarrow> separate (peerTable h) \<and> separate (quotaTable h)"

definition persistRef :: "lib \<Rightarrow> 'w deps \<Rightarrow> pointerController \<Rightarrow> 'w \<Rightarrow> accessError option \<times> pointerController \<times> 'w" where
  "persistRef L D h w = (case persistLocked L D (deref h) w of (e, c, w1) \<Rightarrow> (e, h\<lparr>others := c\<rparr>, w1))"

definition rollback :: "wgKey \<Rightarrow> nat option \<Rightarrow> string \<Rightarrow> nat option \<Rightarrow> pointerController \<Rightarrow> pointerController" where
  "rollback peer old owner oldQuota h =
     h\<lparr>peerTable := restore peer old (peerTable h), quotaTable := restore owner oldQuota (quotaTable h)\<rparr>"

definition touchRef :: "wgKey \<Rightarrow> time \<Rightarrow> pointerController \<Rightarrow> pointerController" where
  "touchRef peer now h = h\<lparr>others := touchRuntime (others h) peer now\<rparr>"

text \<open>From the copy of the peer record on.\<close>

definition admitRef ::
  "lib \<Rightarrow> 'w deps \<Rightarrow> pointerController \<Rightarrow> 'w \<Rightarrow> wgKey \<Rightarrow> peerCredential \<Rightarrow> time \<Rightarrow> string \<Rightarrow> nat option \<Rightarrow> nat
   \<Rightarrow> (peerCredential \<times> accessError option) \<times> pointerController \<times> 'w" where
  "admitRef L D h w peer credential now owner oldQuota quota =
     (let (old, record, pt) = stage peer
            \<lparr>KeyID = [], AuthGeneration = [], CreatedAt = now, LastSeen = 0, Endpoint = [], EndpointSeenAt = 0\<rparr>
            (\<lambda>r. r\<lparr>KeyID := keyID credential, AuthGeneration := authGen credential, LastSeen := now\<rparr>) (peerTable h);
          qt = modify quota (\<lambda>q. q\<lparr>QLastSeen := now\<rparr>) (quotaTable h);
          h1 = h\<lparr>peerTable := point peer record pt, quotaTable := point owner quota qt\<rparr>
      in case persistRef L D h1 w of
           (Some e, h2, w2) \<Rightarrow> ((credential, Some e), rollback peer old owner oldQuota h2, w2)
         | (None, h2, w2) \<Rightarrow>
             (case AddPeer D peer [] w2 of
                (None, w3) \<Rightarrow> ((credential, None), touchRef peer now h2, w3)
              | (Some err, w3) \<Rightarrow>
                  (case RemovePeer D peer w3 of
                     (Some cleanupErr, w4) \<Rightarrow> ((credential, Some (errAddPeer err (Some cleanupErr))), touchRef peer now h2, w4)
                   | (None, w4) \<Rightarrow>
                       let h3 = rollback peer old owner oldQuota h2;
                           h4 = h3\<lparr>others := (others h3)\<lparr>runtime := del (runtime (others h3)) peer\<rparr>\<rparr>
                       in case persistRef L D h4 w4 of
                            (Some e, h5, w5) \<Rightarrow> ((credential, Some e), h5, w5)
                          | (None, h5, w5) \<Rightarrow> ((credential, Some (errAddPeer err None)), h5, w5))))"

definition registerRef ::
  "lib \<Rightarrow> 'w deps \<Rightarrow> pointerController \<Rightarrow> 'w \<Rightarrow> wgKey \<Rightarrow> string
   \<Rightarrow> (peerCredential \<times> accessError option) \<times> pointerController \<times> 'w" where
  "registerRef L D h w peer reqKey =
     (let none = \<lparr>keyID = [], authGen = []\<rparr>
      in case stateErr (others h) of
           Some e \<Rightarrow> ((none, Some e), h, w)
         | None \<Rightarrow>
             (case authorizeLocked L D w reqKey of
                (credential, Some e) \<Rightarrow> ((credential, Some e), h, w)
              | (credential, None) \<Rightarrow>
                  if \<not> credentialMatchesCurrentModeLocked L D w credential
                  then ((none, Some errAccessUnauthorized), h, w)
                  else
                    let now = nowTime D w;
                        limit = quotaBytes D w;
                        owner = quotaOwner L peer (keyID credential) (authGen credential);
                        (oldQuota, quota, qt) = stage owner
                          \<lparr>UsageDate = FormatDateOnly (Local L) now, UsedBytes = 0, BlockedUntil = 0, QLastSeen = now\<rparr>
                          (\<lambda>q. normalizeQuotaState L q now) (quotaTable h);
                        h1 = h\<lparr>quotaTable := qt\<rparr>;
                        q = cells qt ! quota
                    in if Before now (BlockedUntil q) \<or> (limit > 0 \<and> UsedBytes q > limit)
                       then ((credential, Some errPeerBlocked), h1, w)
                       else if keyID credential \<noteq> ''open'' \<and> keyID credential \<noteq> ''shared''
                            \<and> activePeers L (deref h1) peer owner \<ge> maxActivePeersPerIssuedKey
                       then ((credential, Some errPeerLimitReached), h1, w)
                       else admitRef L D h1 w peer credential now owner oldQuota quota))"

lemma persistRef_deref:
  assumes "persistRef L D h w = (e, h', w')"
  shows "persistLocked L D (deref h) w = (e, deref h', w')" and "peerTable h' = peerTable h" and "quotaTable h' = quotaTable h"
proof -
  obtain c where c: "persistLocked L D (deref h) w = (e, c, w')" "h' = h\<lparr>others := c\<rparr>"
    using assms by (auto simp: persistRef_def split: prod.splits)
  then show "persistLocked L D (deref h) w = (e, deref h', w')"
    using persistLocked_maps(1,2) [OF c(1)] by (simp add: deref_def)
  show "peerTable h' = peerTable h" "quotaTable h' = quotaTable h" by (simp_all add: c(2))
qed

lemma deref_touch: "deref (touchRef peer now h) = touchRuntime (deref h) peer now"
  by (simp add: deref_def touchRef_def touchRuntime_def)

lemma separate_touch [simp]: "separateMaps (touchRef peer now h) = separateMaps h"
  by (simp add: separateMaps_def touchRef_def)

text \<open>Going back restores the old values, since the cells of the copies are unshared.\<close>

lemma deref_rollback:
  assumes "separateMaps h" and "\<And>a. old = Some a \<Longrightarrow> unshared a (peerTable h)" and "\<And>a. oldQuota = Some a \<Longrightarrow> unshared a (quotaTable h)"
  shows "deref (rollback peer old owner oldQuota h)
      = restoreQuotaLocked (restoreRecordLocked (deref h) peer (map_option (\<lambda>a. cells (peerTable h) ! a) old))
          owner (map_option (\<lambda>a. cells (quotaTable h) ! a) oldQuota)"
    and "separateMaps (rollback peer old owner oldQuota h)"
  using assms restore_spec [of "peerTable h" old peer] restore_spec [of "quotaTable h" oldQuota owner]
  by (simp_all add: separateMaps_def rollback_def deref_def restoreQuotaLocked_def restoreRecordLocked_def split: option.split)

lemma admitRef_refines:
  assumes run: "admitRef L D h w peer cr now owner oldQuota quota = (res, h', w')" and sep: "separateMaps h"
    and quota: "unshared quota (quotaTable h)" and oldQ: "\<And>a. oldQuota = Some a \<Longrightarrow> unshared a (quotaTable h) \<and> a \<noteq> quota"
    and oldV: "map_option (\<lambda>a. cells (quotaTable h) ! a) oldQuota = map_of (quotas (deref h)) owner"
  shows "admitPeer L D (deref h) w peer cr now owner (cells (quotaTable h) ! quota) = (res, deref h', w') \<and> separateMaps h'"
proof -
  let ?init = "\<lparr>KeyID = [], AuthGeneration = [], CreatedAt = now, LastSeen = 0, Endpoint = [], EndpointSeenAt = 0\<rparr>"
  let ?update = "\<lambda>r. r\<lparr>KeyID := keyID cr, AuthGeneration := authGen cr, LastSeen := now\<rparr>"
  let ?qt = "modify quota (\<lambda>q. q\<lparr>QLastSeen := now\<rparr>) (quotaTable h)"
  obtain old new pt where st: "stage peer ?init ?update (peerTable h) = (old, new, pt)" by (metis prod_cases3)
  define h1 where "h1 = h\<lparr>peerTable := point peer new pt, quotaTable := point owner quota ?qt\<rparr>"
  have ps: "separate (peerTable h)" and qs: "separate (quotaTable h)" using sep by (simp_all add: separateMaps_def)
  note s = stage_spec [OF ps st]
  note m = modify_spec [OF qs quota, where f = "\<lambda>q. q\<lparr>QLastSeen := now\<rparr>"]
  have quota': "unshared quota ?qt" using quota m(3) by simp
  note pp = point_spec [OF s(2,3)] and pq = point_spec [OF m(2) quota']
  have stored: "deref h1 = storeAdmitted (deref h) peer cr now owner (cells (quotaTable h) ! quota)"
    using pp(1) pq(1) s(1,4) m(1,4) by (simp add: h1_def deref_def storeAdmitted_def admittedRecord_def split: option.split)
  have sep1: "separateMaps h1" using pp(2) pq(2) by (simp add: h1_def separateMaps_def)
  have old: "unshared a (peerTable h1)" if "old = Some a" for a using s(6) [OF that] pp(3) by (simp add: h1_def)
  have oldQ1: "unshared a (quotaTable h1)" if "oldQuota = Some a" for a using oldQ [OF that] m(3) pq(3) by (simp add: h1_def)
  have befores: "map_option (\<lambda>a. cells (peerTable h1) ! a) old = map_of (peers (deref h)) peer"
    using s(5) by (simp add: h1_def pp(4) deref_def)
  have "map_option (\<lambda>a. cells (quotaTable h1) ! a) oldQuota = map_option (\<lambda>a. cells (quotaTable h) ! a) oldQuota"
    using oldQ m(5) by (cases oldQuota) (simp_all add: h1_def pq(4))
  note befores = befores this [unfolded oldV]
  have undone: "deref (rollback peer old owner oldQuota h2)
        = restoreQuotaLocked (restoreRecordLocked (deref h2) peer (map_of (peers (deref h)) peer)) owner (map_of (quotas (deref h)) owner)
      \<and> separateMaps (rollback peer old owner oldQuota h2)" if "peerTable h2 = peerTable h1" "quotaTable h2 = quotaTable h1" for h2
    using deref_rollback [of h2 old oldQuota peer owner] sep1 old oldQ1 befores that by (simp add: separateMaps_def)
  obtain e h2 w2 where p: "persistRef L D h1 w = (e, h2, w2)" by (metis prod_cases3)
  note pr = persistRef_deref [OF p]
  note plain = pr(1) [unfolded stored] and step = run [unfolded admitRef_def st Let_def prod.case, folded h1_def, unfolded p prod.case]
  note back2 = undone [OF pr(2,3)]
  have sep2: "separateMaps h2" using sep1 pr(2,3) by (simp add: separateMaps_def)
  show ?thesis
  proof (cases e)
    case (Some err)
    then show ?thesis using step plain back2 by (auto simp: admitPeer_def)
  next
    case None
    obtain ar w3 where a: "AddPeer D peer [] w2 = (ar, w3)" by fastforce
    show ?thesis
    proof (cases ar)
      case None
      then show ?thesis using \<open>e = None\<close> step plain a sep2 by (auto simp: admitPeer_def deref_touch)
    next
      case (Some err)
      obtain rr w4 where r: "RemovePeer D peer w3 = (rr, w4)" by fastforce
      show ?thesis
      proof (cases rr)
        case (Some err2)
        then show ?thesis using \<open>e = None\<close> \<open>ar = Some err\<close> step plain a r sep2
          by (auto simp: admitPeer_def deref_touch)
      next
        case None
        define h3 where "h3 = rollback peer old owner oldQuota h2"
        define h4 where "h4 = h3\<lparr>others := (others h3)\<lparr>runtime := del (runtime (others h3)) peer\<rparr>\<rparr>"
        obtain e5 h5 w5 where p5: "persistRef L D h4 w4 = (e5, h5, w5)" by (metis prod_cases3)
        have "deref h4 = (deref h3)\<lparr>runtime := del (runtime (deref h3)) peer\<rparr>" by (simp add: h4_def deref_def)
        moreover have "separateMaps h4" using conjunct2 [OF back2] by (simp add: h4_def h3_def [symmetric] separateMaps_def)
        moreover note persistRef_deref [OF p5]
        ultimately show ?thesis
          using \<open>e = None\<close> \<open>ar = Some err\<close> None step plain a r conjunct1 [OF back2] p5
          by (auto simp: admitPeer_def h3_def [symmetric] h4_def [symmetric] Let_def separateMaps_def split: option.splits)
      qed
    qed
  qed
qed

text \<open>
  C12: aliasing does no harm. On pointers, \<open>registerPeer\<close> answers the same, does the same to the world and leaves
  the same records as the model without pointers, on every branch: what a failed registration goes back to is
  untouched by the changes made in between, because it is a copy. And no two keys ever share a record.
\<close>

theorem register_by_pointers:
  assumes "registerRef L D h w peer reqKey = (res, h', w')" and "separateMaps h"
  shows "registerPeer L D (deref h) w peer reqKey = (res, deref h', w') \<and> separateMaps h'"
proof -
  obtain cr a where auth: "authorizeLocked L D w reqKey = (cr, a)" by fastforce
  define now where "now = nowTime D w"
  define owner where "owner = quotaOwner L peer (keyID cr) (authGen cr)"
  obtain oldQuota quota qt where st: "stage owner \<lparr>UsageDate = FormatDateOnly (Local L) now, UsedBytes = 0, BlockedUntil = 0, QLastSeen = now\<rparr>
      (\<lambda>q. normalizeQuotaState L q now) (quotaTable h) = (oldQuota, quota, qt)" by (metis prod_cases3)
  define h1 where "h1 = h\<lparr>quotaTable := qt\<rparr>"
  note s = stage_spec [OF conjunct2 [OF assms(2) [unfolded separateMaps_def]] st]
  have same: "deref h1 = deref h" "separateMaps h1" using s(1,2) assms(2) by (simp_all add: h1_def deref_def separateMaps_def)
  have q: "cells qt ! quota = fetchQuota L (quotas (deref h)) owner now" using s(4) by (simp add: fetchQuota_def deref_def)
  have admit: "admitPeer L D (deref h) w peer cr now owner (cells qt ! quota) = (res, deref h', w') \<and> separateMaps h'"
    if "admitRef L D h1 w peer cr now owner oldQuota quota = (res, h', w')"
    using admitRef_refines [OF that same(2)] s(1,3,5,6) same(1) by (simp add: h1_def deref_def)
  have fields: "stateErr (deref h) = stateErr (others h)" by (simp add: deref_def)
  show ?thesis
  proof (cases "stateErr (others h) = None \<and> a = None \<and> credentialMatchesCurrentModeLocked L D w cr")
    case False
    with auth fields have "\<exists>out. registerRef L D h w peer reqKey = (out, h, w) \<and> registerPeer L D (deref h) w peer reqKey = (out, deref h, w)"
      by (cases "stateErr (others h)"; cases a) (simp_all add: registerRef_def registerPeer_def Let_def)
    with assms show ?thesis by auto
  next
    case True
    define blocked where "blocked \<longleftrightarrow> Before now (BlockedUntil (cells qt ! quota)) \<or> quotaBytes D w > 0 \<and> UsedBytes (cells qt ! quota) > quotaBytes D w"
    define full where "full \<longleftrightarrow> keyID cr \<noteq> ''open'' \<and> keyID cr \<noteq> ''shared'' \<and> activePeers L (deref h1) peer owner \<ge> maxActivePeersPerIssuedKey"
    have "registerRef L D h w peer reqKey
        = (if blocked then ((cr, Some errPeerBlocked), h1, w) else if full then ((cr, Some errPeerLimitReached), h1, w)
           else admitRef L D h1 w peer cr now owner oldQuota quota)"
      using True st auth
      by (simp add: registerRef_def Let_def blocked_def full_def h1_def now_def [symmetric] owner_def [symmetric])
    moreover have "registerPeer L D (deref h) w peer reqKey
        = (if blocked then ((cr, Some errPeerBlocked), deref h, w) else if full then ((cr, Some errPeerLimitReached), deref h, w)
           else admitPeer L D (deref h) w peer cr now owner (cells qt ! quota))"
      using True auth fields q same(1)
      by (simp add: registerPeer_def Let_def blocked_def full_def now_def [symmetric] owner_def [symmetric])
    ultimately show ?thesis using assms(1) admit same by (auto split: if_splits)
  qed
qed

text \<open>Every controller has a form with pointers.\<close>

definition tableOf :: "('k, 'v) gomap \<Rightarrow> ('k, 'v) table" where
  "tableOf m = \<lparr>refs = zip (map fst m) [0..<length m], cells = map snd m\<rparr>"

definition pointersOf :: "accessController \<Rightarrow> pointerController" where
  "pointersOf c = \<lparr>peerTable = tableOf (peers c), quotaTable = tableOf (quotas c), others = c\<rparr>"

lemma tableOf_view: "view (tableOf m) = m"
  by (rule nth_equalityI) (simp_all add: view_def tableOf_def split_beta)

lemma tableOf_separate: "separate (tableOf m)"
  by (auto simp: separate_def tableOf_def dest: set_zip_rightD)

lemma pointersOf_deref: "deref (pointersOf c) = c" and pointersOf_separate: "separateMaps (pointersOf c)"
  by (simp_all add: deref_def pointersOf_def tableOf_view separateMaps_def tableOf_separate)

text \<open>The device refuses a peer that registers again, and the registration goes back to its old record.\<close>

theorem register_by_pointers_witness:
  "let D = (exDeps ''s'' 0)\<lparr>AddPeer := (\<lambda>k e w. (Some ''refused'', w))\<rparr>;
       (res, h, w) = registerRef exLib D (pointersOf (exController 1000)) exNow ''p1'' ''kid''
   in res = (\<lparr>keyID = ''kid'', authGen = authGeneration exLib ''s''\<rparr>, Some (errAddPeer ''refused'' None))
      \<and> map_of (peers (deref h)) ''p1'' = map_of (peers (exController 1000)) ''p1''"
proof -
  let ?D = "(exDeps ''s'' 0)\<lparr>AddPeer := (\<lambda>k e w. (Some ''refused'', w))\<rparr>"
  obtain res h w where r: "registerRef exLib ?D (pointersOf (exController 1000)) exNow ''p1'' ''kid'' = (res, h, w)" by (metis prod_cases3)
  have "registerPeer exLib ?D (exController 1000) exNow ''p1'' ''kid'' = (res, deref h, w)"
    using register_by_pointers [OF r pointersOf_separate] by (simp add: pointersOf_deref)
  moreover have "case registerPeer exLib ?D (exController 1000) exNow ''p1'' ''kid'' of (res, c, _) \<Rightarrow>
      res = (\<lparr>keyID = ''kid'', authGen = authGeneration exLib ''s''\<rparr>, Some (errAddPeer ''refused'' None))
      \<and> map_of (peers c) ''p1'' = map_of (peers (exController 1000)) ''p1''"
    by code_simp
  ultimately show ?thesis by (simp add: r)
qed

end
