(* ===== verification/Spec2Isabelle.thy ===== *)
theory Spec2Isabelle
  imports Incoming Tls AccessPointers
begin

text \<open>
  \<^bold>\<open>A model of tunwg.\<close>

  tunwg publishes a local port of a client under a public host name, through a WireGuard tunnel to a
  server. The parts of the program and the way they work together:

  \<^item> A \<^emph>\<open>client\<close> (\<open>src/listener.go\<close>, \<open>src/tunwg/tunwg.go\<close>) reads or makes its private key, derives its
    tunnel address from the public key, asks the HTTP API of the server to add the key as a peer, and
    listens on a port of the tunnel. The host name it prints is the Base32 label of its tunnel address
    and port, followed by the domain of the API.
  \<^item> The \<^emph>\<open>HTTP API\<close> of the server (\<open>src/tunwg/tunwgs.go\<close>) hands out signed keys (\<open>/issue\<close>), registers
    peers (\<open>/add\<close>) and turns a connection into a relay of WireGuard packets (\<open>/relay\<close>,
    \<open>src/internal/relay.go\<close>).
  \<^item> The \<^emph>\<open>access controller\<close> (\<open>src/tunwg/access_controller.go\<close>) decides which peers the device has: it
    checks credentials, counts traffic per quota owner, limits the keys issued per address and the
    peers per key, saves its state before it changes the device, and reconciles device and state
    periodically. Its state lives in a file written through a temporary file and a rename
    (\<open>src/tunwg/access_store.go\<close>).
  \<^item> The \<^emph>\<open>dispatcher\<close> (\<open>src/tunwg/sni_routes.go\<close>, \<open>getIPForDomain\<close>) sends an incoming connection, by the
    host of its TLS hello, to the API, to a static backend or to a tunnel address.
  \<^item> The \<^emph>\<open>device\<close> (\<open>src/internal/wireguard.go\<close>) is driven by lines of text in both directions.

  \<^bold>\<open>The theories.\<close> Each opens with a description of its own; in the order in which they build on each other:

  \<^item> \<open>Prelude\<close>: association lists as Go maps, results, string functions of the Go library, and the locale
    \<open>invariant_system\<close> of reachable states.
  \<^item> \<open>Address\<close> (\<open>src/internal/ip.go\<close>), \<open>GoTime\<close> (package \<open>time\<close> as the program uses it: instants,
    locations, civil dates), \<open>Auth\<close> (\<open>src/internal/auth.go\<close>), \<open>NetText\<close> (ports, \<open>netip\<close> and \<open>net\<close>
    texts, decimal and hexadecimal numbers).
  \<^item> \<open>AccessState\<close> and \<open>AccessController\<close>: the records of \<open>src/tunwg/access_controller.go\<close> and each of its
    methods, as a function from controller and world to result, controller and world. The methods hold
    the mutex of the controller from their first to their last line, and so each is one step.
    \<open>AccessInvariant\<close> proves that each keeps the invariant \<open>wfc\<close>; \<open>AccessProps\<close> has the step relation, its
    reachable states and the round trip of persisted states; \<open>AccessRegister\<close>, \<open>AccessIssue\<close>,
    \<open>AccessReconcile\<close> and \<open>AccessRestart\<close> the correctness of registration, key issue, reconciliation and
    restart, with their branches of failure. \<open>AccessPointers\<close> runs \<open>registerPeer\<close> on maps of pointers, as Go has
    them, and shows that the model on maps of records is faithful to it.
  \<^item> \<open>Device\<close>: the commands to the device, the parser of what it prints, and the operations of the
    controller on it.
  \<^item> \<open>FileSystem\<close> and \<open>AccessStore\<close>: the calls of package \<open>os\<close> on a file system with volatile and durable
    contents, any of which may fail; saving, loading and the revocation list on it; the mapping between
    states and JSON.
  \<^item> \<open>SniRoutes\<close> and \<open>Dispatch\<close>: static routes, the choice of a target, the host policy of certificates and
    the redirect to HTTPS.
  \<^item> \<open>Tls\<close>: how a certificate is obtained, from Let's Encrypt first and then from ZeroSSL, with the file of
    account credentials.
  \<^item> \<open>Api\<close>: the handlers with their statuses and messages; \<open>Relay\<close>: both loops of a relay as a step
    relation, with the steps of the peers; \<open>Config\<close>: the environment and the key file; \<open>Client\<close>: the client
    library; \<open>Program\<close>: the client program, the password check, the wiring of the server and its
    start-up.
  \<^item> \<open>AccessSystem\<close>, \<open>ServerRun\<close> and \<open>Incoming\<close>: the running server. \<open>AccessSystem\<close> is the transition system of
    controller, device and files, in which a reconciliation takes two steps, its reading of the device before it
    has the mutex and its work after, with everything else in between; \<open>ServerRun\<close> has what is documented of the
    device and shows that the interfaces of \<open>globalAccess\<close> satisfy the laws of \<open>AccessSystem\<close>; \<open>Incoming\<close> has what
    each accepted connection leads to (\<open>serveConnection\<close>: the proxy, the API, the redirect), the server on all its
    connections as a step relation that \<open>AccessSystem\<close> simulates, and the theorems that span the components.

  \<^bold>\<open>State, errors and parameters.\<close> A Go struct is a record, a map is an association list (\<open>put\<close>, \<open>del\<close>,
  \<open>map_of\<close>) since the program ranges over some of them, a Go error is \<open>Inl\<close> of a sum or \<open>Some\<close> of an
  option, and a panic is such a value too. A \<open>uint64\<close> or \<open>int64\<close> is an integer with its wrap-around or
  saturation written out where the code can reach it; bytes and addresses are words. Code outside the
  repository is an argument: the record \<open>lib\<close> holds the location, the Unicode tables and HMAC; the record
  \<open>deps\<close> holds store, device and revocation source of the controller as functions on an arbitrary world;
  the faults of the file system, the text syntax of JSON, DNS, the HTTP transport and the certificate
  authorities are arguments of the operations that call them. The theorems hold for every choice of
  them, or name the law they need as a hypothesis, and their witnesses instantiate them.

  \<^bold>\<open>Interfaces.\<close> The locales are \<open>invariant_system\<close> (interpreted on the steps of the access controller, of
  the running server and of the relay), \<open>label_codec\<close> (the labels of addresses), \<open>signed_keys\<close> (issued keys), \<open>usage_counter\<close> (the
  saturating sum), and \<open>state_store\<close> with its extension \<open>durable_store\<close> (saving to a file, also through a
  power loss).

  \<^bold>\<open>What is shown.\<close> The invariant of the controller in all its reachable states; that only authenticated
  peers are ever on the device of the running server, whatever interleaves and fails, and that a reconciliation leaves
  on it none that must go; what a connection can bring about, and where the server dials for it; what a registration has
  checked and saved when it succeeds and that it rolls back when it fails; that the controller fails
  closed once a write is lost; that the pointers of Go do not alias; limits on keys, peers and usage; that reconciliation removes exactly the
  peers of an abstract condition and charges exactly the growth of the counters; that an acknowledged
  save survives power loss and is loaded by the next process; that a visitor of the
  name a client prints is sent to that client and no host leads out of the tunnel; that parsers read back what printers
  wrote (labels, device text, routes, messages, state); that the relay keeps the order of the bytes and
  ends when one side has gone; that the whole path from a client's request to its peer on the device
  works; that an instance obtains certificates only for its own names; that the target of a client behind
  a password hears only from those who know it.

  \<^bold>\<open>Termination and bounds.\<close> No definition has fuel. Loops over input are structural recursion or
  recursion with a measure on the rest of the input, hence total. The only loops that need not end by
  themselves are those of the relay, a step relation with a theorem of termination; the main loop of
  the controller, of which \<open>runOnce\<close> is one iteration; and the monitor of the client, of which one tick
  is a definition.

  \<^bold>\<open>Not modelled.\<close> The accept loops and the time-outs of the HTTP servers, the bytes the SNI proxy copies,
  what the reverse proxy does beyond its headers and answers, and the TLS and ACME protocols: they are
  library calls. \<open>BackgroundLogger\<close>, which only logs, the methods of a listener and of the network stack that only
  forward a call, and \<open>Must\<close>, whose panics are values of the operations that call it. The text syntax of JSON and of RFC 3339 times, which are parameters. The cryptography of
  WireGuard, HMAC and x509. The fsync of parent directories that \<open>os.MkdirAll\<close> has made. Log lines. Data
  races, of which the map \<open>ipValid\<close> of the password check has one: it is modelled with one request at a
  time.
\<close>

end
